(* ===== verification/Prelude.thy ===== *)
theory Prelude
  imports Main "HOL-Library.Word"
begin

text \<open>
  Shared vocabulary of the development: machine-integer type synonyms, the
  outcome of a C++ call (returned value, exception, no return within the loop
  bound, undefined behaviour), a state-and-exception computation type with its
  combinators, and the generic facts about them that the component theories use.
\<close>

named_theorems outcome_simps \<open>evaluation rules of the computation combinators\<close>

type_synonym u8 = "8 word"
type_synonym u16 = "16 word"
type_synonym u32 = "32 word"
type_synonym u64 = "64 word"

section \<open>Outcomes of a C++ call\<close>

text \<open>
  The four handler classes of the public entry points are the constructors of
  \<open>cpp_exn\<close>; the string is what \<open>e.what()\<close> gives.
\<close>

datatype cpp_exn =
    Bad_Alloc string
  | System_Error string
  | Std_Exception string
  | Unknown_Exn

text \<open>
  \<open>Ret\<close>: the call returned; \<open>Throw\<close>: it left by an exception; \<open>Diverge\<close>: a loop
  of the call did not stop within the number of iterations given to it;
  \<open>Fault\<close>: undefined behaviour (null or out-of-bounds dereference).
\<close>

datatype 'a outcome = Ret 'a | Throw cpp_exn | Diverge | Fault

type_synonym ('s, 'a) cpp = "'s \<Rightarrow> 'a outcome \<times> 's"

definition ret :: "'a \<Rightarrow> ('s, 'a) cpp" where
  "ret x = (\<lambda>s. (Ret x, s))"

definition throwE :: "cpp_exn \<Rightarrow> ('s, 'a) cpp" where
  "throwE e = (\<lambda>s. (Throw e, s))"

definition faultE :: "('s, 'a) cpp" where
  "faultE = (\<lambda>s. (Fault, s))"

definition divergeE :: "('s, 'a) cpp" where
  "divergeE = (\<lambda>s. (Diverge, s))"

definition readE :: "('s \<Rightarrow> 'a) \<Rightarrow> ('s, 'a) cpp" where
  "readE f = (\<lambda>s. (Ret (f s), s))"

definition modifyE :: "('s \<Rightarrow> 's) \<Rightarrow> ('s, unit) cpp" where
  "modifyE f = (\<lambda>s. (Ret (), f s))"

definition bindE :: "('s, 'a) cpp \<Rightarrow> ('a \<Rightarrow> ('s, 'b) cpp) \<Rightarrow> ('s, 'b) cpp" where
  "bindE m f = (\<lambda>s. case m s of
       (Ret x, s') \<Rightarrow> f x s'
     | (Throw e, s') \<Rightarrow> (Throw e, s')
     | (Diverge, s') \<Rightarrow> (Diverge, s')
     | (Fault, s') \<Rightarrow> (Fault, s'))"

definition thenE :: "('s, 'a) cpp \<Rightarrow> ('s, 'b) cpp \<Rightarrow> ('s, 'b) cpp" where
  "thenE m k = bindE m (\<lambda>_. k)"

text \<open>A \<open>try\<close> block with its handlers.\<close>

definition catchE :: "('s, 'a) cpp \<Rightarrow> (cpp_exn \<Rightarrow> ('s, 'a) cpp) \<Rightarrow> ('s, 'a) cpp" where
  "catchE m h = (\<lambda>s. case m s of (Throw e, s') \<Rightarrow> h e s' | r \<Rightarrow> r)"

text \<open>
  A scope guard: the state change of its destructor happens on every way out
  of the scope (normal return, early return, exception).
\<close>

definition finallyE :: "('s, 'a) cpp \<Rightarrow> ('s \<Rightarrow> 's) \<Rightarrow> ('s, 'a) cpp" where
  "finallyE m d = (\<lambda>s. case m s of (r, s') \<Rightarrow> (r, d s'))"

lemma ret_run [simp, outcome_simps]: "ret x s = (Ret x, s)"
  by (simp add: ret_def)

lemma throwE_run [simp, outcome_simps]: "throwE e s = (Throw e, s)"
  by (simp add: throwE_def)

lemma faultE_run [simp, outcome_simps]: "faultE s = (Fault, s)"
  by (simp add: faultE_def)

lemma divergeE_run [simp, outcome_simps]: "divergeE s = (Diverge, s)"
  by (simp add: divergeE_def)

lemma readE_run [simp, outcome_simps]: "readE f s = (Ret (f s), s)"
  by (simp add: readE_def)

lemma modifyE_run [simp, outcome_simps]: "modifyE f s = (Ret (), f s)"
  by (simp add: modifyE_def)

lemma bindE_run [outcome_simps]:
  "bindE m f s = (case m s of
       (Ret x, s') \<Rightarrow> f x s'
     | (Throw e, s') \<Rightarrow> (Throw e, s')
     | (Diverge, s') \<Rightarrow> (Diverge, s')
     | (Fault, s') \<Rightarrow> (Fault, s'))"
  by (simp add: bindE_def)

lemma bindE_Ret [simp]: "m s = (Ret x, s') \<Longrightarrow> bindE m f s = f x s'"
  by (simp add: bindE_def)

lemma bindE_Throw [simp]: "m s = (Throw e, s') \<Longrightarrow> bindE m f s = (Throw e, s')"
  by (simp add: bindE_def)

lemma thenE_run [outcome_simps]: "thenE m k s = bindE m (\<lambda>_. k) s"
  by (simp add: thenE_def)

lemma catchE_run [outcome_simps]:
  "catchE m h s = (case m s of (Throw e, s') \<Rightarrow> h e s' | r \<Rightarrow> r)"
  by (simp add: catchE_def)

lemma finallyE_run [outcome_simps]: "finallyE m d s = (case m s of (r, s') \<Rightarrow> (r, d s'))"
  by (simp add: finallyE_def)

lemma snd_finallyE [simp]: "snd (finallyE m d s) = d (snd (m s))"
  by (simp add: finallyE_def split: prod.splits)

lemma fst_finallyE [simp]: "fst (finallyE m d s) = fst (m s)"
  by (simp add: finallyE_def split: prod.splits)

lemma bindE_ret_left: "bindE (ret x) f = f x"
  by (simp add: bindE_def fun_eq_iff)

lemma bindE_readE: "bindE (readE g) f s = f (g s) s"
  by (simp add: bindE_def)

lemma bindE_modifyE: "bindE (modifyE g) f s = f () (g s)"
  by (simp add: bindE_def)

lemma thenE_modifyE: "thenE (modifyE g) k s = k (g s)"
  by (simp add: thenE_def bindE_def)

lemmas cpp_run = bindE_ret_left bindE_readE bindE_modifyE thenE_modifyE

section \<open>What every run of a computation guarantees\<close>

text \<open>
  \<open>guar R m\<close>: whatever the way out, the state after \<open>m\<close> is related by \<open>R\<close> to the
  state before.  \<open>rets P m\<close>: \<open>P\<close> holds of the outcome and the final state.
\<close>

definition guar :: "('s \<Rightarrow> 's \<Rightarrow> bool) \<Rightarrow> ('s, 'a) cpp \<Rightarrow> bool" where
  "guar R m \<longleftrightarrow> (\<forall>s. R s (snd (m s)))"

lemma guarI: "(\<And>s. R s (snd (m s))) \<Longrightarrow> guar R m"
  by (simp add: guar_def)

lemma guarD: "guar R m \<Longrightarrow> R s (snd (m s))"
  by (simp add: guar_def)

text \<open>
  The contract shared by the operations of a component: a relation between the
  state before and the state after that is kept by composing computations.
\<close>

locale guarantee =
  fixes R :: "'s \<Rightarrow> 's \<Rightarrow> bool"
  assumes R_refl: "R s s"
    and R_trans: "R s t \<Longrightarrow> R t u \<Longrightarrow> R s u"
begin

lemma g_ret: "guar R (ret x)"
  by (simp add: guar_def R_refl)

lemma g_throw: "guar R (throwE e)"
  by (simp add: guar_def R_refl)

lemma g_fault: "guar R faultE"
  by (simp add: guar_def R_refl)

lemma g_diverge: "guar R divergeE"
  by (simp add: guar_def R_refl)

lemma g_read: "guar R (readE f)"
  by (simp add: guar_def R_refl)

lemma g_modify: "(\<And>s. R s (f s)) \<Longrightarrow> guar R (modifyE f)"
  by (simp add: guar_def)

lemma g_bind:
  assumes "guar R m" and "\<And>x. guar R (f x)"
  shows "guar R (bindE m f)"
proof (rule guarI)
  fix s
  obtain r s' where m: "m s = (r, s')" by (cases "m s")
  with guarD [OF assms(1), of s] have "R s s'" by simp
  moreover have "R s' (snd (f x s'))" for x using assms(2) by (rule guarD)
  ultimately show "R s (snd (bindE m f s))"
    by (cases r) (auto simp: bindE_def m intro: R_trans)
qed

lemma g_then: "guar R m \<Longrightarrow> guar R k \<Longrightarrow> guar R (thenE m k)"
  unfolding thenE_def by (rule g_bind)

lemma g_catch:
  assumes "guar R m" and "\<And>e. guar R (h e)"
  shows "guar R (catchE m h)"
proof (rule guarI)
  fix s
  obtain r s' where m: "m s = (r, s')" by (cases "m s")
  with guarD [OF assms(1), of s] have "R s s'" by simp
  moreover have "R s' (snd (h e s'))" for e using assms(2) by (rule guarD)
  ultimately show "R s (snd (catchE m h s))"
    by (cases r) (auto simp: catchE_def m intro: R_trans)
qed

lemma g_if: "(b \<Longrightarrow> guar R m) \<Longrightarrow> (\<not> b \<Longrightarrow> guar R k) \<Longrightarrow> guar R (if b then m else k)"
  by simp

lemma g_option:
  "guar R m \<Longrightarrow> (\<And>x. guar R (f x)) \<Longrightarrow> guar R (case z of None \<Rightarrow> m | Some x \<Rightarrow> f x)"
  by (cases z) simp_all

lemma g_let: "(\<And>x. guar R (f x)) \<Longrightarrow> guar R (let x = v in f x)"
  by (simp add: Let_def)

lemmas g_intros = g_ret g_throw g_fault g_diverge g_read g_bind g_then g_catch g_if g_option g_let

end

section \<open>Weakest preconditions\<close>

text \<open>
  The abnormal ways out of a call, and the weakest precondition of a computation:
  on a normal return \<open>Q\<close> holds of the value and the final state, and any other way
  out is one of \<open>A\<close>.  \<open>wp UNIV\<close> is partial correctness; \<open>wp (- {Faulted})\<close> excludes
  undefined behaviour, \<open>wp (- {Diverged})\<close> proves that enough iterations were given.
\<close>

datatype exit = Threw cpp_exn | Diverged | Faulted

definition wp :: "exit set \<Rightarrow> ('s, 'a) cpp \<Rightarrow> ('a \<Rightarrow> 's \<Rightarrow> bool) \<Rightarrow> 's \<Rightarrow> bool" where
  "wp A m Q s = (case m s of
       (Ret x, t) \<Rightarrow> Q x t
     | (Throw e, t) \<Rightarrow> Threw e \<in> A
     | (Diverge, t) \<Rightarrow> Diverged \<in> A
     | (Fault, t) \<Rightarrow> Faulted \<in> A)"

named_theorems wp_simps \<open>weakest preconditions of the combinators\<close>

lemma wp_ret [wp_simps]: "wp A (ret x) Q s = Q x s"
  by (simp add: wp_def)

lemma wp_throw [wp_simps]: "wp A (throwE e) Q s = (Threw e \<in> A)"
  by (simp add: wp_def)

lemma wp_fault [wp_simps]: "wp A faultE Q s = (Faulted \<in> A)"
  by (simp add: wp_def)

lemma wp_diverge [wp_simps]: "wp A divergeE Q s = (Diverged \<in> A)"
  by (simp add: wp_def)

lemma wp_read [wp_simps]: "wp A (readE f) Q s = Q (f s) s"
  by (simp add: wp_def)

lemma wp_modify [wp_simps]: "wp A (modifyE f) Q s = Q () (f s)"
  by (simp add: wp_def)

lemma wp_bind [wp_simps]: "wp A (bindE m f) Q s = wp A m (\<lambda>x. wp A (f x) Q) s"
  by (auto simp: wp_def bindE_def split: prod.splits outcome.splits)

lemma wp_then [wp_simps]: "wp A (thenE m k) Q s = wp A m (\<lambda>_. wp A k Q) s"
  by (simp add: thenE_def wp_bind)

lemma wp_finally [wp_simps]: "wp A (finallyE m d) Q s = wp A m (\<lambda>x t. Q x (d t)) s"
  by (auto simp: wp_def finallyE_def split: prod.splits outcome.splits)

lemma wp_if [wp_simps]: "wp A (if b then m else k) Q s = (if b then wp A m Q s else wp A k Q s)"
  by simp

lemma wp_option [wp_simps]:
  "wp A (case z of None \<Rightarrow> m | Some x \<Rightarrow> f x) Q s = (case z of None \<Rightarrow> wp A m Q s | Some x \<Rightarrow> wp A (f x) Q s)"
  by (cases z) simp_all

lemma wp_mono:
  "wp A m P s \<Longrightarrow> A \<subseteq> B \<Longrightarrow> (\<And>x t. P x t \<Longrightarrow> Q x t) \<Longrightarrow> wp B m Q s"
  by (auto simp: wp_def split: prod.splits outcome.splits)

lemma wp_weaken: "wp A m P s \<Longrightarrow> (\<And>x t. P x t \<Longrightarrow> Q x t) \<Longrightarrow> wp A m Q s"
  by (erule wp_mono [OF _ subset_refl])

lemma wp_conj: "wp A m P s \<Longrightarrow> wp A m Q s \<Longrightarrow> wp A m (\<lambda>x t. P x t \<and> Q x t) s"
  by (auto simp: wp_def split: prod.splits outcome.splits)

lemma wp_guar: "guar R m \<Longrightarrow> wp UNIV m (\<lambda>x t. R s t) s"
  using guarD [of R m s] by (auto simp: wp_def split: prod.splits outcome.splits)

lemma wp_catch:
  assumes "wp B m Q s" and "\<And>x. x \<in> B \<Longrightarrow> (\<forall>e. x \<noteq> Threw e) \<Longrightarrow> x \<in> A"
    and "\<And>e t. Threw e \<in> B \<Longrightarrow> m s = (Throw e, t) \<Longrightarrow> wp A (h e) Q t"
  shows "wp A (catchE m h) Q s"
proof -
  obtain r t where m: "m s = (r, t)" by (cases "m s")
  show ?thesis
  proof (cases r)
    case (Throw e)
    with m assms(1) have "Threw e \<in> B" by (simp add: wp_def)
    with assms(3) m Throw have "wp A (h e) Q t" by blast
    then show ?thesis by (simp add: wp_def catchE_def m Throw)
  qed (use m assms(1,2) in \<open>auto simp: wp_def catchE_def\<close>)
qed

lemma wpD: "wp A m Q s \<Longrightarrow> m s = (Ret x, t) \<Longrightarrow> Q x t"
  by (simp add: wp_def)

lemma wp_exit: "wp A m Q s \<Longrightarrow> Faulted \<notin> A \<Longrightarrow> fst (m s) \<noteq> Fault"
  "wp A m Q s \<Longrightarrow> Diverged \<notin> A \<Longrightarrow> fst (m s) \<noteq> Diverge"
  "wp A m Q s \<Longrightarrow> Threw e \<notin> A \<Longrightarrow> fst (m s) \<noteq> Throw e"
  by (auto simp: wp_def split: prod.splits outcome.splits)

text \<open>Which abnormal exits a computation can take at all.\<close>

definition exits :: "exit set \<Rightarrow> ('s, 'a) cpp \<Rightarrow> bool" where
  "exits A m \<longleftrightarrow> (\<forall>s. wp A m (\<lambda>_ _. True) s)"

lemma exitsD: "exits A m \<Longrightarrow> wp A m (\<lambda>_ _. True) s"
  by (simp add: exits_def)

lemma exits_mono: "exits A m \<Longrightarrow> A \<subseteq> B \<Longrightarrow> exits B m"
  unfolding exits_def by (blast intro: wp_mono)

lemma exits_ret: "exits A (ret x)"
  by (simp add: exits_def wp_simps)

lemma exits_read: "exits A (readE f)"
  by (simp add: exits_def wp_simps)

lemma exits_modify: "exits A (modifyE f)"
  by (simp add: exits_def wp_simps)

lemma exits_throw: "Threw e \<in> A \<Longrightarrow> exits A (throwE e)"
  by (simp add: exits_def wp_simps)

lemma exits_bind: "exits A m \<Longrightarrow> (\<And>x. exits A (f x)) \<Longrightarrow> exits A (bindE m f)"
  by (auto simp: exits_def wp_simps intro: wp_weaken)

lemma exits_then: "exits A m \<Longrightarrow> exits A k \<Longrightarrow> exits A (thenE m k)"
  by (simp add: thenE_def exits_bind)

lemma exits_if: "(b \<Longrightarrow> exits A m) \<Longrightarrow> (\<not> b \<Longrightarrow> exits A k) \<Longrightarrow> exits A (if b then m else k)"
  by simp

lemma exits_option:
  "exits A m \<Longrightarrow> (\<And>x. exits A (f x)) \<Longrightarrow> exits A (case z of None \<Rightarrow> m | Some x \<Rightarrow> f x)"
  by (cases z) simp_all

lemma exits_finally: "exits A m \<Longrightarrow> exits A (finallyE m d)"
  by (simp add: exits_def wp_simps)

lemma exits_catch:
  assumes "exits B m" and "\<And>x. x \<in> B \<Longrightarrow> (\<forall>e. x \<noteq> Threw e) \<Longrightarrow> x \<in> A" and "\<And>e. exits A (h e)"
  shows "exits A (catchE m h)"
  unfolding exits_def
proof (intro allI wp_catch [OF exitsD [OF assms(1)]])
  fix x assume "x \<in> B" and "\<forall>e. x \<noteq> Threw e"
  then show "x \<in> A" by (rule assms(2))
qed (rule exitsD [OF assms(3)])

lemma exits_fault: "Faulted \<in> A \<Longrightarrow> exits A faultE"
  by (simp add: exits_def wp_simps)

lemma exits_diverge: "Diverged \<in> A \<Longrightarrow> exits A divergeE"
  by (simp add: exits_def wp_simps)

lemma exits_pair: "(\<And>a b. exits A (f a b)) \<Longrightarrow> exits A (case p of (a, b) \<Rightarrow> f a b)"
  by (cases p) simp

lemmas exits_intros = exits_ret exits_read exits_modify exits_bind exits_then exits_if exits_option
  exits_finally exits_pair

lemma wp_exits: "exits A m \<Longrightarrow> wp UNIV m Q s \<Longrightarrow> wp A m Q s"
  using exitsD [of A m s] by (auto simp: wp_def split: prod.splits outcome.splits)

lemma wpI:
  assumes "\<And>x t. m s = (Ret x, t) \<Longrightarrow> Q x t" and "\<And>e t. m s = (Throw e, t) \<Longrightarrow> Threw e \<in> A"
    and "\<And>t. m s = (Diverge, t) \<Longrightarrow> Diverged \<in> A" and "\<And>t. m s = (Fault, t) \<Longrightarrow> Faulted \<in> A"
  shows "wp A m Q s"
  using assms by (cases "m s"; cases "fst (m s)") (auto simp: wp_def)

text \<open>Two facts about the same computation together.\<close>

lemma wp_meet: "wp A m P s \<Longrightarrow> wp B m Q s \<Longrightarrow> wp (A \<inter> B) m (\<lambda>x t. P x t \<and> Q x t) s"
  by (auto simp: wp_def split: prod.splits outcome.splits)

lemma wp_meet_exits: "wp A m Q s \<Longrightarrow> exits B m \<Longrightarrow> wp (A \<inter> B) m Q s"
  by (rule wp_weaken [OF wp_meet [OF _ exitsD]]) simp_all

lemma exits_meet: "exits A m \<Longrightarrow> exits B m \<Longrightarrow> exits (A \<inter> B) m"
  unfolding exits_def by (blast intro: wp_meet_exits [unfolded exits_def])

lemma only_throws: "- {Faulted} \<inter> - {Diverged} = range Threw"
  by (auto, metis exit.exhaust rangeI)

section \<open>Decimal rendering\<close>

text \<open>\<open>std::to_string\<close> of an unsigned and of a signed integer.\<close>

fun nat_to_string :: "nat \<Rightarrow> string" where
  "nat_to_string n =
     (if n < 10 then [char_of (48 + n)]
      else nat_to_string (n div 10) @ [char_of (48 + n mod 10)])"

declare nat_to_string.simps [simp del]

definition int_to_string :: "int \<Rightarrow> string" where
  "int_to_string i = (if i < 0 then CHR ''-'' # nat_to_string (nat (- i)) else nat_to_string (nat i))"

definition u32_str :: "u32 \<Rightarrow> string" where
  "u32_str w = nat_to_string (unat w)"

lemma nat_to_string_nonempty [simp]: "nat_to_string n \<noteq> []"
  by (subst nat_to_string.simps) simp

section \<open>Word ranges\<close>

lemma unat_u32_less: "unat (w :: u32) < 4294967296"
  using unsigned_less [of w, where ?'a = nat] by simp

lemma unat_u32_u64 [simp]: "unat (ucast (w :: u32) :: u64) = unat w"
  using unat_u32_less [of w] by (simp add: unsigned_ucast_eq take_bit_nat_eq_self)

lemma unat_u16_less: "unat (w :: u16) < 65536"
  using unsigned_less [of w, where ?'a = nat] by simp

end
