(* ===== verification/Error_Deal.thy ===== *)
theory Error_Deal
  imports Prelude
begin

text \<open>
  \<open>include/Rust_error_deal/error_deal.h\<close>: the error value \<open>RichError\<close> and the
  sum type \<open>Result<T, E>\<close> with its combinators.  A callable of the source is a
  HOL function; the four reference-qualified overloads of a combinator compute
  the same value and are one definition.
\<close>

section \<open>RichError\<close>

datatype error_code =
    EC_INVALID_STATE | EC_RECREATING | EC_GIVENUP_ING | EC_NOT_GIVEN_UP
  | EC_ALREADY_TERMINATED | EC_NOT_INITIALIZED
  | EC_INVALID_ARGUMENT | EC_INVALID_CONFIG | EC_TYPE_MISMATCH | EC_TYPE_NOTSUPPORT
  | EC_CONVERSION_FAILED
  | EC_NOT_CONNECTED | EC_CONNECT_TIMEOUT | EC_SESSION_NOT_ACTIVATED | EC_CHANNEL_NOT_OPEN
  | EC_CHANNEL_NOT_CLOSED | EC_DISCONNECT_TIMEOUT
  | EC_THREAD_BUSY | EC_IN_FLIGHT_TIMEOUT | EC_BUDGET_EXCEEDED
  | EC_SERVICE_FAILED | EC_SERVICE_RETRY_EXHAUSTED | EC_SDK_ERROR
  | EC_INTERNAL_ERROR | EC_UNKNOWN | EC_OK

record rich_error =
  err_code :: error_code
  err_context :: string

text \<open>The three constructors: default, code with context, context only.\<close>

definition RichError_default :: rich_error where
  "RichError_default = \<lparr>err_code = EC_UNKNOWN, err_context = ''''\<rparr>"

definition RichError :: "error_code \<Rightarrow> string \<Rightarrow> rich_error" where
  "RichError c ctx = \<lparr>err_code = c, err_context = ctx\<rparr>"

definition RichError_ctx :: "string \<Rightarrow> rich_error" where
  "RichError_ctx ctx = \<lparr>err_code = EC_UNKNOWN, err_context = ctx\<rparr>"

lemma code_of_RichError [simp]: "err_code (RichError c ctx) = c"
  by (simp add: RichError_def)

lemma context_of_RichError [simp]: "err_context (RichError c ctx) = ctx"
  by (simp add: RichError_def)

lemma code_of_RichError_ctx [simp]: "err_code (RichError_ctx ctx) = EC_UNKNOWN"
  by (simp add: RichError_ctx_def)

lemma RichError_inject [simp]: "RichError c ctx = RichError c' ctx' \<longleftrightarrow> c = c' \<and> ctx = ctx'"
  by (simp add: RichError_def)

fun codeName :: "error_code \<Rightarrow> string" where
  "codeName EC_INVALID_STATE = ''INVALID_STATE''"
| "codeName EC_RECREATING = ''RECREATING''"
| "codeName EC_NOT_GIVEN_UP = ''NOT_GIVEN_UP''"
| "codeName EC_GIVENUP_ING = ''GIVENUP_ING''"
| "codeName EC_ALREADY_TERMINATED = ''ALREADY_TERMINATED''"
| "codeName EC_NOT_INITIALIZED = ''NOT_INITIALIZED''"
| "codeName EC_INVALID_ARGUMENT = ''INVALID_ARGUMENT''"
| "codeName EC_INVALID_CONFIG = ''INVALID_CONFIG''"
| "codeName EC_TYPE_MISMATCH = ''TYPE_MISMATCH''"
| "codeName EC_TYPE_NOTSUPPORT = ''TYPE_NOTSUPPORT''"
| "codeName EC_CONVERSION_FAILED = ''CONVERSION_FAILED''"
| "codeName EC_NOT_CONNECTED = ''NOT_CONNECTED''"
| "codeName EC_CONNECT_TIMEOUT = ''CONNECT_TIMEOUT''"
| "codeName EC_SESSION_NOT_ACTIVATED = ''SESSION_NOT_ACTIVATED''"
| "codeName EC_CHANNEL_NOT_OPEN = ''CHANNEL_NOT_OPEN''"
| "codeName EC_CHANNEL_NOT_CLOSED = ''CHANNEL_NOT_CLOSED''"
| "codeName EC_DISCONNECT_TIMEOUT = ''DISCONNECT_TIMEOUT''"
| "codeName EC_THREAD_BUSY = ''THREAD_BUSY''"
| "codeName EC_IN_FLIGHT_TIMEOUT = ''IN_FLIGHT_TIMEOUT''"
| "codeName EC_BUDGET_EXCEEDED = ''BUDGET_EXCEEDED''"
| "codeName EC_SERVICE_FAILED = ''SERVICE_FAILED''"
| "codeName EC_SERVICE_RETRY_EXHAUSTED = ''SERVICE_RETRY_EXHAUSTED''"
| "codeName EC_SDK_ERROR = ''SDK_ERROR''"
| "codeName EC_INTERNAL_ERROR = ''INTERNAL_ERROR''"
| "codeName EC_UNKNOWN = ''UNKNOWN''"
| "codeName EC_OK = ''OK''"

section \<open>Result\<close>

datatype ('t, 'e) result = Success 't | Error 'e

fun is_success :: "('t, 'e) result \<Rightarrow> bool" where
  "is_success (Success _) = True"
| "is_success (Error _) = False"

fun is_fail :: "('t, 'e) result \<Rightarrow> bool" where
  "is_fail (Success _) = False"
| "is_fail (Error _) = True"

text \<open>\<open>get\<close> and \<open>get_error\<close> return a pointer; a null pointer is \<open>None\<close>.\<close>

fun get :: "('t, 'e) result \<Rightarrow> 't option" where
  "get (Success v) = Some v"
| "get (Error _) = None"

fun get_error :: "('t, 'e) result \<Rightarrow> 'e option" where
  "get_error (Success _) = None"
| "get_error (Error e) = Some e"

definition value_or :: "('t, 'e) result \<Rightarrow> 't \<Rightarrow> 't" where
  "value_or r d = (case r of Success v \<Rightarrow> v | Error _ \<Rightarrow> d)"

definition result_map :: "('t \<Rightarrow> 'u) \<Rightarrow> ('t, 'e) result \<Rightarrow> ('u, 'e) result" where
  "result_map f r = (case r of Success v \<Rightarrow> Success (f v) | Error e \<Rightarrow> Error e)"

definition map_err :: "('e \<Rightarrow> 'f) \<Rightarrow> ('t, 'e) result \<Rightarrow> ('t, 'f) result" where
  "map_err f r = (case r of Error e \<Rightarrow> Error (f e) | Success v \<Rightarrow> Success v)"

definition and_then :: "('t \<Rightarrow> ('u, 'e) result) \<Rightarrow> ('t, 'e) result \<Rightarrow> ('u, 'e) result" where
  "and_then f r = (case r of Success v \<Rightarrow> f v | Error e \<Rightarrow> Error e)"

definition or_else :: "('e \<Rightarrow> ('t, 'f) result) \<Rightarrow> ('t, 'e) result \<Rightarrow> ('t, 'f) result" where
  "or_else f r = (case r of Error e \<Rightarrow> f e | Success v \<Rightarrow> Success v)"

definition map_or :: "('t \<Rightarrow> 'u) \<Rightarrow> 'u \<Rightarrow> ('t, 'e) result \<Rightarrow> 'u" where
  "map_or f d r = (case r of Success v \<Rightarrow> f v | Error _ \<Rightarrow> d)"

definition map_or_else :: "('t \<Rightarrow> 'u) \<Rightarrow> (unit \<Rightarrow> 'u) \<Rightarrow> ('t, 'e) result \<Rightarrow> 'u" where
  "map_or_else f d r = (case r of Success v \<Rightarrow> f v | Error _ \<Rightarrow> d ())"

lemmas result_defs =
  value_or_def result_map_def map_err_def and_then_def or_else_def map_or_def map_or_else_def

section \<open>The laws of a fallible chain\<close>

text \<open>
  The contract a chain of fallible steps relies on: a unit, sequencing that
  stops at the first failure, and recovery that leaves successes alone.
\<close>

locale fallible =
  fixes unit_op :: "'t \<Rightarrow> 'r"
    and fail_op :: "'e \<Rightarrow> 'r"
    and seq_op :: "('t \<Rightarrow> 'r) \<Rightarrow> 'r \<Rightarrow> 'r"
    and recover_op :: "('e \<Rightarrow> 'r) \<Rightarrow> 'r \<Rightarrow> 'r"
  assumes seq_unit: "seq_op f (unit_op x) = f x"
    and seq_fail: "seq_op f (fail_op e) = fail_op e"
    and recover_unit: "recover_op h (unit_op x) = unit_op x"
    and recover_fail: "recover_op h (fail_op e) = h e"
    and exhaust: "(\<exists>x. r = unit_op x) \<or> (\<exists>e. r = fail_op e)"
begin

lemma seq_right_unit: "seq_op unit_op r = r"
  using exhaust [of r] by (auto simp: seq_unit seq_fail)

lemma seq_assoc: "seq_op g (seq_op f r) = seq_op (\<lambda>x. seq_op g (f x)) r"
  using exhaust [of r] by (auto simp: seq_unit seq_fail)

lemma recover_right_unit: "recover_op fail_op r = r"
  using exhaust [of r] by (auto simp: recover_unit recover_fail)

lemma recover_assoc: "recover_op k (recover_op h r) = recover_op (\<lambda>e. recover_op k (h e)) r"
  using exhaust [of r] by (auto simp: recover_unit recover_fail)

text \<open>A list of steps run in sequence stops at the first one that fails.\<close>

definition chain :: "('t \<Rightarrow> 'r) list \<Rightarrow> 'r \<Rightarrow> 'r" where
  "chain fs r = foldl (\<lambda>acc f. seq_op f acc) r fs"

lemma chain_fail: "chain fs (fail_op e) = fail_op e"
  unfolding chain_def by (induction fs) (simp_all add: seq_fail)

lemma chain_append: "chain (fs @ gs) r = chain gs (chain fs r)"
  by (simp add: chain_def)

lemma chain_first_failure:
  assumes "chain fs r = unit_op x" and "f x = fail_op e"
  shows "chain (fs @ f # gs) r = fail_op e"
proof -
  have "chain (f # gs) (unit_op x) = chain gs (seq_op f (unit_op x))"
    by (simp add: chain_def)
  also have "\<dots> = fail_op e"
    by (simp add: seq_unit assms(2) chain_fail)
  finally show ?thesis
    by (simp add: chain_append assms(1))
qed

end

interpretation res: fallible Success Error and_then or_else
proof unfold_locales
  show "(\<exists>x. r = Success x) \<or> (\<exists>e. r = Error e)" for r :: "('t, 'e) result"
    by (cases r) simp_all
qed (simp_all add: result_defs)

section \<open>Facts about the combinators\<close>

lemma is_fail_not_success: "is_fail r = (\<not> is_success r)"
  by (cases r) simp_all

lemma is_success_iff: "is_success r \<longleftrightarrow> (\<exists>v. r = Success v)"
  by (cases r) simp_all

lemma is_fail_iff: "is_fail r \<longleftrightarrow> (\<exists>e. r = Error e)"
  by (cases r) simp_all

lemma result_map_comp: "result_map g (result_map f r) = result_map (g \<circ> f) r"
  by (cases r) (simp_all add: result_defs)

lemma map_err_comp: "map_err g (map_err f r) = map_err (g \<circ> f) r"
  by (cases r) (simp_all add: result_defs)

lemma result_map_and_then: "result_map f r = and_then (\<lambda>v. Success (f v)) r"
  by (cases r) (simp_all add: result_defs)

lemma map_or_value_or: "map_or f d r = value_or (result_map f r) d"
  by (cases r) (simp_all add: result_defs)

text \<open>Sequencing is associative with \<open>Success\<close> as unit; recovery never disturbs a success.\<close>

theorem result_laws:
  "and_then g (and_then f r) = and_then (\<lambda>x. and_then g (f x)) r \<and>
   and_then Success r = r \<and>
   and_then f (Error e) = Error e \<and>
   or_else k (or_else h r) = or_else (\<lambda>e. or_else k (h e)) r \<and>
   or_else h (Success v) = Success v"
  by (cases r) (simp_all add: result_defs)

end
