(* ===== verification/S7_Types.thy ===== *)
theory S7_Types
  imports Error_Deal
begin

text \<open>
  \<open>include/OPCUAPacking/S7TypeStruct.h\<close> and \<open>ValueTypes.h\<close>: the PLC type tags, the
  value variant, the zero value of each scalar type and the two name tables.
  Integers keep their width; \<open>float\<close> and \<open>double\<close> values are their IEEE-754 bit
  patterns, since the code only copies them; \<open>std::string\<close> is a list of bytes.
\<close>

datatype s7_type =
    S7_BOOL | S7_SINT | S7_BYTE | S7_INT | S7_WORD | S7_DINT | S7_UDINT | S7_DWORD
  | S7_LINT | S7_ULINT | S7_REAL | S7_LREAL | S7_STRING | S7_ARRAY | S7_STRUCT | S7_UNKNOWN

datatype value_type =
    V_bool bool
  | V_int8 u8
  | V_uint8 u8
  | V_int16 u16
  | V_uint16 u16
  | V_int32 u32
  | V_uint32 u32
  | V_int64 u64
  | V_uint64 u64
  | V_float u32
  | V_double u64
  | V_string string

fun default_value_for :: "s7_type \<Rightarrow> value_type outcome" where
  "default_value_for S7_BOOL = Ret (V_bool False)"
| "default_value_for S7_SINT = Ret (V_int8 0)"
| "default_value_for S7_BYTE = Ret (V_uint8 0)"
| "default_value_for S7_INT = Ret (V_int16 0)"
| "default_value_for S7_WORD = Ret (V_uint16 0)"
| "default_value_for S7_DINT = Ret (V_int32 0)"
| "default_value_for S7_UDINT = Ret (V_uint32 0)"
| "default_value_for S7_DWORD = Ret (V_uint32 0)"
| "default_value_for S7_LINT = Ret (V_int64 0)"
| "default_value_for S7_ULINT = Ret (V_uint64 0)"
| "default_value_for S7_REAL = Ret (V_float 0)"
| "default_value_for S7_LREAL = Ret (V_double 0)"
| "default_value_for S7_STRING = Ret (V_string [])"
| "default_value_for S7_ARRAY =
     Throw (Std_Exception ''default_value_for: ARRAY/STRUCT/UNKNOWN have no scalar default'')"
| "default_value_for S7_STRUCT =
     Throw (Std_Exception ''default_value_for: ARRAY/STRUCT/UNKNOWN have no scalar default'')"
| "default_value_for S7_UNKNOWN =
     Throw (Std_Exception ''default_value_for: ARRAY/STRUCT/UNKNOWN have no scalar default'')"

text \<open>The two tables as association lists in the source's order.\<close>

definition S7DataTypeToString :: "(s7_type \<times> string) list" where
  "S7DataTypeToString = [
     (S7_BOOL, ''BOOL''),
     (S7_SINT, ''SINT''),
     (S7_BYTE, ''BYTE''),
     (S7_INT, ''INT''),
     (S7_WORD, ''WORD''),
     (S7_DINT, ''DINT''),
     (S7_UDINT, ''UDINT''),
     (S7_DWORD, ''DWORD''),
     (S7_LINT, ''LINT''),
     (S7_ULINT, ''ULINT''),
     (S7_REAL, ''REAL''),
     (S7_LREAL, ''LREAL''),
     (S7_STRING, ''STRING''),
     (S7_ARRAY, ''ARRAY''),
     (S7_STRUCT, ''STRUCT''),
     (S7_UNKNOWN, ''UNKNOWN'')]"

definition typeMap :: "(string \<times> s7_type) list" where
  "typeMap = [
     (''BOOL'', S7_BOOL),
     (''SINT'', S7_SINT),
     (''BYTE'', S7_BYTE),
     (''INT'', S7_INT),
     (''WORD'', S7_WORD),
     (''DINT'', S7_DINT),
     (''UDINT'', S7_UDINT),
     (''DWORD'', S7_DWORD),
     (''LINT'', S7_LINT),
     (''ULINT'', S7_ULINT),
     (''REAL'', S7_REAL),
     (''LREAL'', S7_LREAL),
     (''STRING'', S7_STRING),
     (''ARRAY'', S7_ARRAY),
     (''STRUCT'', S7_STRUCT),
     (''UNKNOWN'', S7_UNKNOWN)]"

text \<open>The tables are inverse to each other.\<close>

lemma typeMap_toString:
  assumes "map_of S7DataTypeToString t = Some n"
  shows "map_of typeMap n = Some t"
proof -
  have "list_all (\<lambda>(u, k). map_of typeMap k = Some u) S7DataTypeToString"
    by code_simp
  with map_of_SomeD [OF assms] show ?thesis by (auto simp: list_all_iff)
qed

lemma toString_total: "\<exists>n. map_of S7DataTypeToString t = Some n"
  by (cases t) (simp_all add: S7DataTypeToString_def)

lemma toString_typeMap:
  assumes "map_of typeMap n = Some t"
  shows "map_of S7DataTypeToString t = Some n"
proof -
  have "list_all (\<lambda>(k, u). map_of S7DataTypeToString u = Some k) typeMap"
    by code_simp
  with map_of_SomeD [OF assms] show ?thesis by (auto simp: list_all_iff)
qed

end
