(* ===== verification/Ua_Sdk.thy ===== *)
theory Ua_Sdk
  imports S7_Types
begin

text \<open>
  The seam to open62541: \<open>src/OPCUAPacking/detail/Isdk.h\<close> and the parts of the
  SDK header the wrapper uses.  The SDK is not part of the repository, so its
  constants, its pure helpers and its calls are the fields of one parameter,
  the record \<open>'w sdk\<close>, over an opaque world \<open>'w\<close> (network, server, clocks, heap).
  A call gives its result or the exception it left by, the events that happened
  while it ran, in order, and the new world.
\<close>

section \<open>Constants and data of the SDK header\<close>

text \<open>Status codes the wrapper names; their numeric values are a field below.\<close>

datatype ua_status =
    GOOD | BADCONNECTIONCLOSED | BADCOMMUNICATIONERROR | BADSESSIONIDINVALID
  | BADSECURECHANNELIDINVALID | BADNOTCONNECTED | BADSECURECHANNELCLOSED
  | BADSERVERNOTCONNECTED | BADTIMEOUT | BADSESSIONCLOSED

datatype ua_channel = CHANNEL_CLOSED | CHANNEL_OPEN

datatype ua_session = SESSION_CLOSED | SESSION_ACTIVATED

text \<open>Entries of \<open>UA_TYPES\<close>; \<open>UA_OTHER\<close> stands for the entries the wrapper never names.\<close>

datatype ua_type =
    UA_BOOLEAN | UA_SBYTE | UA_BYTE | UA_INT16 | UA_UINT16 | UA_INT32 | UA_UINT32
  | UA_INT64 | UA_UINT64 | UA_FLOAT | UA_DOUBLE | UA_STRING | UA_OTHER nat

text \<open>\<open>UA_String\<close>: a length and a pointer, \<open>None\<close> for null.\<close>

record ua_string =
  us_length :: nat
  us_data :: "string option"

text \<open>What a data pointer of a \<open>UA_Variant\<close> can point to.\<close>

datatype ua_cell =
    C_bool bool | C_int8 u8 | C_uint8 u8 | C_int16 u16 | C_uint16 u16 | C_int32 u32
  | C_uint32 u32 | C_int64 u64 | C_uint64 u64 | C_float u32 | C_double u64
  | C_string ua_string | C_other nat

datatype ua_data = D_Null | D_Sentinel | D_Cell ua_cell

record ua_variant =
  v_type :: "ua_type option"
  v_arrayLength :: nat
  v_data :: ua_data

datatype identifier_type = IDT_NUMERIC | IDT_STRING | IDT_OTHER

record ua_nodeid =
  ni_ns :: u16
  ni_type :: identifier_type
  ni_numeric :: u32
  ni_string :: ua_string

datatype attribute_id = ATTR_UNSET | ATTR_VALUE

record read_value_id =
  rv_nodeId :: ua_nodeid
  rv_attributeId :: attribute_id

datatype timestamps = TS_SOURCE | TS_NEITHER

record read_request =
  rq_nodesToRead :: "read_value_id list"
  rq_nodesToReadSize :: nat
  rq_timestamps :: timestamps

record write_value =
  wv_nodeId :: ua_nodeid
  wv_attributeId :: attribute_id
  wv_hasValue :: bool
  wv_value :: ua_variant

record write_request =
  wq_nodesToWrite :: "write_value list"
  wq_nodesToWriteSize :: nat

record data_value =
  dv_status :: u32
  dv_value :: ua_variant

text \<open>
  A response: service result, the \<open>results\<close> array with its size field and the
  \<open>diagnosticInfos\<close> array with its size field; \<open>None\<close> is a null array pointer.
\<close>

record 'i response =
  rs_serviceResult :: u32
  rs_results :: "'i list option"
  rs_resultsSize :: nat
  rs_diagnosticInfos :: "nat list option"
  rs_diagnosticInfosSize :: nat

type_synonym read_response = "data_value response"
type_synonym write_response = "u32 response"

section \<open>Events during a call\<close>

text \<open>
  While the SDK runs a call it may invoke the two registered callbacks on the
  calling thread.  A call can also block, and another thread can then finish
  \<open>setGiveUpSignal()\<close> or \<open>signalShutdown()\<close> on the same object: these are the
  two peer events.
\<close>

datatype event =
    StateCb u32 u32 u32      \<comment> \<open>channel state, session state, connect status\<close>
  | InactivityCb
  | PeerGiveUp
  | PeerShutdown

type_synonym ('w, 'a) sdk_call = "'w \<Rightarrow> (cpp_exn + 'a) \<times> event list \<times> 'w"

section \<open>The SDK parameter\<close>

text \<open>
  Fields in three groups: pure helpers and constants of the SDK header, the
  virtual calls of \<open>ISdk\<close>, and the platform (allocation, threads, clocks, waits).
  \<open>sdk_code\<close> gives a status its number and \<open>sdk_chan\<close>, \<open>sdk_sess\<close> a state its number.
  \<open>sdk_getConfig\<close> tells whether the configuration pointer is non-null and, if so,
  whether it carries a logger.  \<open>wall_now\<close> reads \<open>steady_clock\<close> in nanoseconds.
\<close>

record 'w sdk =
  sdk_isGood :: "u32 \<Rightarrow> bool"
  sdk_isBad :: "u32 \<Rightarrow> bool"
  sdk_statusName :: "u32 \<Rightarrow> string option"
  sdk_code :: "ua_status \<Rightarrow> u32"
  sdk_chan :: "ua_channel \<Rightarrow> u32"
  sdk_sess :: "ua_session \<Rightarrow> u32"
  sdk_isScalar :: "ua_variant \<Rightarrow> bool"
  sdk_UA_STRING :: "string \<Rightarrow> ua_string"
  sdk_nodeid_numeric :: "u16 \<Rightarrow> u32 \<Rightarrow> ua_nodeid"
  sdk_nodeid_string_alloc :: "u16 \<Rightarrow> string \<Rightarrow> 'w \<Rightarrow> ua_nodeid \<times> 'w"
  sdk_set_scalar_copy :: "ua_cell \<Rightarrow> ua_type \<Rightarrow> 'w \<Rightarrow> (u32 \<times> ua_variant) \<times> 'w"
  sdk_array_new :: "nat \<Rightarrow> 'w \<Rightarrow> bool \<times> 'w"
  sdk_clientNew :: "('w, nat option) sdk_call"
  sdk_clientDelete :: "nat \<Rightarrow> ('w, unit) sdk_call"
  sdk_connectAsync :: "nat \<Rightarrow> string \<Rightarrow> ('w, u32) sdk_call"
  sdk_disconnectAsync :: "nat \<Rightarrow> ('w, u32) sdk_call"
  sdk_runIterate :: "nat \<Rightarrow> nat \<Rightarrow> ('w, u32) sdk_call"
  sdk_getState :: "nat \<Rightarrow> ('w, u32 \<times> u32 \<times> u32) sdk_call"
  sdk_getConfig :: "nat \<Rightarrow> ('w, bool option) sdk_call"
  sdk_serviceRead :: "nat \<Rightarrow> read_request \<Rightarrow> ('w, read_response) sdk_call"
  sdk_serviceWrite :: "nat \<Rightarrow> write_request \<Rightarrow> ('w, write_response) sdk_call"
  sdk_nowMs :: "('w, int) sdk_call"
  wall_now :: "('w, int) sdk_call"
  wait_ms :: "nat \<Rightarrow> ('w, unit) sdk_call"
  spawn_thread :: "('w, unit) sdk_call"
  join_thread :: "('w, unit) sdk_call"

text \<open>
  Documented behaviour of the header that properties may assume: the severity
  bits of a status code, distinct numbers for distinct states, state numbers
  that fit a byte, and the scalar invariant of \<open>UA_Variant\<close> quoted in
  \<open>TypeTraits.h\<close>.
\<close>

definition severity_documented :: "'w sdk \<Rightarrow> bool" where
  "severity_documented K \<longleftrightarrow>
     (\<forall>c. sdk_isGood K c \<longleftrightarrow> unat c < 2 ^ 30) \<and>
     (\<forall>c. sdk_isBad K c \<longleftrightarrow> 2 ^ 31 \<le> unat c) \<and>
     sdk_code K GOOD = 0 \<and> (\<forall>n. n \<noteq> GOOD \<longrightarrow> 2 ^ 31 \<le> unat (sdk_code K n))"

definition states_documented :: "'w sdk \<Rightarrow> bool" where
  "states_documented K \<longleftrightarrow>
     sdk_chan K CHANNEL_CLOSED \<noteq> sdk_chan K CHANNEL_OPEN \<and>
     sdk_sess K SESSION_CLOSED \<noteq> sdk_sess K SESSION_ACTIVATED \<and>
     (\<forall>c. unat (sdk_chan K c) < 256) \<and> (\<forall>c. unat (sdk_sess K c) < 256)"

fun cell_type :: "ua_cell \<Rightarrow> ua_type" where
  "cell_type (C_bool _) = UA_BOOLEAN"
| "cell_type (C_int8 _) = UA_SBYTE"
| "cell_type (C_uint8 _) = UA_BYTE"
| "cell_type (C_int16 _) = UA_INT16"
| "cell_type (C_uint16 _) = UA_UINT16"
| "cell_type (C_int32 _) = UA_INT32"
| "cell_type (C_uint32 _) = UA_UINT32"
| "cell_type (C_int64 _) = UA_INT64"
| "cell_type (C_uint64 _) = UA_UINT64"
| "cell_type (C_float _) = UA_FLOAT"
| "cell_type (C_double _) = UA_DOUBLE"
| "cell_type (C_string _) = UA_STRING"
| "cell_type (C_other n) = UA_OTHER n"

fun string_cell_ok :: "ua_cell \<Rightarrow> bool" where
  "string_cell_ok (C_string s) =
     (case us_data s of None \<Rightarrow> True | Some bs \<Rightarrow> us_length s = length bs)"
| "string_cell_ok _ = True"

text \<open>A variant as the SDK builds it: tag and memory agree.\<close>

definition variant_wf :: "ua_variant \<Rightarrow> bool" where
  "variant_wf v \<longleftrightarrow> (case v_data v of
       D_Cell c \<Rightarrow> v_arrayLength v = 0 \<longrightarrow> v_type v = Some (cell_type c) \<and> string_cell_ok c
     | _ \<Rightarrow> True)"

definition is_cell :: "ua_data \<Rightarrow> bool" where
  "is_cell d = (case d of D_Cell _ \<Rightarrow> True | _ \<Rightarrow> False)"

definition scalar_documented :: "'w sdk \<Rightarrow> bool" where
  "scalar_documented K \<longleftrightarrow>
     (\<forall>v. sdk_isScalar K v \<longleftrightarrow> v_arrayLength v = 0 \<and> is_cell (v_data v))"

end
