(* ===== verification/Conversion.thy ===== *)
theory Conversion
  imports Ua_Sdk
begin

text \<open>
  \<open>src/OPCUAPacking/detail/TypeTraits.h\<close>, \<open>ConversionDispatcher.h\<close> and
  \<open>Impl::uaNodeIDAlloc\<close> of \<open>ua.cpp\<close>: reading a \<open>UA_Variant\<close> into a value, copying a
  value into a \<open>UA_WriteValue\<close>, and building the SDK form of a node id.  The
  template parameter \<open>T\<close> of the traits is the entry of \<open>UA_TYPES\<close> it is tied to.
\<close>

section \<open>Type traits\<close>

text \<open>The converter tables of both directions have the same thirteen keys.\<close>

fun S7TypeToUATraits :: "s7_type \<Rightarrow> ua_type option" where
  "S7TypeToUATraits S7_BOOL = Some UA_BOOLEAN"
| "S7TypeToUATraits S7_SINT = Some UA_SBYTE"
| "S7TypeToUATraits S7_BYTE = Some UA_BYTE"
| "S7TypeToUATraits S7_INT = Some UA_INT16"
| "S7TypeToUATraits S7_WORD = Some UA_UINT16"
| "S7TypeToUATraits S7_DINT = Some UA_INT32"
| "S7TypeToUATraits S7_UDINT = Some UA_UINT32"
| "S7TypeToUATraits S7_LINT = Some UA_INT64"
| "S7TypeToUATraits S7_ULINT = Some UA_UINT64"
| "S7TypeToUATraits S7_DWORD = Some UA_UINT32"
| "S7TypeToUATraits S7_REAL = Some UA_FLOAT"
| "S7TypeToUATraits S7_LREAL = Some UA_DOUBLE"
| "S7TypeToUATraits S7_STRING = Some UA_STRING"
| "S7TypeToUATraits _ = None"

definition containsEmbeddedNul :: "string \<Rightarrow> bool" where
  "containsEmbeddedNul s \<longleftrightarrow> CHR 0x00 \<in> set s"

text \<open>
  \<open>*static_cast<const T *>(var.data)\<close> on a memory cell: \<open>None\<close> where the cell does
  not hold a \<open>T\<close>.
\<close>

fun cell_value :: "ua_cell \<Rightarrow> value_type option" where
  "cell_value (C_bool x) = Some (V_bool x)"
| "cell_value (C_int8 x) = Some (V_int8 x)"
| "cell_value (C_uint8 x) = Some (V_uint8 x)"
| "cell_value (C_int16 x) = Some (V_int16 x)"
| "cell_value (C_uint16 x) = Some (V_uint16 x)"
| "cell_value (C_int32 x) = Some (V_int32 x)"
| "cell_value (C_uint32 x) = Some (V_uint32 x)"
| "cell_value (C_int64 x) = Some (V_int64 x)"
| "cell_value (C_uint64 x) = Some (V_uint64 x)"
| "cell_value (C_float x) = Some (V_float x)"
| "cell_value (C_double x) = Some (V_double x)"
| "cell_value (C_string _) = None"
| "cell_value (C_other _) = None"

definition cell_as :: "ua_type \<Rightarrow> ua_cell \<Rightarrow> value_type option" where
  "cell_as ty c = (if cell_type c = ty then cell_value c else None)"

definition deref_as :: "ua_type \<Rightarrow> ua_data \<Rightarrow> value_type outcome" where
  "deref_as ty d = (case d of
       D_Cell c \<Rightarrow> (case cell_as ty c of Some v \<Rightarrow> Ret v | None \<Rightarrow> Fault)
     | _ \<Rightarrow> Fault)"

section \<open>Reading a variant\<close>

definition read_convert_scalar ::
  "'w sdk \<Rightarrow> ua_type \<Rightarrow> ua_variant \<Rightarrow> (value_type, rich_error) result outcome" where
  "read_convert_scalar K ty var =
     (if v_type var \<noteq> Some ty \<or> \<not> sdk_isScalar K var then
        Ret (Error (RichError EC_TYPE_MISMATCH ''type mismatch''))
      else case deref_as ty (v_data var) of
          Ret v \<Rightarrow> Ret (Success v)
        | _ \<Rightarrow> Fault)"

text \<open>\<open>std::string(data, length)\<close> reads \<open>length\<close> bytes from \<open>data\<close>.\<close>

definition string_bytes :: "string \<Rightarrow> nat \<Rightarrow> string outcome" where
  "string_bytes bs n = (if n \<le> length bs then Ret (take n bs) else Fault)"

definition read_convert_string ::
  "'w sdk \<Rightarrow> ua_variant \<Rightarrow> (value_type, rich_error) result outcome" where
  "read_convert_string K var =
     (if v_type var \<noteq> Some UA_STRING \<or> \<not> sdk_isScalar K var then
        Ret (Error (RichError EC_TYPE_MISMATCH ''type mismatch''))
      else case v_data var of
          D_Cell (C_string src) \<Rightarrow>
            (case us_data src of
               None \<Rightarrow> Ret (Error (RichError EC_TYPE_MISMATCH ''src->data is nullptr''))
             | Some bs \<Rightarrow> (case string_bytes bs (us_length src) of
                   Ret s \<Rightarrow> Ret (Success (V_string s))
                 | _ \<Rightarrow> Fault))
        | _ \<Rightarrow> Fault)"

definition read_convert ::
  "'w sdk \<Rightarrow> ua_type \<Rightarrow> ua_variant \<Rightarrow> (value_type, rich_error) result outcome" where
  "read_convert K ty var =
     (if ty = UA_STRING then read_convert_string K var else read_convert_scalar K ty var)"

text \<open>\<open>setNormalScalar\<close>: the result and the new contents of the output argument.\<close>

definition setNormalScalar ::
  "'w sdk \<Rightarrow> ua_type \<Rightarrow> ua_variant \<Rightarrow> ((unit, rich_error) result \<times> value_type option) outcome" where
  "setNormalScalar K ty var = (case read_convert K ty var of
       Ret (Error e) \<Rightarrow> Ret (Error e, None)
     | Ret (Success v) \<Rightarrow> Ret (Success (), Some v)
     | _ \<Rightarrow> Fault)"

definition read_dispatch ::
  "'w sdk \<Rightarrow> s7_type \<Rightarrow> ua_variant \<Rightarrow> value_type option
     \<Rightarrow> ((unit, rich_error) result \<times> value_type option) outcome" where
  "read_dispatch K t var old = (case S7TypeToUATraits t of
       Some ty \<Rightarrow> setNormalScalar K ty var
     | None \<Rightarrow> Ret (Error (RichError EC_TYPE_NOTSUPPORT ''Unsupported S7DataType''), old))"

section \<open>Writing a value\<close>

text \<open>\<open>std::get_if<T>\<close> followed by the copy into a local \<open>T\<close>.\<close>

fun value_cell :: "value_type \<Rightarrow> ua_cell option" where
  "value_cell (V_bool x) = Some (C_bool x)"
| "value_cell (V_int8 x) = Some (C_int8 x)"
| "value_cell (V_uint8 x) = Some (C_uint8 x)"
| "value_cell (V_int16 x) = Some (C_int16 x)"
| "value_cell (V_uint16 x) = Some (C_uint16 x)"
| "value_cell (V_int32 x) = Some (C_int32 x)"
| "value_cell (V_uint32 x) = Some (C_uint32 x)"
| "value_cell (V_int64 x) = Some (C_int64 x)"
| "value_cell (V_uint64 x) = Some (C_uint64 x)"
| "value_cell (V_float x) = Some (C_float x)"
| "value_cell (V_double x) = Some (C_double x)"
| "value_cell (V_string _) = None"

definition cell_of :: "ua_type \<Rightarrow> value_type \<Rightarrow> ua_cell option" where
  "cell_of ty v = (case value_cell v of
       Some c \<Rightarrow> if cell_type c = ty then Some c else None
     | None \<Rightarrow> None)"

definition mismatch_error :: rich_error where
  "mismatch_error = RichError EC_TYPE_MISMATCH
     ''writeTraits: declared S7DataType does not match the ValueType alternative''"

text \<open>The common tail of both traits: the copy into the variant and the checks after it.\<close>

definition copy_into ::
  "'w sdk \<Rightarrow> ua_cell \<Rightarrow> ua_type \<Rightarrow> write_value \<Rightarrow> ('w, (unit, rich_error) result \<times> write_value) cpp" where
  "copy_into K c ty dst = (\<lambda>w. case sdk_set_scalar_copy K c ty w of ((status, var), w') \<Rightarrow>
     (let dst1 = dst\<lparr>wv_value := var\<rparr> in
      if status \<noteq> sdk_code K GOOD then
        (Ret (Error (RichError_ctx ''OPCUADataCovert : batchSet_UA_Scalar_StatusCode fail''), dst1), w')
      else
        let dst2 = dst1\<lparr>wv_hasValue := True\<rparr> in
        if \<not> wv_hasValue dst2 then (Ret (Error (RichError_ctx ''hasValue false''), dst2), w')
        else if v_type (wv_value dst2) = None then
          (Ret (Error (RichError_ctx ''value.type null''), dst2), w')
        else if v_data (wv_value dst2) = D_Null then
          (Ret (Error (RichError_ctx ''value.data null''), dst2), w')
        else (Ret (Success (), dst2), w')))"

definition write_convert_scalar ::
  "'w sdk \<Rightarrow> ua_type \<Rightarrow> write_value \<Rightarrow> value_type
     \<Rightarrow> ('w, (unit, rich_error) result \<times> write_value) cpp" where
  "write_convert_scalar K ty dst v = (case cell_of ty v of
       None \<Rightarrow> ret (Error mismatch_error, dst)
     | Some c \<Rightarrow> copy_into K c ty dst)"

definition write_convert_string ::
  "'w sdk \<Rightarrow> write_value \<Rightarrow> value_type \<Rightarrow> ('w, (unit, rich_error) result \<times> write_value) cpp" where
  "write_convert_string K dst v = (case v of
       V_string s \<Rightarrow>
         (if containsEmbeddedNul s then
            ret (Error (RichError EC_INVALID_ARGUMENT
                   ''writeTraits: STRING value contains embedded NULL''), dst)
          else copy_into K (C_string (sdk_UA_STRING K s)) UA_STRING dst)
     | _ \<Rightarrow> ret (Error mismatch_error, dst))"

definition write_convert ::
  "'w sdk \<Rightarrow> ua_type \<Rightarrow> write_value \<Rightarrow> value_type
     \<Rightarrow> ('w, (unit, rich_error) result \<times> write_value) cpp" where
  "write_convert K ty dst v =
     (if ty = UA_STRING then write_convert_string K dst v else write_convert_scalar K ty dst v)"

text \<open>
  \<open>setUaNormalScalar\<close> repackages the result of the trait; its namespace and node-id
  arguments reach the trait unused and are left out.
\<close>

definition write_dispatch ::
  "'w sdk \<Rightarrow> s7_type \<Rightarrow> write_value \<Rightarrow> value_type
     \<Rightarrow> ('w, (unit, rich_error) result \<times> write_value) cpp" where
  "write_dispatch K t dst v = (case S7TypeToUATraits t of
       Some ty \<Rightarrow> write_convert K ty dst v
     | None \<Rightarrow> ret (Error (RichError EC_TYPE_NOTSUPPORT ''Unsupported S7DataType''), dst))"

section \<open>Node ids\<close>

datatype node_key = K_string string | K_numeric u32

record node_id =
  nd_ns :: u16
  nd_id :: node_key
  nd_dataType :: s7_type

definition uaNodeIDAlloc ::
  "'w sdk \<Rightarrow> node_id \<Rightarrow> ua_nodeid \<Rightarrow> ('w, (unit, rich_error) result \<times> ua_nodeid) cpp" where
  "uaNodeIDAlloc K nid out = (case nd_id nid of
       K_string strID \<Rightarrow>
         (if strID = [] then
            ret (Error (RichError EC_INVALID_ARGUMENT
                   (''NodeId: id is empty for ns='' @ nat_to_string (unat (nd_ns nid)))), out)
          else if containsEmbeddedNul strID then
            ret (Error (RichError EC_INVALID_ARGUMENT ''NodeId: contains embedded NULL''), out)
          else (\<lambda>w. case sdk_nodeid_string_alloc K (nd_ns nid) strID w of (nodeId, w') \<Rightarrow>
            if ni_type nodeId \<noteq> IDT_STRING \<or> us_data (ni_string nodeId) = None then
              (Ret (Error (RichError EC_INTERNAL_ERROR
                 (''NodeId: UA_NODEID_STRING_ALLOC failed for ns='' @
                  nat_to_string (unat (nd_ns nid)))), nodeId), w')
            else if us_length (ni_string nodeId) = 0 then
              (Ret (Error (RichError EC_INVALID_ARGUMENT ''NodeId: string length is 0''), nodeId), w')
            else (Ret (Success (), nodeId), w')))
     | K_numeric numeric \<Rightarrow>
         ret (Success (), sdk_nodeid_numeric K (nd_ns nid) numeric))"

section \<open>Documented behaviour of the copy and string helpers\<close>

text \<open>
  A successful \<open>UA_Variant_setScalarCopy\<close> leaves a scalar of the given type that
  holds a copy; \<open>UA_STRING\<close> and \<open>UA_NODEID_STRING_ALLOC\<close> take the characters up to
  the first NUL (\<open>strlen\<close>).
\<close>

definition copy_documented :: "'w sdk \<Rightarrow> bool" where
  "copy_documented K \<longleftrightarrow> (\<forall>c ty w st var w'.
     sdk_set_scalar_copy K c ty w = ((st, var), w') \<longrightarrow> st = sdk_code K GOOD \<longrightarrow>
     var = \<lparr>v_type = Some ty, v_arrayLength = 0, v_data = D_Cell c\<rparr>)"

definition c_str :: "string \<Rightarrow> string" where
  "c_str s = takeWhile (\<lambda>ch. ch \<noteq> CHR 0x00) s"

definition strings_documented :: "'w sdk \<Rightarrow> bool" where
  "strings_documented K \<longleftrightarrow>
     (\<forall>s. sdk_UA_STRING K s = \<lparr>us_length = length (c_str s), us_data = Some (c_str s)\<rparr>) \<and>
     (\<forall>ns s w. us_data (ni_string (fst (sdk_nodeid_string_alloc K ns s w))) \<noteq> None \<longrightarrow>
        ni_string (fst (sdk_nodeid_string_alloc K ns s w)) =
          \<lparr>us_length = length (c_str s), us_data = Some (c_str s)\<rparr> \<and>
        ni_ns (fst (sdk_nodeid_string_alloc K ns s w)) = ns)"

lemma c_str_id: "\<not> containsEmbeddedNul s \<Longrightarrow> c_str s = s"
  by (auto simp: c_str_def containsEmbeddedNul_def takeWhile_eq_all_conv)

lemma c_str_truncates: "containsEmbeddedNul s \<Longrightarrow> length (c_str s) < length s"
proof -
  assume "containsEmbeddedNul s"
  then have "c_str s \<noteq> s"
    by (auto simp: c_str_def containsEmbeddedNul_def takeWhile_eq_all_conv)
  then show ?thesis
    by (metis c_str_def length_takeWhile_le nat_less_le takeWhile_eq_take take_all_iff order_refl)
qed

section \<open>Facts about the conversions\<close>

lemma cell_as_type: "cell_as ty c = Some v \<Longrightarrow> cell_type c = ty"
  by (simp add: cell_as_def split: if_splits)

lemma value_cell_value: "value_cell v = Some c \<Longrightarrow> cell_value c = Some v"
  by (cases v) auto

lemma cell_as_cell_of: "cell_of ty v = Some c \<Longrightarrow> cell_as ty c = Some v"
  by (auto simp: cell_of_def cell_as_def value_cell_value split: option.splits if_splits)

lemma value_cell_not_string: "value_cell v = Some c \<Longrightarrow> cell_type c \<noteq> UA_STRING"
  by (cases v) auto

lemma cell_of_not_string: "cell_of ty v = Some c \<Longrightarrow> ty \<noteq> UA_STRING"
  by (auto simp: cell_of_def dest: value_cell_not_string split: option.splits if_splits)

lemma traits_not_other: "S7TypeToUATraits t \<noteq> Some (UA_OTHER n)"
  by (cases t) simp_all

lemma cell_type_readable:
  "cell_type c \<noteq> UA_STRING \<Longrightarrow> (\<And>n. cell_type c \<noteq> UA_OTHER n) \<Longrightarrow> \<exists>v. cell_as (cell_type c) c = Some v"
  by (cases c) (auto simp: cell_as_def)

lemma copy_into_world [simp]: "fst (copy_into K c ty dst w) \<noteq> Fault"
  by (auto simp: copy_into_def Let_def split: prod.splits)

lemma copy_into_success:
  assumes doc: "copy_documented K"
    and run: "copy_into K c ty dst w = (Ret (Success (), dst'), w')"
  shows "wv_value dst' = \<lparr>v_type = Some ty, v_arrayLength = 0, v_data = D_Cell c\<rparr>
    \<and> wv_hasValue dst' \<and> wv_nodeId dst' = wv_nodeId dst \<and> wv_attributeId dst' = wv_attributeId dst"
proof -
  obtain st var w1 where call: "sdk_set_scalar_copy K c ty w = ((st, var), w1)"
    by (metis prod.exhaust)
  with run have st: "st = sdk_code K GOOD" and dst': "dst' = dst\<lparr>wv_value := var, wv_hasValue := True\<rparr>"
    by (auto simp: copy_into_def Let_def split: if_splits)
  have "var = \<lparr>v_type = Some ty, v_arrayLength = 0, v_data = D_Cell c\<rparr>"
    using doc call st unfolding copy_documented_def by blast
  with dst' show ?thesis by simp
qed

lemma write_dispatch_success:
  assumes "write_dispatch K t dst v w = (Ret (Success (), dst'), w')"
  obtains ty c where "S7TypeToUATraits t = Some ty"
    and "copy_into K c ty dst w = (Ret (Success (), dst'), w')"
    and "(ty \<noteq> UA_STRING \<and> cell_of ty v = Some c)
      \<or> (\<exists>s. ty = UA_STRING \<and> v = V_string s \<and> \<not> containsEmbeddedNul s \<and> c = C_string (sdk_UA_STRING K s))"
  using assms
  by (auto simp: write_dispatch_def write_convert_def write_convert_string_def
      write_convert_scalar_def split: option.splits if_splits value_type.splits)

text \<open>
  What a read of a well-formed variant yields, written as one table over the
  requested type and the variant.
\<close>

definition read_spec ::
  "'w sdk \<Rightarrow> s7_type \<Rightarrow> ua_variant \<Rightarrow> value_type option
     \<Rightarrow> (unit, rich_error) result \<times> value_type option" where
  "read_spec K t var old = (case S7TypeToUATraits t of
       None \<Rightarrow> (Error (RichError EC_TYPE_NOTSUPPORT ''Unsupported S7DataType''), old)
     | Some ty \<Rightarrow>
         (case v_data var of
            D_Cell c \<Rightarrow>
              (if v_type var \<noteq> Some ty \<or> v_arrayLength var \<noteq> 0 then
                 (Error (RichError EC_TYPE_MISMATCH ''type mismatch''), None)
               else (case c of
                   C_string src \<Rightarrow> (case us_data src of
                       None \<Rightarrow> (Error (RichError EC_TYPE_MISMATCH ''src->data is nullptr''), None)
                     | Some bs \<Rightarrow> (Success (), Some (V_string bs)))
                 | _ \<Rightarrow> (Success (), cell_value c)))
          | _ \<Rightarrow> (Error (RichError EC_TYPE_MISMATCH ''type mismatch''), None)))"

lemma read_dispatch_spec:
  assumes "scalar_documented K" and "variant_wf var"
  shows "read_dispatch K t var old = Ret (read_spec K t var old)"
proof (cases "S7TypeToUATraits t")
  case None
  then show ?thesis by (simp add: read_dispatch_def read_spec_def)
next
  case (Some ty)
  have scalar: "sdk_isScalar K var \<longleftrightarrow> v_arrayLength var = 0 \<and> is_cell (v_data var)"
    using assms(1) by (simp add: scalar_documented_def)
  have other: "ty \<noteq> UA_OTHER n" for n
    using Some traits_not_other by metis
  show ?thesis
  proof (cases "v_data var")
    case (D_Cell c)
    show ?thesis
      using Some D_Cell assms(2) scalar other
      by (cases c) (auto simp: read_dispatch_def read_spec_def setNormalScalar_def read_convert_def
          read_convert_scalar_def read_convert_string_def deref_as_def cell_as_def is_cell_def
          variant_wf_def string_bytes_def split: option.splits)
  qed (use Some scalar in \<open>auto simp: read_dispatch_def read_spec_def setNormalScalar_def
      read_convert_def read_convert_scalar_def read_convert_string_def is_cell_def\<close>)
qed

text \<open>
  C25: reading an SDK variant never dereferences a null pointer, the empty-array
  sentinel or memory of another type, and returns exactly what \<open>read_spec\<close> lists:
  unsupported tags leave the output alone with TYPE_NOTSUPPORT, a tag or shape
  mismatch or a null string clears it with TYPE_MISMATCH, everything else yields
  the stored value.
\<close>

theorem read_dispatch_correct:
  assumes "scalar_documented K" and "variant_wf var"
  shows "read_dispatch K t var old = Ret (read_spec K t var old)"
  using assms by (rule read_dispatch_spec)

lemma write_reads_back:
  assumes "copy_documented K" and "scalar_documented K" and "strings_documented K"
    and "write_dispatch K t dst v w = (Ret (Success (), dst'), w')"
  shows "wv_hasValue dst' \<and> read_dispatch K t (wv_value dst') old = Ret (Success (), Some v)"
proof -
  from assms(4) obtain ty c where ty: "S7TypeToUATraits t = Some ty"
    and copy: "copy_into K c ty dst w = (Ret (Success (), dst'), w')"
    and c: "(ty \<noteq> UA_STRING \<and> cell_of ty v = Some c)
      \<or> (\<exists>s. ty = UA_STRING \<and> v = V_string s \<and> \<not> containsEmbeddedNul s \<and> c = C_string (sdk_UA_STRING K s))"
    by (rule write_dispatch_success)
  have dst': "wv_value dst' = \<lparr>v_type = Some ty, v_arrayLength = 0, v_data = D_Cell c\<rparr>" "wv_hasValue dst'"
    using copy_into_success [OF assms(1) copy] by simp_all
  have scalar: "sdk_isScalar K (wv_value dst')"
    using assms(2) by (simp add: scalar_documented_def dst' is_cell_def)
  have str: "sdk_UA_STRING K s = \<lparr>us_length = length (c_str s), us_data = Some (c_str s)\<rparr>" for s
    using assms(3) by (simp add: strings_documented_def)
  from c show ?thesis
  proof
    assume c: "ty \<noteq> UA_STRING \<and> cell_of ty v = Some c"
    then have "cell_as ty c = Some v" by (simp add: cell_as_cell_of)
    with c show ?thesis
      using ty dst' scalar
      by (simp add: read_dispatch_def setNormalScalar_def read_convert_def read_convert_scalar_def deref_as_def)
  next
    assume "\<exists>s. ty = UA_STRING \<and> v = V_string s \<and> \<not> containsEmbeddedNul s \<and> c = C_string (sdk_UA_STRING K s)"
    then show ?thesis
      using ty dst' scalar
      by (auto simp: read_dispatch_def setNormalScalar_def read_convert_def read_convert_string_def
          string_bytes_def str c_str_id)
  qed
qed

text \<open>
  C19: a value that was accepted for writing is stored so that reading the
  resulting variant back under the same S7 type gives exactly that value, with the
  \<open>hasValue\<close> flag set, for all thirteen types, strings and wide integers included.
\<close>

theorem write_read_roundtrip:
  assumes "copy_documented K" and "scalar_documented K" and "strings_documented K"
    and "write_dispatch K t dst v w = (Ret (Success (), dst'), w')"
  shows "wv_hasValue dst' \<and> read_dispatch K t (wv_value dst') old = Ret (Success (), Some v)"
  using assms by (rule write_reads_back)

definition write_reject_code :: "s7_type \<Rightarrow> value_type \<Rightarrow> error_code option" where
  "write_reject_code t v = (case S7TypeToUATraits t of
       None \<Rightarrow> Some EC_TYPE_NOTSUPPORT
     | Some ty \<Rightarrow> (case v of
           V_string s \<Rightarrow>
             (if ty \<noteq> UA_STRING then Some EC_TYPE_MISMATCH
              else if containsEmbeddedNul s then Some EC_INVALID_ARGUMENT else None)
         | _ \<Rightarrow> (if map_option cell_type (value_cell v) = Some ty then None else Some EC_TYPE_MISMATCH)))"

lemma cell_of_None: "cell_of ty v = None \<longleftrightarrow> map_option cell_type (value_cell v) \<noteq> Some ty"
  by (auto simp: cell_of_def split: option.splits)

lemma write_convert_scalar_reject:
  "cell_of ty v = None \<Longrightarrow> write_convert_scalar K ty dst v w = (Ret (Error mismatch_error, dst), w)"
  by (simp add: write_convert_scalar_def)

lemma write_convert_string_reject:
  "(\<forall>s. v \<noteq> V_string s) \<Longrightarrow> write_convert_string K dst v w = (Ret (Error mismatch_error, dst), w)"
  by (cases v) (simp_all add: write_convert_string_def)

lemma write_convert_string_nul:
  "containsEmbeddedNul s \<Longrightarrow> write_convert_string K dst (V_string s) w =
     (Ret (Error (RichError EC_INVALID_ARGUMENT
        ''writeTraits: STRING value contains embedded NULL''), dst), w)"
  by (simp add: write_convert_string_def)

lemma value_cell_None: "value_cell v = None \<longleftrightarrow> (\<exists>s. v = V_string s)"
  by (cases v) simp_all

lemma write_reject_code_alt:
  "write_reject_code t v = (case S7TypeToUATraits t of
       None \<Rightarrow> Some EC_TYPE_NOTSUPPORT
     | Some ty \<Rightarrow> (case value_cell v of
           Some c \<Rightarrow> (if cell_type c = ty then None else Some EC_TYPE_MISMATCH)
         | None \<Rightarrow> (if ty \<noteq> UA_STRING then Some EC_TYPE_MISMATCH
              else if \<exists>s. v = V_string s \<and> containsEmbeddedNul s then Some EC_INVALID_ARGUMENT else None)))"
  by (cases v) (auto simp: write_reject_code_def split: option.splits)

lemma write_dispatch_rejected:
  assumes "write_reject_code t v = Some code"
  shows "\<exists>msg. write_dispatch K t dst v w = (Ret (Error (RichError code msg), dst), w)"
proof (cases "S7TypeToUATraits t")
  case None
  with assms show ?thesis by (auto simp: write_reject_code_def write_dispatch_def)
next
  case (Some ty)
  show ?thesis
  proof (cases "ty = UA_STRING")
    case True
    with Some assms show ?thesis
      by (cases "value_cell v"; cases "\<exists>s. v = V_string s")
        (auto simp: write_reject_code_alt write_dispatch_def write_convert_def write_convert_string_reject
          write_convert_string_nul mismatch_error_def value_cell_None split: if_splits
          dest: value_cell_not_string)
  next
    case False
    with Some assms have "cell_of ty v = None" "code = EC_TYPE_MISMATCH"
      by (auto simp: write_reject_code_alt cell_of_def split: option.splits if_splits)
    with Some False show ?thesis
      by (simp add: write_dispatch_def write_convert_def write_convert_scalar_reject mismatch_error_def)
  qed
qed

text \<open>
  C26: a value whose alternative does not fit the declared S7 type, an
  unsupported type and a string with an embedded NUL are rejected with the error
  code of \<open>write_reject_code\<close> before any SDK copy: neither the request item nor
  the world changes.
\<close>

theorem write_dispatch_rejects:
  assumes "write_reject_code t v = Some code"
  shows "\<exists>msg. write_dispatch K t dst v w = (Ret (Error (RichError code msg), dst), w)"
  using assms by (rule write_dispatch_rejected)

text \<open>
  Every other value reaches the SDK copy.
\<close>

theorem write_dispatch_accepts:
  assumes "write_reject_code t v = None"
  shows "\<exists>c ty. S7TypeToUATraits t = Some ty \<and> write_dispatch K t dst v w = copy_into K c ty dst w"
proof -
  from assms obtain ty where ty: "S7TypeToUATraits t = Some ty"
    by (auto simp: write_reject_code_def split: option.splits)
  show ?thesis
  proof (cases "value_cell v")
    case None
    with assms ty obtain s where "v = V_string s" "ty = UA_STRING" "\<not> containsEmbeddedNul s"
      by (auto simp: write_reject_code_alt value_cell_None split: if_splits)
    with ty show ?thesis
      by (auto simp: write_dispatch_def write_convert_def write_convert_string_def)
  next
    case (Some c)
    with assms ty have "cell_type c = ty" by (auto simp: write_reject_code_alt split: if_splits)
    with Some ty value_cell_not_string [OF Some] show ?thesis
      by (auto simp: write_dispatch_def write_convert_def write_convert_scalar_def cell_of_def)
  qed
qed

text \<open>
  C27: a string node id that is accepted is non-empty and reaches the SDK
  byte for byte with its namespace; it is never cut at an embedded NUL although the
  SDK constructor stops at one.
\<close>

theorem uaNodeIDAlloc_exact:
  assumes "strings_documented K" and "uaNodeIDAlloc K nid out w = (Ret (Success (), n), w')"
    and "nd_id nid = K_string s"
  shows "s \<noteq> [] \<and> ni_ns n = nd_ns nid \<and> ni_type n = IDT_STRING \<and>
    ni_string n = \<lparr>us_length = length s, us_data = Some s\<rparr>"
proof -
  obtain n1 w1 where a: "sdk_nodeid_string_alloc K (nd_ns nid) s w = (n1, w1)"
    by (metis prod.exhaust)
  with assms(2,3) have s: "s \<noteq> []" "\<not> containsEmbeddedNul s" and n: "n = n1" "ni_type n = IDT_STRING"
    "us_data (ni_string n) \<noteq> None"
    by (auto simp: uaNodeIDAlloc_def split: if_splits)
  moreover have "us_data (ni_string (fst (sdk_nodeid_string_alloc K (nd_ns nid) s w))) \<noteq> None"
    using a n by simp
  ultimately have "ni_string n = \<lparr>us_length = length (c_str s), us_data = Some (c_str s)\<rparr> \<and> ni_ns n = nd_ns nid"
    using assms(1) a unfolding strings_documented_def by (metis fst_conv)
  with s n show ?thesis by (simp add: c_str_id)
qed

lemma uaNodeIDAlloc_cases:
  "nd_id nid = K_numeric i \<Longrightarrow>
     uaNodeIDAlloc K nid out w = (Ret (Success (), sdk_nodeid_numeric K (nd_ns nid) i), w)"
  "nd_id nid = K_string s \<Longrightarrow> s = [] \<or> containsEmbeddedNul s \<Longrightarrow>
     \<exists>msg. uaNodeIDAlloc K nid out w = (Ret (Error (RichError EC_INVALID_ARGUMENT msg), out), w)"
  by (auto simp: uaNodeIDAlloc_def)

section \<open>The contract of the SDK's heap\<close>

text \<open>
  Building a request only allocates and copies.  A relation on worlds that the three calls
  involved keep is kept by everything composed from them.
\<close>

locale heap_contract = guarantee V
  for V :: "'w \<Rightarrow> 'w \<Rightarrow> bool" +
  fixes K :: "'w sdk"
  assumes v_array: "V w (snd (sdk_array_new K n w))"
    and v_alloc: "V w (snd (sdk_nodeid_string_alloc K ns str w))"
    and v_copy: "V w (snd (sdk_set_scalar_copy K c ty w))"
begin

lemma h_result:
  "(\<And>v. guar V (f v)) \<Longrightarrow> (\<And>e. guar V (g e)) \<Longrightarrow> guar V (case r of Success v \<Rightarrow> f v | Error e \<Rightarrow> g e)"
  by (cases r) simp_all

lemma h_pair: "(\<And>a b. guar V (f a b)) \<Longrightarrow> guar V (case p of (a, b) \<Rightarrow> f a b)"
  by (cases p) simp

lemma h_array: "guar V (\<lambda>w. case sdk_array_new K n w of (ok, w') \<Rightarrow> (Ret ok, w'))"
  using v_array by (intro guarI) (simp add: case_prod_unfold)

lemma h_nodeid: "guar V (uaNodeIDAlloc K nid out)"
proof (rule guarI)
  fix w
  show "V w (snd (uaNodeIDAlloc K nid out w))"
    using v_alloc [of w "nd_ns nid"]
    by (simp add: uaNodeIDAlloc_def R_refl case_prod_unfold split: node_key.split)
qed

lemma h_copy: "guar V (copy_into K c ty dst)"
  using v_copy [of _ c ty]
  by (intro guarI) (simp add: copy_into_def Let_def case_prod_unfold)

lemma h_dispatch: "guar V (write_dispatch K t dst v)"
  unfolding write_dispatch_def write_convert_def write_convert_scalar_def write_convert_string_def
  by (auto intro!: g_intros h_copy split: option.split value_type.split)

end

end
