(* ===== verification/Client_Config.thy ===== *)
theory Client_Config
  imports Error_Deal
begin

text \<open>
  \<open>include/OPCUAPacking/Types.h\<close>: the client configuration with its profiles, its
  validation and its repair, and the life states.  The \<open>uint32_t\<close> members are
  \<open>32 word\<close>, so sums and products wrap where the source's do; \<open>giveUpThresholdMs\<close>
  (\<open>int64_t\<close>) is an integer, only compared and never added to.
\<close>

section \<open>Life states\<close>

datatype life_state = RUNNING | RECOVERING | GIVEN_UP

text \<open>The states ordered by escalation.\<close>

fun life_rank :: "life_state \<Rightarrow> nat" where
  "life_rank RUNNING = 0"
| "life_rank RECOVERING = 1"
| "life_rank GIVEN_UP = 2"

instantiation life_state :: linorder
begin

definition less_eq_life_state :: "life_state \<Rightarrow> life_state \<Rightarrow> bool" where
  "less_eq_life_state a b \<longleftrightarrow> life_rank a \<le> life_rank b"

definition less_life_state :: "life_state \<Rightarrow> life_state \<Rightarrow> bool" where
  "less_life_state a b \<longleftrightarrow> life_rank a < life_rank b"

instance
proof
  fix a b :: life_state
  show "a \<le> b \<Longrightarrow> b \<le> a \<Longrightarrow> a = b"
    by (cases a; cases b) (simp_all add: less_eq_life_state_def)
qed (auto simp: less_eq_life_state_def less_life_state_def)

end

lemma given_up_top [simp]: "l \<le> GIVEN_UP"
  by (cases l) (simp_all add: less_eq_life_state_def)

lemma given_up_le [simp]: "GIVEN_UP \<le> l \<longleftrightarrow> l = GIVEN_UP"
  by (cases l) (simp_all add: less_eq_life_state_def)

section \<open>The configuration record and its defaults\<close>

definition LOG_TRACE :: u32 where "LOG_TRACE = 100"
definition LOG_WARNING :: u32 where "LOG_WARNING = 400"
definition LOG_FATAL :: u32 where "LOG_FATAL = 600"

record client_config =
  timeoutMs :: u32
  sessionTimeoutMs :: u32
  secureChannelLifeTimeMs :: u32
  maxTotalWaitMs :: u32
  giveUpThresholdMs :: int
  maxRetries :: u32
  retryBackoffBaseMs :: u32
  retryMaxBackoffMs :: u32
  logLevel :: u32
  connectivityCheckIntervalMs :: u32
  watchdogIntervalMs :: u32

definition default_config :: client_config where
  "default_config = \<lparr>
     timeoutMs = 10000,
     sessionTimeoutMs = 600000,
     secureChannelLifeTimeMs = 600000,
     maxTotalWaitMs = 0,
     giveUpThresholdMs = 60000,
     maxRetries = 3,
     retryBackoffBaseMs = 1000,
     retryMaxBackoffMs = 8000,
     logLevel = LOG_WARNING,
     connectivityCheckIntervalMs = 10000,
     watchdogIntervalMs = 5000\<rparr>"

datatype network_profile = PROFILE_LOCAL | PROFILE_REMOTE | PROFILE_MOBILE | PROFILE_UNSTABLE

fun applyProfile :: "network_profile \<Rightarrow> client_config \<Rightarrow> client_config" where
  "applyProfile PROFILE_LOCAL c = c\<lparr>
     timeoutMs := 5000, sessionTimeoutMs := 600000, secureChannelLifeTimeMs := 600000,
     maxRetries := 2, retryBackoffBaseMs := 500, retryMaxBackoffMs := 4000,
     maxTotalWaitMs := 30000,
     connectivityCheckIntervalMs := 30000, watchdogIntervalMs := 10000,
     giveUpThresholdMs := 60000\<rparr>"
| "applyProfile PROFILE_REMOTE c = c\<lparr>
     timeoutMs := 15000, sessionTimeoutMs := 600000, secureChannelLifeTimeMs := 600000,
     maxRetries := 3, retryBackoffBaseMs := 1000, retryMaxBackoffMs := 10000,
     maxTotalWaitMs := 120000,
     connectivityCheckIntervalMs := 15000, watchdogIntervalMs := 8000,
     giveUpThresholdMs := 180000\<rparr>"
| "applyProfile PROFILE_MOBILE c = c\<lparr>
     timeoutMs := 30000, sessionTimeoutMs := 600000, secureChannelLifeTimeMs := 600000,
     maxRetries := 4, retryBackoffBaseMs := 2000, retryMaxBackoffMs := 20000,
     maxTotalWaitMs := 300000,
     connectivityCheckIntervalMs := 10000, watchdogIntervalMs := 5000,
     giveUpThresholdMs := 360000\<rparr>"
| "applyProfile PROFILE_UNSTABLE c = c\<lparr>
     timeoutMs := 20000, sessionTimeoutMs := 300000, secureChannelLifeTimeMs := 300000,
     maxRetries := 5, retryBackoffBaseMs := 1000, retryMaxBackoffMs := 15000,
     maxTotalWaitMs := 240000,
     connectivityCheckIntervalMs := 5000, watchdogIntervalMs := 3000,
     giveUpThresholdMs := 270000\<rparr>"

section \<open>Validation\<close>

definition err_if :: "bool \<Rightarrow> string \<Rightarrow> string list" where
  "err_if b msg = (if b then [msg] else [])"

definition UINT32_MAX :: nat where "UINT32_MAX = 2 ^ 32 - 1"

text \<open>\<open>2ULL * timeoutMs * (static_cast<uint64_t>(maxRetries) + 1)\<close> in 64 bits.\<close>

definition requiredBudget :: "client_config \<Rightarrow> u64" where
  "requiredBudget c = 2 * ucast (timeoutMs c) * (ucast (maxRetries c) + 1)"

definition check_basic :: "client_config \<Rightarrow> string list" where
  "check_basic c =
     err_if (timeoutMs c = 0) ''timeoutMs must be > 0''
   @ err_if (sessionTimeoutMs c = 0) ''sessionTimeoutMs must be > 0''
   @ err_if (secureChannelLifeTimeMs c < sessionTimeoutMs c)
       (''secureChannelLifeTimeMs ('' @ u32_str (secureChannelLifeTimeMs c) @
        '') must be >= sessionTimeoutMs ('' @ u32_str (sessionTimeoutMs c) @ '')'')
   @ err_if (10 < maxRetries c)
       (''maxRetries ('' @ u32_str (maxRetries c) @ '') must be <= 10'')
   @ err_if (watchdogIntervalMs c < 1000 \<or> 30000 < watchdogIntervalMs c)
       (''watchdogIntervalMs ('' @ u32_str (watchdogIntervalMs c) @ '') must be in [1000, 30000]'')
   @ err_if (sessionTimeoutMs c \<le> watchdogIntervalMs c \<and> 0 < sessionTimeoutMs c)
       (''watchdogIntervalMs ('' @ u32_str (watchdogIntervalMs c) @
        '') must be < sessionTimeoutMs ('' @ u32_str (sessionTimeoutMs c) @ '')'')
   @ err_if (retryBackoffBaseMs c = 0) ''retryBackoffBaseMs must be > 0''
   @ err_if (retryMaxBackoffMs c < retryBackoffBaseMs c)
       (''retryMaxBackoffMs ('' @ u32_str (retryMaxBackoffMs c) @
        '') must be >= retryBackoffBaseMs ('' @ u32_str (retryBackoffBaseMs c) @ '')'')
   @ err_if (connectivityCheckIntervalMs c < 1000)
       (''connectivityCheckIntervalMs ('' @ u32_str (connectivityCheckIntervalMs c) @
        '') must be >= 1000'')
   @ err_if (sessionTimeoutMs c \<le> connectivityCheckIntervalMs c \<and> 0 < sessionTimeoutMs c)
       (''connectivityCheckIntervalMs ('' @ u32_str (connectivityCheckIntervalMs c) @
        '') must be < sessionTimeoutMs ('' @ u32_str (sessionTimeoutMs c) @ '')'')
   @ err_if (sessionTimeoutMs c \<le> retryBackoffBaseMs c \<and> 0 < sessionTimeoutMs c)
       (''retryBackoffBaseMs ('' @ u32_str (retryBackoffBaseMs c) @
        '') must be < sessionTimeoutMs ('' @ u32_str (sessionTimeoutMs c) @ '')'')
   @ err_if (sessionTimeoutMs c \<le> timeoutMs c \<and> 0 < sessionTimeoutMs c)
       (''timeoutMs ('' @ u32_str (timeoutMs c) @
        '') must be < sessionTimeoutMs ('' @ u32_str (sessionTimeoutMs c) @ '')'')
   @ err_if (timeoutMs c \<le> retryMaxBackoffMs c \<and> 0 < timeoutMs c)
       (''retryMaxBackoffMs ('' @ u32_str (retryMaxBackoffMs c) @
        '') must be < timeoutMs ('' @ u32_str (timeoutMs c) @ '')'')
   @ err_if (logLevel c < LOG_TRACE \<or> LOG_FATAL < logLevel c)
       (''logLevel ('' @ u32_str (logLevel c) @ '') must be in [100, 600] (open62541 UA_LogLevel)'')"

definition check_give_up :: "client_config \<Rightarrow> string list" where
  "check_give_up c =
     err_if (giveUpThresholdMs c < uint (watchdogIntervalMs c) * 2)
       (''giveUpThresholdMs ('' @ int_to_string (giveUpThresholdMs c) @
        '') must be >= 2 * watchdogIntervalMs ('' @
        int_to_string (uint (watchdogIntervalMs c) * 2) @ '')'')
   @ err_if (giveUpThresholdMs c \<le> 0) ''giveUpThresholdMs must be > 0''
   @ err_if (0 < sessionTimeoutMs c \<and> uint (sessionTimeoutMs c) \<le> giveUpThresholdMs c)
       (''giveUpThresholdMs ('' @ int_to_string (giveUpThresholdMs c) @
        '') must be < sessionTimeoutMs ('' @ u32_str (sessionTimeoutMs c) @ '')'')"

definition check_total_wait :: "client_config \<Rightarrow> string list" where
  "check_total_wait c =
     (if 0 < maxTotalWaitMs c then
        err_if (maxTotalWaitMs c \<le> timeoutMs c)
          (''maxTotalWaitMs ('' @ u32_str (maxTotalWaitMs c) @
           '') must be > timeoutMs ('' @ u32_str (timeoutMs c) @ '')'')
      @ err_if (sessionTimeoutMs c \<le> maxTotalWaitMs c \<and> 0 < sessionTimeoutMs c)
          (''maxTotalWaitMs ('' @ u32_str (maxTotalWaitMs c) @
           '') must be < sessionTimeoutMs ('' @ u32_str (sessionTimeoutMs c) @ '')'')
      @ err_if (0 < maxRetries c \<and> maxTotalWaitMs c < timeoutMs c + retryMaxBackoffMs c)
          (''maxTotalWaitMs ('' @ u32_str (maxTotalWaitMs c) @
           '') must be >= timeoutMs + retryMaxBackoffMs ('' @
           u32_str (timeoutMs c + retryMaxBackoffMs c) @ '') when maxRetries > 0'')
      @ (if UINT32_MAX < unat (requiredBudget c) then
           [''maxTotalWaitMs cannot satisfy required budget (overflow)'']
         else err_if (maxTotalWaitMs c < ucast (requiredBudget c))
           (''maxTotalWaitMs ('' @ u32_str (maxTotalWaitMs c) @
            '') must be >= 2*timeoutMs*(maxRetries+1) = '' @
            nat_to_string (unat (requiredBudget c)) @ '' (timeoutMs='' @ u32_str (timeoutMs c) @
            '', maxRetries='' @ u32_str (maxRetries c) @ '')''))
      else [''maxTotalWaitMs must be > 0; call applyProfile() or applyDefaultIfInvalid()''])"

definition check_errors :: "client_config \<Rightarrow> string list" where
  "check_errors c = check_basic c @ check_give_up c @ check_total_wait c"

text \<open>The messages joined by a semicolon and a space.\<close>

fun combine :: "string list \<Rightarrow> string" where
  "combine [] = ''''"
| "combine [e] = e"
| "combine (e # es) = e @ ''; '' @ combine es"

definition check :: "client_config \<Rightarrow> string option" where
  "check c = (if check_errors c = [] then None else Some (combine (check_errors c)))"

definition applyDefaultIfInvalid ::
  "client_config \<Rightarrow> (bool, rich_error) result \<times> client_config" where
  "applyDefaultIfInvalid c =
     (if check c = None then (Success False, c)
      else let c' = applyProfile PROFILE_LOCAL c in
        if check c' \<noteq> None then
          (Error (RichError EC_INVALID_CONFIG
             ''ClientConfig: default config still invalid after applyProfile''), c')
        else (Success True, c'))"

section \<open>What an accepted configuration means\<close>

text \<open>The constraints of \<open>check\<close> over unbounded numbers, without wrap-around.\<close>

definition config_ok :: "client_config \<Rightarrow> bool" where
  "config_ok c \<longleftrightarrow>
     (let T = unat (timeoutMs c); S = unat (sessionTimeoutMs c); X = unat (maxTotalWaitMs c);
          R = unat (maxRetries c); B = unat (retryBackoffBaseMs c); M = unat (retryMaxBackoffMs c);
          W = unat (watchdogIntervalMs c); C = unat (connectivityCheckIntervalMs c);
          G = giveUpThresholdMs c in
      0 < T \<and> T < S \<and> S \<le> unat (secureChannelLifeTimeMs c) \<and>
      R \<le> 10 \<and> 1000 \<le> W \<and> W \<le> 30000 \<and> W < S \<and>
      0 < B \<and> B \<le> M \<and> M < T \<and> 1000 \<le> C \<and> C < S \<and>
      100 \<le> unat (logLevel c) \<and> unat (logLevel c) \<le> 600 \<and>
      2 * uint (watchdogIntervalMs c) \<le> G \<and> G < uint (sessionTimeoutMs c) \<and>
      T < X \<and> X < S \<and> (0 < R \<longrightarrow> T + M \<le> X) \<and> 2 * T * (R + 1) \<le> X)"

lemma err_if_Nil [simp]: "err_if b m = [] \<longleftrightarrow> \<not> b"
  by (simp add: err_if_def)

lemma unat_requiredBudget:
  assumes "unat (maxRetries c) \<le> 10"
  shows "unat (requiredBudget c) = 2 * unat (timeoutMs c) * (unat (maxRetries c) + 1)"
proof -
  have T: "unat (timeoutMs c) < 4294967296" by (rule unat_u32_less)
  have r: "unat (ucast (maxRetries c) + 1 :: u64) = unat (maxRetries c) + 1"
    using assms by (simp add: unat_word_ariths)
  have t: "unat (2 * ucast (timeoutMs c) :: u64) = 2 * unat (timeoutMs c)"
    using T by (simp add: unat_word_ariths)
  have "2 * unat (timeoutMs c) * (unat (maxRetries c) + 1) \<le> (2 * 4294967296) * 11"
    using T assms by (intro mult_le_mono) auto
  then show ?thesis
    unfolding requiredBudget_def by (subst unat_word_ariths) (simp add: r t)
qed

lemma sum_no_wrap:
  assumes "unat (retryMaxBackoffMs c) < unat (timeoutMs c)"
    and "2 * unat (timeoutMs c) * (unat (maxRetries c) + 1) \<le> UINT32_MAX"
  shows "unat (timeoutMs c + retryMaxBackoffMs c) = unat (timeoutMs c) + unat (retryMaxBackoffMs c)"
proof -
  have "2 * unat (timeoutMs c) \<le> 2 * unat (timeoutMs c) * (unat (maxRetries c) + 1)" by simp
  with assms show ?thesis by (simp add: unat_word_ariths UINT32_MAX_def)
qed

lemmas word_order = word_less_nat_alt word_le_nat_alt

lemma unat_zero_iff: "w = 0 \<longleftrightarrow> unat w = 0"
  by (simp add: unat_eq_0)

lemma check_basic_Nil:
  "check_basic c = [] \<longleftrightarrow>
     0 < unat (timeoutMs c) \<and> 0 < unat (sessionTimeoutMs c) \<and>
     unat (sessionTimeoutMs c) \<le> unat (secureChannelLifeTimeMs c) \<and> unat (maxRetries c) \<le> 10 \<and>
     1000 \<le> unat (watchdogIntervalMs c) \<and> unat (watchdogIntervalMs c) \<le> 30000 \<and>
     unat (watchdogIntervalMs c) < unat (sessionTimeoutMs c) \<and>
     0 < unat (retryBackoffBaseMs c) \<and>
     unat (retryBackoffBaseMs c) \<le> unat (retryMaxBackoffMs c) \<and>
     1000 \<le> unat (connectivityCheckIntervalMs c) \<and>
     unat (connectivityCheckIntervalMs c) < unat (sessionTimeoutMs c) \<and>
     unat (retryBackoffBaseMs c) < unat (sessionTimeoutMs c) \<and>
     unat (timeoutMs c) < unat (sessionTimeoutMs c) \<and>
     unat (retryMaxBackoffMs c) < unat (timeoutMs c) \<and>
     100 \<le> unat (logLevel c) \<and> unat (logLevel c) \<le> 600"
  unfolding check_basic_def append_is_Nil_conv err_if_Nil LOG_TRACE_def LOG_FATAL_def word_order
    unat_zero_iff
  by auto

lemma check_give_up_Nil:
  "check_give_up c = [] \<longleftrightarrow>
     2 * uint (watchdogIntervalMs c) \<le> giveUpThresholdMs c \<and> 0 < giveUpThresholdMs c \<and>
     (0 < unat (sessionTimeoutMs c) \<longrightarrow> giveUpThresholdMs c < uint (sessionTimeoutMs c))"
  unfolding check_give_up_def append_is_Nil_conv err_if_Nil word_order by auto

lemma unat_ucast_budget:
  "unat (requiredBudget c) \<le> UINT32_MAX \<Longrightarrow> unat (ucast (requiredBudget c) :: u32) = unat (requiredBudget c)"
  by (simp add: unsigned_ucast_eq UINT32_MAX_def take_bit_nat_eq_self)

lemma check_total_wait_Nil:
  assumes "unat (maxRetries c) \<le> 10" and "unat (retryMaxBackoffMs c) < unat (timeoutMs c)"
    and "0 < unat (sessionTimeoutMs c)"
  shows "check_total_wait c = [] \<longleftrightarrow>
     unat (timeoutMs c) < unat (maxTotalWaitMs c) \<and>
     unat (maxTotalWaitMs c) < unat (sessionTimeoutMs c) \<and>
     (0 < unat (maxRetries c) \<longrightarrow>
        unat (timeoutMs c) + unat (retryMaxBackoffMs c) \<le> unat (maxTotalWaitMs c)) \<and>
     2 * unat (timeoutMs c) * (unat (maxRetries c) + 1) \<le> unat (maxTotalWaitMs c)"
proof (cases "unat (requiredBudget c) \<le> UINT32_MAX")
  case True
  then show ?thesis
    using assms sum_no_wrap [of c] unat_ucast_budget [OF True]
    by (auto simp: check_total_wait_def word_order unat_requiredBudget [OF assms(1)])
next
  case False
  have "unat (maxTotalWaitMs c) \<le> UINT32_MAX"
    using unat_u32_less [of "maxTotalWaitMs c"] by (simp add: UINT32_MAX_def)
  with False show ?thesis
    by (auto simp: check_total_wait_def unat_requiredBudget [OF assms(1)])
qed

lemma twice_pos: "1000 \<le> unat w \<Longrightarrow> 2 * uint w \<le> g \<Longrightarrow> 0 < g"
  unfolding uint_nat by linarith

lemma check_iff_ok: "check c = None \<longleftrightarrow> config_ok c"
proof -
  have "check c = None \<longleftrightarrow> check_basic c = [] \<and> check_give_up c = [] \<and> check_total_wait c = []"
    by (simp add: check_def check_errors_def)
  also have "\<dots> \<longleftrightarrow> config_ok c"
    using twice_pos [of "watchdogIntervalMs c" "giveUpThresholdMs c"]
    by (auto simp: check_basic_Nil check_give_up_Nil check_total_wait_Nil config_ok_def Let_def)
  finally show ?thesis .
qed

text \<open>
  C20: \<open>check()\<close> accepts a configuration exactly when the documented constraints
  hold over unbounded numbers: neither the 32-bit sum \<open>timeoutMs + retryMaxBackoffMs\<close>
  nor the 64-bit budget product can make a wrong configuration pass or a right one
  fail by wrapping.
\<close>

theorem check_correct: "check c = None \<longleftrightarrow> config_ok c"
  by (rule check_iff_ok)

lemma profile_check: "check (applyProfile p c) = None \<longleftrightarrow> unat (logLevel c) \<in> {100..600}"
  by (cases p) (auto simp: check_iff_ok config_ok_def Let_def)

text \<open>
  Every network profile passes validation from any starting configuration,
  except for the one member no profile sets: the log level must already be in range.
\<close>

theorem profiles_valid: "check (applyProfile p c) = None \<longleftrightarrow> unat (logLevel c) \<in> {100..600}"
  by (rule profile_check)

lemma applyDefault_eq:
  "applyDefaultIfInvalid c =
     (if config_ok c then (Success False, c)
      else if unat (logLevel c) \<in> {100..600} then (Success True, applyProfile PROFILE_LOCAL c)
      else (Error (RichError EC_INVALID_CONFIG
              ''ClientConfig: default config still invalid after applyProfile''),
            applyProfile PROFILE_LOCAL c))"
  using profile_check [of PROFILE_LOCAL c]
  by (auto simp: applyDefaultIfInvalid_def Let_def simp flip: check_iff_ok simp del: applyProfile.simps)

text \<open>
  \<open>applyDefaultIfInvalid()\<close> leaves a valid configuration alone, repairs an
  invalid one to the local profile, and fails only for a log level out of range, in
  which case the local profile has been applied all the same.
\<close>

theorem applyDefault_spec:
  "applyDefaultIfInvalid c =
     (if config_ok c then (Success False, c)
      else if unat (logLevel c) \<in> {100..600} then (Success True, applyProfile PROFILE_LOCAL c)
      else (Error (RichError EC_INVALID_CONFIG
              ''ClientConfig: default config still invalid after applyProfile''),
            applyProfile PROFILE_LOCAL c))"
  by (rule applyDefault_eq)

text \<open>
  A default-constructed configuration has exactly one violation, the zero
  \<open>maxTotalWaitMs\<close>.
\<close>

lemma default_config_invalid:
  "check_errors default_config =
     [''maxTotalWaitMs must be > 0; call applyProfile() or applyDefaultIfInvalid()'']"
proof -
  have "check_basic default_config = []"
    by (simp add: check_basic_Nil default_config_def LOG_WARNING_def)
  moreover have "check_give_up default_config = []"
    by (simp add: check_give_up_Nil default_config_def)
  moreover have "maxTotalWaitMs default_config = 0"
    by (simp add: default_config_def)
  ultimately show ?thesis
    by (simp add: check_errors_def check_total_wait_def)
qed

end
