(* ===== verification/Packed_State.thy ===== *)
theory Packed_State
  imports Prelude
begin

unbundle bit_operations_syntax

text \<open>
  The 64-bit state snapshot of \<open>src/OPCUAPacking/ua.cpp\<close>: version, status, channel
  and session in one word, the two ways of writing it (\<open>updatePacked\<close>, a
  compare-and-swap loop, and \<open>tryPublishIfUnchanged\<close>, a single compare-and-swap),
  and a system of concurrent writers over it.
\<close>

section \<open>Packing and unpacking\<close>

definition kVerShift :: nat where "kVerShift = 48"
definition kVerMask :: u64 where "kVerMask = push_bit kVerShift 0xFFFF"
definition kStatusShift :: nat where "kStatusShift = 16"
definition kChannelShift :: nat where "kChannelShift = 8"
definition kSessionShift :: nat where "kSessionShift = 0"

lemmas shift_defs = kVerShift_def kVerMask_def kStatusShift_def kChannelShift_def kSessionShift_def

definition packState :: "u32 \<Rightarrow> u32 \<Rightarrow> u32 \<Rightarrow> u16 \<Rightarrow> u64" where
  "packState status channel session version =
     push_bit kVerShift (ucast version) OR
     push_bit kStatusShift (ucast status) OR
     push_bit kChannelShift (ucast channel) OR
     push_bit kSessionShift (ucast session)"

record state_fields =
  f_status :: u32
  f_channel :: u32
  f_session :: u32
  f_version :: u16

definition unpackState :: "u64 \<Rightarrow> state_fields" where
  "unpackState v = \<lparr>
     f_status = ucast (drop_bit kStatusShift v AND 0xFFFFFFFF),
     f_channel = ucast (drop_bit kChannelShift v AND 0xFF),
     f_session = ucast (drop_bit kSessionShift v AND 0xFF),
     f_version = ucast (drop_bit kVerShift (v AND kVerMask))\<rparr>"

definition pack_fields :: "state_fields \<Rightarrow> u64" where
  "pack_fields f = packState (f_status f) (f_channel f) (f_session f) (f_version f)"

section \<open>Writers\<close>

text \<open>One attempt of \<open>updatePacked\<close>: the value it tries to store over \<open>old\<close>.\<close>

definition next_packed :: "u64 \<Rightarrow> u32 \<Rightarrow> u32 \<Rightarrow> u32 \<Rightarrow> u64" where
  "next_packed old status channel session =
     packState status channel session (f_version (unpackState old) + 1)"

text \<open>
  \<open>updatePacked\<close> called with the lambda of \<open>stateCallback\<close>, which overwrites all
  three fields, when no other writer intervenes.
\<close>

definition updatePacked :: "u32 \<Rightarrow> u32 \<Rightarrow> u32 \<Rightarrow> u64 \<Rightarrow> u64" where
  "updatePacked status channel session cell = next_packed cell status channel session"

definition tryPublishIfUnchanged :: "u64 \<Rightarrow> u32 \<Rightarrow> u32 \<Rightarrow> u32 \<Rightarrow> u64 \<Rightarrow> bool \<times> u64" where
  "tryPublishIfUnchanged expected status channel session cell =
     (if cell = expected then (True, next_packed expected status channel session)
      else (False, cell))"

section \<open>Bits of the snapshot\<close>

lemma masks:
  "(0xFFFF :: u64) = mask 16" "(0xFFFFFFFF :: u64) = mask 32" "(0xFF :: u64) = mask 8"
  by (simp_all add: mask_eq_exp_minus_1)

lemma byte_bit:
  fixes w :: u32
  assumes "unat w < 256" shows "bit w n \<Longrightarrow> n < 8"
proof -
  have "take_bit 8 w = w"
    using assms by (intro unsigned_word_eqI [where 'a = nat])
      (simp add: unsigned_take_bit_eq take_bit_nat_eq_self)
  then show "bit w n \<Longrightarrow> n < 8" by (metis bit_take_bit_iff)
qed

lemma unpack_bits:
  "bit (f_status (unpackState v)) n \<longleftrightarrow> n < 32 \<and> bit v (n + 16)"
  "bit (f_channel (unpackState v)) n \<longleftrightarrow> n < 8 \<and> bit v (n + 8)"
  "bit (f_session (unpackState v)) n \<longleftrightarrow> n < 8 \<and> bit v n"
  "bit (f_version (unpackState v)) n \<longleftrightarrow> n < 16 \<and> bit v (n + 48)"
  by (auto simp: unpackState_def shift_defs masks bit_simps add.commute dest: bit_imp_le_length)

lemma pack_bits:
  "bit (packState st ch ss v) n \<longleftrightarrow> n < 64 \<and>
     (48 \<le> n \<and> bit v (n - 48) \<or> 16 \<le> n \<and> bit st (n - 16) \<or> 8 \<le> n \<and> bit ch (n - 8) \<or> bit ss n)"
  by (auto simp: packState_def shift_defs bit_simps)

lemma bit_u32: "bit (w :: u32) n \<Longrightarrow> n < 32"
  using bit_imp_le_length [of w n] by simp

lemma bit_u16: "bit (w :: u16) n \<Longrightarrow> n < 16"
  using bit_imp_le_length [of w n] by simp

lemma unpack_pack:
  assumes "unat ch < 256" and "unat ss < 256"
  shows "unpackState (packState st ch ss v) = \<lparr>f_status = st, f_channel = ch, f_session = ss, f_version = v\<rparr>"
proof -
  have ch: "bit ch n \<Longrightarrow> n < 8" and ss: "bit ss n \<Longrightarrow> n < 8" for n
    using assms by (simp_all add: byte_bit)
  have "f_status (unpackState (packState st ch ss v)) = st"
    by (rule bit_word_eqI) (auto simp: unpack_bits pack_bits dest: ch ss bit_u32)
  moreover have "f_channel (unpackState (packState st ch ss v)) = ch"
    by (rule bit_word_eqI) (auto simp: unpack_bits pack_bits dest: ch ss)
  moreover have "f_session (unpackState (packState st ch ss v)) = ss"
    by (rule bit_word_eqI) (auto simp: unpack_bits pack_bits dest: ch ss)
  moreover have "f_version (unpackState (packState st ch ss v)) = v"
    by (rule bit_word_eqI) (auto simp: unpack_bits pack_bits dest: ch ss bit_u32 bit_u16)
  ultimately show ?thesis by simp
qed

lemma pack_unpack: "pack_fields (unpackState w) = w"
proof (rule bit_word_eqI)
  fix n assume "n < LENGTH(64)"
  then consider "n < 8" | "8 \<le> n" "n < 16" | "16 \<le> n" "n < 48" | "48 \<le> n" "n < 64"
    by fastforce
  then show "bit (pack_fields (unpackState w)) n \<longleftrightarrow> bit w n"
    by cases (auto simp: pack_fields_def pack_bits unpack_bits)
qed

text \<open>
  Packing and unpacking are inverse to each other: every 64-bit snapshot is the
  packing of its fields, and fields whose channel and session fit a byte are read
  back unchanged, so no field can leak into another.
\<close>

theorem packState_bijection:
  "pack_fields (unpackState w) = w \<and>
   (unat ch < 256 \<longrightarrow> unat ss < 256 \<longrightarrow>
      unpackState (packState st ch ss v) =
        \<lparr>f_status = st, f_channel = ch, f_session = ss, f_version = v\<rparr>)"
  by (simp add: pack_unpack unpack_pack)

lemma version_packState [simp]:
  "f_version (unpackState (packState st ch ss v)) = v"
  by (rule bit_word_eqI) (auto simp: unpack_bits pack_bits dest: bit_u32 bit_u16)

lemma version_next_packed [simp]:
  "f_version (unpackState (next_packed old st ch ss)) = f_version (unpackState old) + 1"
  by (simp add: next_packed_def)

lemma unpack_next_packed:
  "unat ch < 256 \<Longrightarrow> unat ss < 256 \<Longrightarrow> unpackState (next_packed old st ch ss) =
     \<lparr>f_status = st, f_channel = ch, f_session = ss, f_version = f_version (unpackState old) + 1\<rparr>"
  by (simp add: next_packed_def unpack_pack)

section \<open>Concurrent writers\<close>

text \<open>
  Threads are numbers.  \<open>W_update\<close>: a \<open>stateCallback\<close> inside the loop of
  \<open>updatePacked\<close>, with the value it loaded; \<open>W_publish\<close>: an \<open>isConnected()\<close> between
  its load of \<open>expected\<close> and its \<open>tryPublishIfUnchanged\<close>, with the number of writes
  done when it loaded.  \<open>written\<close> records every triple stored, newest first; it
  is not part of the program's state.
\<close>

datatype writer_pc =
    W_idle
  | W_update u32 u32 u32 u64
  | W_publish u64 nat

record snapshot_sys =
  cell :: u64
  writers :: "nat \<Rightarrow> writer_pc"
  written :: "(u32 \<times> u32 \<times> u32) list"

datatype writer_label = L_load nat | L_commit nat | L_retry nat | L_publish nat | L_drop nat

inductive snapshot_step :: "snapshot_sys \<Rightarrow> writer_label \<Rightarrow> snapshot_sys \<Rightarrow> bool" where
  update_load: "writers s i = W_idle \<Longrightarrow> unat ch < 256 \<Longrightarrow> unat ss < 256 \<Longrightarrow>
     snapshot_step s (L_load i) (s\<lparr>writers := (writers s)(i := W_update st ch ss (cell s))\<rparr>)"
| update_commit: "writers s i = W_update st ch ss old \<Longrightarrow> cell s = old \<Longrightarrow>
     snapshot_step s (L_commit i)
       (s\<lparr>cell := next_packed old st ch ss, writers := (writers s)(i := W_idle),
          written := (st, ch, ss) # written s\<rparr>)"
| update_retry: "writers s i = W_update st ch ss old \<Longrightarrow>
     snapshot_step s (L_retry i) (s\<lparr>writers := (writers s)(i := W_update st ch ss (cell s))\<rparr>)"
| publish_load: "writers s i = W_idle \<Longrightarrow>
     snapshot_step s (L_load i)
       (s\<lparr>writers := (writers s)(i := W_publish (cell s) (length (written s)))\<rparr>)"
| publish_commit: "writers s i = W_publish expected n \<Longrightarrow> unat ch < 256 \<Longrightarrow> unat ss < 256 \<Longrightarrow>
     tryPublishIfUnchanged expected st ch ss (cell s) = (True, new) \<Longrightarrow>
     snapshot_step s (L_publish i)
       (s\<lparr>cell := new, writers := (writers s)(i := W_idle), written := (st, ch, ss) # written s\<rparr>)"
| publish_drop: "writers s i = W_publish expected n \<Longrightarrow>
     tryPublishIfUnchanged expected st ch ss (cell s) = (False, new) \<Longrightarrow>
     snapshot_step s (L_drop i) (s\<lparr>cell := new, writers := (writers s)(i := W_idle)\<rparr>)"

definition snapshot_init :: "u64 \<Rightarrow> snapshot_sys" where
  "snapshot_init c = \<lparr>cell = c, writers = (\<lambda>_. W_idle), written = []\<rparr>"

inductive snapshot_reach :: "u64 \<Rightarrow> snapshot_sys \<Rightarrow> bool" for c where
  reach_init: "snapshot_reach c (snapshot_init c)"
| reach_step: "snapshot_reach c s \<Longrightarrow> snapshot_step s l t \<Longrightarrow> snapshot_reach c t"

inductive_cases publish_stepE: "snapshot_step s (L_publish i) t"
inductive_cases drop_stepE: "snapshot_step s (L_drop i) t"

text \<open>
  What the cell means: the last triple written, with as many increments of the
  version as there were writes; a waiting publisher knows the value of the cell at
  its load.
\<close>

definition cell_meaning :: "u64 \<Rightarrow> snapshot_sys \<Rightarrow> bool" where
  "cell_meaning c s \<longleftrightarrow>
     (case written s of
        [] \<Rightarrow> cell s = c
      | (st, ch, ss) # _ \<Rightarrow> unpackState (cell s) =
          \<lparr>f_status = st, f_channel = ch, f_session = ss,
           f_version = f_version (unpackState c) + of_nat (length (written s))\<rparr>)"

definition version_count :: "u64 \<Rightarrow> snapshot_sys \<Rightarrow> bool" where
  "version_count c s \<longleftrightarrow>
     f_version (unpackState (cell s)) = f_version (unpackState c) + of_nat (length (written s))"

definition writer_ok :: "u64 \<Rightarrow> snapshot_sys \<Rightarrow> writer_pc \<Rightarrow> bool" where
  "writer_ok c s w \<longleftrightarrow> (case w of
       W_publish e n \<Rightarrow> n \<le> length (written s) \<and>
         f_version (unpackState e) = f_version (unpackState c) + of_nat n \<and>
         (n = length (written s) \<longrightarrow> cell s = e)
     | W_update st ch ss old \<Rightarrow> unat ch < 256 \<and> unat ss < 256
     | W_idle \<Rightarrow> True)"

definition snapshot_inv :: "u64 \<Rightarrow> snapshot_sys \<Rightarrow> bool" where
  "snapshot_inv c s \<longleftrightarrow> cell_meaning c s \<and> version_count c s \<and> (\<forall>i. writer_ok c s (writers s i))"

lemma snapshot_inv_init: "snapshot_inv c (snapshot_init c)"
  by (simp add: snapshot_inv_def snapshot_init_def cell_meaning_def version_count_def writer_ok_def)

lemma writer_ok_write:
  "writer_ok c s w \<Longrightarrow> writer_ok c (s\<lparr>cell := x, writers := ws, written := e # written s\<rparr>) w"
  by (auto simp: writer_ok_def split: writer_pc.splits)

lemma writer_ok_writers [simp]: "writer_ok c (s\<lparr>writers := ws\<rparr>) w = writer_ok c s w"
  by (simp add: writer_ok_def split: writer_pc.splits)

lemma write_inv:
  assumes inv: "snapshot_inv c s" and small: "unat ch < 256" "unat ss < 256"
  shows "snapshot_inv c (s\<lparr>cell := next_packed (cell s) st ch ss, writers := (writers s)(i := W_idle),
     written := (st, ch, ss) # written s\<rparr>)"
  using inv small
  by (auto simp: snapshot_inv_def cell_meaning_def version_count_def unpack_next_packed
      intro!: writer_ok_write simp del: of_nat_Suc simp flip: add.assoc)
    (auto simp: writer_ok_def)

lemma cell_meaning_writers [simp]: "cell_meaning c (s\<lparr>writers := ws\<rparr>) = cell_meaning c s"
  by (cases "written s") (auto simp: cell_meaning_def)

lemma version_count_writers [simp]: "version_count c (s\<lparr>writers := ws\<rparr>) = version_count c s"
  by (simp add: version_count_def)

lemma writers_inv:
  "snapshot_inv c s \<Longrightarrow> writer_ok c s w \<Longrightarrow> snapshot_inv c (s\<lparr>writers := (writers s)(i := w)\<rparr>)"
  by (simp add: snapshot_inv_def)

lemma snapshot_step_inv: "snapshot_step s l t \<Longrightarrow> snapshot_inv c s \<Longrightarrow> snapshot_inv c t"
proof (induction rule: snapshot_step.induct)
  case (update_commit s i st ch ss old)
  then have "unat ch < 256" "unat ss < 256"
    by (auto simp: snapshot_inv_def writer_ok_def dest!: spec [of _ i])
  with update_commit show ?case using write_inv by blast
next
  case (publish_commit s i expected n ch ss st new)
  then have "new = next_packed (cell s) st ch ss"
    by (auto simp: tryPublishIfUnchanged_def split: if_splits)
  with publish_commit show ?case using write_inv by blast
next
  case (publish_drop s i expected n st ch ss new)
  then have new: "new = cell s" by (auto simp: tryPublishIfUnchanged_def split: if_splits)
  from publish_drop.prems have "snapshot_inv c (s\<lparr>writers := (writers s)(i := W_idle)\<rparr>)"
    by (rule writers_inv) (simp add: writer_ok_def)
  with new show ?case by simp
next
  case (update_retry s i st ch ss old)
  then have "writer_ok c s (W_update st ch ss (cell s))"
    by (auto simp: snapshot_inv_def writer_ok_def dest!: spec [of _ i])
  with update_retry show ?case by (simp add: writers_inv)
next
  case (publish_load s i)
  then have "writer_ok c s (W_publish (cell s) (length (written s)))"
    by (simp add: writer_ok_def snapshot_inv_def version_count_def)
  with publish_load show ?case by (simp add: writers_inv)
qed (simp add: writers_inv writer_ok_def)

lemma snapshot_reach_inv: "snapshot_reach c s \<Longrightarrow> snapshot_inv c s"
  by (induction rule: snapshot_reach.induct) (auto intro: snapshot_inv_init snapshot_step_inv)


lemma of_nat_u16_eq:
  assumes "n \<le> m" and "m - n < 65536" and "(of_nat m :: u16) = of_nat n"
  shows "m = n"
proof -
  have "m mod 65536 = n mod 65536"
    using assms(3) unat_of_nat [of m, where 'a = 16] unat_of_nat [of n, where 'a = 16] by simp
  then have "(m - n) mod 65536 = 0"
    using assms(1) by (metis mod_eq_dvd_iff_nat mod_0_imp_dvd dvd_imp_mod_0)
  with assms(1,2) show ?thesis by simp
qed

lemma publish_unchanged:
  assumes "snapshot_reach c s" and "writers s i = W_publish expected n"
    and "length (written s) - n < 65536"
  shows "cell s = expected \<longleftrightarrow> length (written s) = n"
proof -
  have inv: "version_count c s" "writer_ok c s (W_publish expected n)"
    using snapshot_reach_inv [OF assms(1)] assms(2) by (auto simp: snapshot_inv_def dest: spec [of _ i])
  show ?thesis
  proof
    assume "cell s = expected"
    with inv have "(of_nat (length (written s)) :: u16) = of_nat n"
      by (simp add: version_count_def writer_ok_def)
    with inv assms(3) show "length (written s) = n"
      by (intro of_nat_u16_eq) (simp_all add: writer_ok_def)
  qed (use inv in \<open>simp add: writer_ok_def\<close>)
qed

text \<open>
  C11: in any interleaving of state callbacks and health probes, a probe that
  manages to publish its \<open>getState\<close> result overwrites nothing newer: no write happened
  since it loaded the snapshot, as long as fewer than 65536 writes fit into that
  window (the 16-bit version).
\<close>

theorem publish_no_lost_update:
  assumes "snapshot_reach c s" and "snapshot_step s (L_publish i) t"
    and "writers s i = W_publish expected n" and "length (written s) - n < 65536"
  shows "length (written s) = n \<and> (\<exists>e. written t = e # written s)"
  using assms(2)
proof (rule publish_stepE)
  fix expected' n' st ch ss new
  assume t: "t = s\<lparr>cell := new, writers := (writers s)(i := W_idle), written := (st, ch, ss) # written s\<rparr>"
    and w: "writers s i = W_publish expected' n'"
    and ok: "tryPublishIfUnchanged expected' st ch ss (cell s) = (True, new)"
  from ok w assms(3) have "cell s = expected"
    by (auto simp: tryPublishIfUnchanged_def split: if_splits)
  then have "length (written s) = n"
    using publish_unchanged [OF assms(1,3,4)] by simp
  with t show ?thesis by simp
qed

text \<open>
  In any interleaving of writers, a reader that unpacks the cell sees the
  status, channel and session of one single write, the latest one, never a mixture,
  and a version that counts the writes modulo 65536.
\<close>

theorem snapshot_reads_last_write:
  assumes "snapshot_reach c s" and "written s = (st, ch, ss) # rest"
  shows "unpackState (cell s) = \<lparr>f_status = st, f_channel = ch, f_session = ss,
    f_version = f_version (unpackState c) + of_nat (Suc (length rest))\<rparr>"
  using snapshot_reach_inv [OF assms(1)] assms(2)
  by (simp add: snapshot_inv_def cell_meaning_def)

end
