(* ===== verification/Impl_State.thy ===== *)
theory Impl_State
  imports Conversion Client_Config Packed_State
begin

text \<open>
  The state of \<open>OPC_UA_Client::Impl\<close> (\<open>src/OPCUAPacking/ua.cpp\<close>) and its small
  operations: the error enumerations of \<open>detail/State.h\<close> with their mapping to public
  error codes, the health predicates, the life-state transitions, the give-up timer,
  the two SDK callbacks, and the scope guards.  A compare-and-swap on an atomic
  member is one test-and-set of the model; what other threads do meanwhile arrives
  as the events of blocking calls, and \<open>Life_Protocol\<close> treats every interleaving.
\<close>

section \<open>Connection errors\<close>

datatype conn_state = IDLE | CONNECTING

datatype connect_error =
    CE_SHUTDOWN | CE_NULLPTR | CE_THREADBUSY | CE_UNKNOWN | CE_CONNECT_FAILED
  | CE_TIMEOUT_NOTCONNECT

datatype disconnect_error =
    DE_SHUTDOWN | DE_NULLPTR | DE_THREADBUSY | DE_TIMEOUT_NOTDISCONNECT
  | DE_DISCONNECT_FAIL | DE_UNKNOWN

fun connectErrorStateToString :: "connect_error \<Rightarrow> string" where
  "connectErrorStateToString CE_SHUTDOWN = ''client is shut down''"
| "connectErrorStateToString CE_NULLPTR = ''client implementation is null''"
| "connectErrorStateToString CE_THREADBUSY = ''another thread is connecting/disconnecting''"
| "connectErrorStateToString CE_UNKNOWN = ''unknown connection state''"
| "connectErrorStateToString CE_CONNECT_FAILED = ''connect failed''"
| "connectErrorStateToString CE_TIMEOUT_NOTCONNECT =
     ''connect timeout and connection not established''"

fun disconnectErrorStateToString :: "disconnect_error \<Rightarrow> string" where
  "disconnectErrorStateToString DE_SHUTDOWN = ''client is shut down''"
| "disconnectErrorStateToString DE_NULLPTR = ''client implementation is null''"
| "disconnectErrorStateToString DE_THREADBUSY = ''another thread is connecting/disconnecting''"
| "disconnectErrorStateToString DE_TIMEOUT_NOTDISCONNECT =
     ''disconnect timeout and connection not disconnected''"
| "disconnectErrorStateToString DE_DISCONNECT_FAIL = ''async disconnect failed''"
| "disconnectErrorStateToString DE_UNKNOWN = ''unknown disconnect state''"

fun toRichErrorCode_connect :: "connect_error \<Rightarrow> error_code" where
  "toRichErrorCode_connect CE_SHUTDOWN = EC_ALREADY_TERMINATED"
| "toRichErrorCode_connect CE_NULLPTR = EC_NOT_INITIALIZED"
| "toRichErrorCode_connect CE_THREADBUSY = EC_THREAD_BUSY"
| "toRichErrorCode_connect CE_CONNECT_FAILED = EC_SERVICE_FAILED"
| "toRichErrorCode_connect CE_TIMEOUT_NOTCONNECT = EC_CONNECT_TIMEOUT"
| "toRichErrorCode_connect CE_UNKNOWN = EC_UNKNOWN"

fun toRichErrorCode_disconnect :: "disconnect_error \<Rightarrow> error_code" where
  "toRichErrorCode_disconnect DE_SHUTDOWN = EC_ALREADY_TERMINATED"
| "toRichErrorCode_disconnect DE_NULLPTR = EC_NOT_INITIALIZED"
| "toRichErrorCode_disconnect DE_THREADBUSY = EC_THREAD_BUSY"
| "toRichErrorCode_disconnect DE_TIMEOUT_NOTDISCONNECT = EC_DISCONNECT_TIMEOUT"
| "toRichErrorCode_disconnect DE_DISCONNECT_FAIL = EC_SERVICE_FAILED"
| "toRichErrorCode_disconnect DE_UNKNOWN = EC_UNKNOWN"

section \<open>The Impl record\<close>

text \<open>The members of \<open>UA_ClientConfig\<close> that \<open>applyConfiguration()\<close> stores.\<close>

record ua_client_config =
  uc_timeout :: u32
  uc_requestedSessionTimeout :: u32
  uc_secureChannelLifeTime :: u32
  uc_noReconnect :: bool
  uc_noNewSession :: bool
  uc_connectivityCheckInterval :: u32
  uc_logger_redirected :: bool

text \<open>
  \<open>m_watchdogThread\<close> is a null pointer, a joinable thread or a thread object that
  has been joined or detached.  \<open>callbacks\<close> tells whether \<open>applyConfiguration()\<close>
  has registered the two SDK callbacks of this object, \<open>sdk_config\<close> what it has
  stored in the SDK's configuration.
\<close>

datatype thread_ptr = WD_null | WD_joinable | WD_finished

record 'w impl =
  m_impl :: "nat option"
  endpointUrl :: string
  m_config :: client_config
  m_logLevel :: u32
  m_connState :: conn_state
  m_lifeState :: life_state
  m_running :: bool
  m_shutdown :: bool
  connectionLost :: bool
  state_packed :: u64
  m_stop :: bool
  m_taskCounter :: nat
  m_watchdogThread :: thread_ptr
  m_lastBadStatusMs :: int
  callbacks :: bool
  sdk_config :: "ua_client_config option"
  world :: 'w

definition new_impl :: "'w sdk \<Rightarrow> client_config \<Rightarrow> string \<Rightarrow> nat \<Rightarrow> 'w \<Rightarrow> 'w impl" where
  "new_impl K cfg url client w = \<lparr>
     m_impl = Some client, endpointUrl = url, m_config = cfg, m_logLevel = logLevel cfg,
     m_connState = IDLE, m_lifeState = RUNNING, m_running = True, m_shutdown = False,
     connectionLost = False,
     state_packed = packState (sdk_code K BADNOTCONNECTED) (sdk_chan K CHANNEL_CLOSED)
       (sdk_sess K SESSION_CLOSED) 0,
     m_stop = False, m_taskCounter = 0, m_watchdogThread = WD_null, m_lastBadStatusMs = 0,
     callbacks = False, sdk_config = None, world = w\<rparr>"

section \<open>Health and stop predicates\<close>

definition triple_ready :: "'w sdk \<Rightarrow> u64 \<Rightarrow> bool" where
  "triple_ready K v = (let f = unpackState v in
     sdk_isGood K (f_status f) \<and> f_channel f = sdk_chan K CHANNEL_OPEN \<and>
     f_session f = sdk_sess K SESSION_ACTIVATED)"

definition isHealthyCached :: "'w sdk \<Rightarrow> 'w impl \<Rightarrow> bool" where
  "isHealthyCached K s = (if connectionLost s then False else triple_ready K (state_packed s))"

definition isChannelClosed :: "'w sdk \<Rightarrow> 'w impl \<Rightarrow> bool" where
  "isChannelClosed K s \<longleftrightarrow> f_channel (unpackState (state_packed s)) = sdk_chan K CHANNEL_CLOSED"

definition isConnectBad :: "'w sdk \<Rightarrow> 'w impl \<Rightarrow> bool" where
  "isConnectBad K s \<longleftrightarrow> sdk_isBad K (f_status (unpackState (state_packed s)))"

definition isSessionClosed :: "'w sdk \<Rightarrow> 'w impl \<Rightarrow> bool" where
  "isSessionClosed K s \<longleftrightarrow> f_session (unpackState (state_packed s)) = sdk_sess K SESSION_CLOSED"

definition getEffectiveStopSignal :: "'w impl \<Rightarrow> bool" where
  "getEffectiveStopSignal s \<longleftrightarrow> (m_shutdown s \<and> \<not> m_running s) \<or> m_lifeState s = GIVEN_UP"

section \<open>Life-state transitions\<close>

definition TurnToRecovring :: "'w sdk \<Rightarrow> 'w impl \<Rightarrow> 'w impl" where
  "TurnToRecovring K s =
     (if m_lifeState s = RUNNING \<and> \<not> isHealthyCached K s then
        let s1 = s\<lparr>m_lifeState := RECOVERING\<rparr> in
        if isHealthyCached K s1 then
          (if m_lifeState s1 = RECOVERING then s1\<lparr>m_lifeState := RUNNING\<rparr> else s1)
        else s1
      else s)"

definition resetGiveUpTimer :: "'w impl \<Rightarrow> 'w impl" where
  "resetGiveUpTimer s = (if m_lastBadStatusMs s \<noteq> 0 then s\<lparr>m_lastBadStatusMs := 0\<rparr> else s)"

definition TurnToRunning :: "'w impl \<Rightarrow> 'w impl" where
  "TurnToRunning s =
     (if m_lifeState s = RUNNING \<or> m_lifeState s = RECOVERING then
        resetGiveUpTimer (s\<lparr>m_lifeState := RUNNING, connectionLost := False\<rparr>)
      else s)"

definition setGiveUpSignal :: "'w impl \<Rightarrow> (unit, rich_error) result \<times> 'w impl" where
  "setGiveUpSignal s =
     (if m_lifeState s = RUNNING \<or> m_lifeState s = RECOVERING then
        (Success (), s\<lparr>m_lifeState := GIVEN_UP\<rparr>)
      else (Error (RichError EC_GIVENUP_ING ''setGiveUpSignal: GiveUp do not set repeatly''), s))"

definition signalShutdown :: "'w impl \<Rightarrow> 'w impl" where
  "signalShutdown s = (if m_shutdown s then s else s\<lparr>m_running := False, m_shutdown := True\<rparr>)"

section \<open>Callbacks and calls into the SDK\<close>

text \<open>
  \<open>inactivityCallback\<close> and \<open>stateCallback\<close> as registered by \<open>applyConfiguration()\<close>;
  the peer events are the corresponding operations of another thread.
\<close>

fun apply_event :: "event \<Rightarrow> 'w impl \<Rightarrow> 'w impl" where
  "apply_event (StateCb ch ss st) s =
     (if callbacks s then s\<lparr>state_packed := updatePacked st ch ss (state_packed s)\<rparr> else s)"
| "apply_event InactivityCb s =
     (if callbacks s \<and> \<not> getEffectiveStopSignal s then s\<lparr>connectionLost := True\<rparr> else s)"
| "apply_event PeerGiveUp s = snd (setGiveUpSignal s)"
| "apply_event PeerShutdown s = signalShutdown s"

definition sdkCall :: "('w, 'a) sdk_call \<Rightarrow> ('w impl, 'a) cpp" where
  "sdkCall c = (\<lambda>s. case c (world s) of (r, evs, w') \<Rightarrow>
     ((case r of Inl e \<Rightarrow> Throw e | Inr x \<Rightarrow> Ret x), fold apply_event evs (s\<lparr>world := w'\<rparr>)))"

lemma wp_sdkCall [wp_simps]:
  "wp A (sdkCall c) Q s = (case c (world s) of
       (Inl e, evs, w') \<Rightarrow> Threw e \<in> A
     | (Inr x, evs, w') \<Rightarrow> Q x (fold apply_event evs (s\<lparr>world := w'\<rparr>)))"
  by (auto simp: wp_def sdkCall_def split: prod.splits sum.splits)

lemma exits_sdkCall: "range Threw \<subseteq> A \<Longrightarrow> exits A (sdkCall c)"
  by (auto simp: exits_def wp_sdkCall split: prod.splits sum.splits)

lemma exits_result:
  "(\<And>v. exits A (f v)) \<Longrightarrow> (\<And>e. exits A (g e)) \<Longrightarrow>
     exits A (case r of Success v \<Rightarrow> f v | Error e \<Rightarrow> g e)"
  by (cases r) simp_all

text \<open>A computation on the world alone, run inside the object.\<close>

definition onWorld :: "('w, 'a) cpp \<Rightarrow> ('w impl, 'a) cpp" where
  "onWorld m = (\<lambda>s. case m (world s) of (r, w') \<Rightarrow> (r, s\<lparr>world := w'\<rparr>))"

definition nowMsImpl :: "'w sdk \<Rightarrow> ('w impl, int) cpp" where
  "nowMsImpl K = sdkCall (sdk_nowMs K)"

definition updateBadStatusTime :: "'w sdk \<Rightarrow> ('w impl, unit) cpp" where
  "updateBadStatusTime K = bindE (readE m_lastBadStatusMs) (\<lambda>t.
     if t = 0 then bindE (nowMsImpl K) (\<lambda>now. modifyE (\<lambda>s. s\<lparr>m_lastBadStatusMs := now\<rparr>))
     else ret ())"

definition enter_given_up :: "'w impl \<Rightarrow> 'w impl" where
  "enter_given_up s = (if m_lifeState s \<noteq> GIVEN_UP then s\<lparr>m_lifeState := GIVEN_UP\<rparr> else s)"

definition TurnToGiveup :: "'w sdk \<Rightarrow> ('w impl, unit) cpp" where
  "TurnToGiveup K = thenE (updateBadStatusTime K) (modifyE enter_given_up)"

definition shouldTriggerGiveUp :: "'w sdk \<Rightarrow> ('w impl, bool) cpp" where
  "shouldTriggerGiveUp K = bindE (readE m_lastBadStatusMs) (\<lambda>ts.
     if ts = 0 then ret False
     else bindE (nowMsImpl K) (\<lambda>now. readE (\<lambda>s. giveUpThresholdMs (m_config s) \<le> now - ts)))"

definition callRunIterate :: "'w sdk \<Rightarrow> nat \<Rightarrow> nat \<Rightarrow> ('w impl, unit) cpp" where
  "callRunIterate K client tmo = bindE (sdkCall (sdk_runIterate K client tmo)) (\<lambda>_. ret ())"

section \<open>Scope guards\<close>

text \<open>\<open>InFlightGuard\<close>: counts the task while the guarded scope runs.\<close>

definition task_begin :: "'w impl \<Rightarrow> 'w impl" where
  "task_begin s = s\<lparr>m_taskCounter := m_taskCounter s + 1\<rparr>"

definition task_end :: "'w impl \<Rightarrow> 'w impl" where
  "task_end s = (if 0 < m_taskCounter s then s\<lparr>m_taskCounter := m_taskCounter s - 1\<rparr> else s)"

definition in_flight :: "('w impl, 'a) cpp \<Rightarrow> ('w impl, 'a) cpp" where
  "in_flight m = thenE (modifyE task_begin) (finallyE m task_end)"

text \<open>
  The single-flight compare-and-swap of \<open>connect()\<close> and \<open>disconnect()\<close> with the
  \<open>CASGuard\<close> that follows it; \<open>busy\<close> handles the value found when it fails.
\<close>

definition cas_guard ::
  "(conn_state \<Rightarrow> ('w impl, 'a) cpp) \<Rightarrow> ('w impl, 'a) cpp \<Rightarrow> ('w impl, 'a) cpp" where
  "cas_guard busy body = bindE (readE m_connState) (\<lambda>expected.
     if expected = IDLE then
       thenE (modifyE (\<lambda>s. s\<lparr>m_connState := CONNECTING\<rparr>))
         (finallyE body (\<lambda>s. s\<lparr>m_connState := IDLE\<rparr>))
     else busy expected)"

lemma exits_in_flight: "exits A m \<Longrightarrow> exits A (in_flight m)"
  unfolding in_flight_def by (intro exits_intros)

lemma exits_cas_guard: "exits A body \<Longrightarrow> (\<And>c. exits A (busy c)) \<Longrightarrow> exits A (cas_guard busy body)"
  unfolding cas_guard_def by (intro exits_intros)

lemmas exits_impl = exits_intros exits_in_flight exits_cas_guard exits_sdkCall

section \<open>The contract of the Impl operations\<close>

text \<open>
  Every operation of \<open>Impl\<close> is built from the primitives above.  The locale takes
  a relation between the state before and the state after, asks that each primitive
  keeps it, and gives it for whatever is composed from them; the operations of the
  later theories are added to it one by one.  The first locale covers the calls that
  connecting, probing and waiting make; the second adds the requests and services of a
  batch; the third holds for every call into the SDK.
\<close>

locale impl_contract = guarantee R
  for R :: "'w impl \<Rightarrow> 'w impl \<Rightarrow> bool" +
  fixes K :: "'w sdk"
  assumes c_iterate: "R s (s\<lparr>world := snd (snd (sdk_runIterate K c n (world s)))\<rparr>)"
    and c_getState: "R s (s\<lparr>world := snd (snd (sdk_getState K c (world s)))\<rparr>)"
    and c_connectAsync: "R s (s\<lparr>world := snd (snd (sdk_connectAsync K c url (world s)))\<rparr>)"
    and c_disconnectAsync: "R s (s\<lparr>world := snd (snd (sdk_disconnectAsync K c (world s)))\<rparr>)"
    and c_nowMs: "R s (s\<lparr>world := snd (snd (sdk_nowMs K (world s)))\<rparr>)"
    and c_wall: "R s (s\<lparr>world := snd (snd (wall_now K (world s)))\<rparr>)"
    and c_wait: "R s (s\<lparr>world := snd (snd (wait_ms K n (world s)))\<rparr>)"
    and c_event: "R s (apply_event e s)"
    and c_publish: "R s (s\<lparr>state_packed := v\<rparr>)"
    and c_running: "R s (TurnToRunning s)"
    and c_recovering: "R s (TurnToRecovring K s)"
    and c_given_up: "R s (enter_given_up s)"
    and c_bad: "R s (s\<lparr>m_lastBadStatusMs := t\<rparr>)"
    and c_task: "R (task_begin s) u \<Longrightarrow> R s (task_end u)"
    and c_single: "m_connState s = IDLE \<Longrightarrow> R (s\<lparr>m_connState := CONNECTING\<rparr>) u \<Longrightarrow>
       R s (u\<lparr>m_connState := IDLE\<rparr>)"
begin

lemma g_events: "R s (fold apply_event evs s)"
proof (induction evs arbitrary: s)
  case (Cons e evs)
  have "R s (apply_event e s)" by (rule c_event)
  also have "R (apply_event e s) (fold apply_event evs (apply_event e s))" by (rule Cons.IH)
  finally (R_trans) show ?case by simp
qed (simp add: R_refl)

lemma g_call:
  assumes "\<And>s. R s (s\<lparr>world := snd (snd (c (world s)))\<rparr>)"
  shows "guar R (sdkCall c)"
proof (rule guarI)
  fix s :: "'w impl"
  obtain r evs w' where c: "c (world s) = (r, evs, w')" by (metis prod.exhaust)
  have "R s (s\<lparr>world := w'\<rparr>)" using assms [of s] by (simp add: c)
  then have "R s (fold apply_event evs (s\<lparr>world := w'\<rparr>))"
    by (rule R_trans [OF _ g_events])
  then show "R s (snd (sdkCall c s))" by (simp add: sdkCall_def c)
qed

lemmas g_calls = c_iterate [THEN g_call] c_getState [THEN g_call] c_connectAsync [THEN g_call]
  c_disconnectAsync [THEN g_call] c_nowMs [THEN g_call] c_wall [THEN g_call] c_wait [THEN g_call]

lemma g_in_flight:
  assumes "guar R m"
  shows "guar R (in_flight m)"
proof (rule guarI)
  fix s
  have "R (task_begin s) (snd (m (task_begin s)))" using assms by (rule guarD)
  then have "R s (task_end (snd (m (task_begin s))))" by (rule c_task)
  then show "R s (snd (in_flight m s))"
    by (simp add: in_flight_def thenE_modifyE)
qed

lemma g_cas_guard:
  assumes "guar R body" and "\<And>c. guar R (busy c)"
  shows "guar R (cas_guard busy body)"
proof (rule guarI)
  fix s
  show "R s (snd (cas_guard busy body s))"
  proof (cases "m_connState s = IDLE")
    case True
    let ?s1 = "s\<lparr>m_connState := CONNECTING\<rparr>"
    have "R ?s1 (snd (body ?s1))" using assms(1) by (rule guarD)
    with True have "R s ((snd (body ?s1))\<lparr>m_connState := IDLE\<rparr>)" by (rule c_single)
    with True show ?thesis
      by (simp add: cas_guard_def bindE_readE thenE_modifyE)
  next
    case False
    then show ?thesis
      using guarD [OF assms(2)] by (simp add: cas_guard_def bindE_readE)
  qed
qed

lemma g_running: "guar R (modifyE TurnToRunning)"
  by (rule g_modify) (rule c_running)

lemma g_recovering: "guar R (modifyE (TurnToRecovring K))"
  by (rule g_modify) (rule c_recovering)

lemma g_publish: "guar R (modifyE (\<lambda>s. s\<lparr>state_packed := f s\<rparr>))"
  by (rule g_modify) (rule c_publish)

lemma g_bad: "guar R (modifyE (\<lambda>s. s\<lparr>m_lastBadStatusMs := t\<rparr>))"
  by (rule g_modify) (rule c_bad)

lemma g_nowMs: "guar R (nowMsImpl K)"
  unfolding nowMsImpl_def by (rule g_calls)

lemma g_updateBad: "guar R (updateBadStatusTime K)"
  unfolding updateBadStatusTime_def by (intro g_intros g_nowMs g_bad)

lemma g_giveup: "guar R (TurnToGiveup K)"
  unfolding TurnToGiveup_def by (intro g_intros g_updateBad g_modify c_given_up)

lemma g_should: "guar R (shouldTriggerGiveUp K)"
  unfolding shouldTriggerGiveUp_def by (intro g_intros g_nowMs)

lemma g_iterate: "guar R (callRunIterate K c tmo)"
  unfolding callRunIterate_def by (intro g_intros g_calls)

lemmas c_intros = g_intros g_calls g_in_flight g_cas_guard g_running g_recovering
  g_publish g_bad g_nowMs g_updateBad g_giveup g_should g_iterate

end

locale batch_contract = impl_contract R K + mem: heap_contract V K
  for R :: "'w impl \<Rightarrow> 'w impl \<Rightarrow> bool" and K :: "'w sdk" and V :: "'w \<Rightarrow> 'w \<Rightarrow> bool" +
  assumes c_heap: "V (world s) w \<Longrightarrow> R s (s\<lparr>world := w\<rparr>)"
    and c_read: "R s (s\<lparr>world := snd (snd (sdk_serviceRead K c q (world s)))\<rparr>)"
    and c_write: "R s (s\<lparr>world := snd (snd (sdk_serviceWrite K c u (world s)))\<rparr>)"
begin

lemma g_onWorld: "guar V m \<Longrightarrow> guar R (onWorld m)"
  using guarD [of V m] by (intro guarI) (simp add: onWorld_def c_heap case_prod_unfold)

lemmas b_intros = c_intros g_onWorld c_read [THEN g_call] c_write [THEN g_call]

end

text \<open>A relation that does not look at the world at all.\<close>

locale service_contract = impl_contract +
  assumes c_world: "R s (s\<lparr>world := w\<rparr>)"
begin

lemma g_sdkCall: "guar R (sdkCall c)"
  by (rule g_call) (rule c_world)

lemma g_anyWorld: "guar R (onWorld m)"
  by (rule guarI) (simp add: onWorld_def c_world split: prod.splits)

lemmas s_intros = g_sdkCall g_anyWorld c_intros

end

sublocale service_contract \<subseteq> batch_contract R K "\<lambda>_ _. True"
  by unfold_locales (simp_all add: c_world)

text \<open>
  Four instances: giving up is final, the identity of the object is fixed, the
  task counter is balanced, and the single-flight flag is released.
\<close>

definition keeps_given_up :: "'w impl \<Rightarrow> 'w impl \<Rightarrow> bool" where
  "keeps_given_up s t \<longleftrightarrow> (m_lifeState s = GIVEN_UP \<longrightarrow> m_lifeState t = GIVEN_UP)"

definition keeps_identity :: "'w impl \<Rightarrow> 'w impl \<Rightarrow> bool" where
  "keeps_identity s t \<longleftrightarrow> m_impl t = m_impl s \<and> endpointUrl t = endpointUrl s \<and>
     m_config t = m_config s \<and> callbacks t = callbacks s \<and> m_stop t = m_stop s \<and>
     m_watchdogThread t = m_watchdogThread s \<and> (m_shutdown s \<longrightarrow> m_shutdown t) \<and>
     (\<not> m_running s \<longrightarrow> \<not> m_running t)"

definition keeps_counter :: "'w impl \<Rightarrow> 'w impl \<Rightarrow> bool" where
  "keeps_counter s t \<longleftrightarrow> m_taskCounter t = m_taskCounter s"

definition keeps_single :: "'w impl \<Rightarrow> 'w impl \<Rightarrow> bool" where
  "keeps_single s t \<longleftrightarrow> m_connState t = m_connState s"

lemmas transition_defs = TurnToRunning_def TurnToRecovring_def enter_given_up_def
  resetGiveUpTimer_def setGiveUpSignal_def signalShutdown_def task_begin_def task_end_def Let_def

lemma apply_event_keeps:
  "m_lifeState s = GIVEN_UP \<Longrightarrow> m_lifeState (apply_event e s) = GIVEN_UP"
  "m_impl (apply_event e s) = m_impl s"
  "endpointUrl (apply_event e s) = endpointUrl s"
  "m_config (apply_event e s) = m_config s"
  "callbacks (apply_event e s) = callbacks s"
  "m_stop (apply_event e s) = m_stop s"
  "m_watchdogThread (apply_event e s) = m_watchdogThread s"
  "m_shutdown s \<Longrightarrow> m_shutdown (apply_event e s)"
  "\<not> m_running s \<Longrightarrow> \<not> m_running (apply_event e s)"
  "m_taskCounter (apply_event e s) = m_taskCounter s"
  "m_connState (apply_event e s) = m_connState s"
  "world (apply_event e s) = world s"
  by (cases e; simp add: transition_defs)+

lemma transition_world [simp]:
  "world (TurnToRunning s) = world s" "world (TurnToRecovring K s) = world s"
  "world (enter_given_up s) = world s" "world (task_begin s) = world s" "world (task_end s) = world s"
  by (simp_all add: transition_defs)

lemma events_world [simp]: "world (fold apply_event evs s) = world s"
  by (induction evs arbitrary: s) (simp_all add: apply_event_keeps)

interpretation given_up: service_contract keeps_given_up K
  by unfold_locales (auto simp: keeps_given_up_def apply_event_keeps transition_defs)

interpretation identity: service_contract keeps_identity K
  by unfold_locales (auto simp: keeps_identity_def apply_event_keeps transition_defs)

interpretation counter: service_contract keeps_counter K
  by unfold_locales (auto simp: keeps_counter_def apply_event_keeps transition_defs)

interpretation single: service_contract keeps_single K
  by unfold_locales (auto simp: keeps_single_def apply_event_keeps transition_defs)

end
