(* ===== verification/Sim_Sdk.thy ===== *)
theory Sim_Sdk
  imports Impl_State
begin

text \<open>
  A concrete SDK: a server that can be reachable or not, two clocks, a script of service
  results and the number of clients that exist.  It exists to evaluate the model and to show that the documented
  behaviours assumed of the SDK can hold together; nothing is proved from it about
  the real one.
\<close>

record sim =
  sim_ms :: int
  sim_ns :: int
  sim_state :: "u32 \<times> u32 \<times> u32"
  sim_up :: bool
  sim_services :: nat
  sim_script :: "u32 list"
  sim_live :: int

fun sim_code :: "ua_status \<Rightarrow> u32" where
  "sim_code GOOD = 0"
| "sim_code BADCONNECTIONCLOSED = 0x80AE0000"
| "sim_code BADCOMMUNICATIONERROR = 0x80050000"
| "sim_code BADSESSIONIDINVALID = 0x80250000"
| "sim_code BADSECURECHANNELIDINVALID = 0x80220000"
| "sim_code BADNOTCONNECTED = 0x808A0000"
| "sim_code BADSECURECHANNELCLOSED = 0x80860000"
| "sim_code BADSERVERNOTCONNECTED = 0x800D0000"
| "sim_code BADTIMEOUT = 0x800A0000"
| "sim_code BADSESSIONCLOSED = 0x80260000"

fun sim_chan :: "ua_channel \<Rightarrow> u32" where
  "sim_chan CHANNEL_CLOSED = 0"
| "sim_chan CHANNEL_OPEN = 11"

fun sim_sess :: "ua_session \<Rightarrow> u32" where
  "sim_sess SESSION_CLOSED = 0"
| "sim_sess SESSION_ACTIVATED = 4"

definition sim_string :: "string \<Rightarrow> ua_string" where
  "sim_string s = \<lparr>us_length = length (c_str s), us_data = Some (c_str s)\<rparr>"

definition sim_pass :: "nat \<Rightarrow> sim \<Rightarrow> sim" where
  "sim_pass n w = w\<lparr>sim_ms := sim_ms w + int n, sim_ns := sim_ns w + int n * 1000000\<rparr>"

definition sim_connect :: "sim \<Rightarrow> (cpp_exn + u32) \<times> event list \<times> sim" where
  "sim_connect w = (if sim_up w
     then (Inr 0, [StateCb 11 4 0], w\<lparr>sim_state := (11, 4, 0)\<rparr>) else (Inr 0, [], w))"

definition sim_disconnect :: "sim \<Rightarrow> (cpp_exn + u32) \<times> event list \<times> sim" where
  "sim_disconnect w = (Inr 0, [StateCb 0 0 0x808A0000], w\<lparr>sim_state := (0, 0, 0x808A0000)\<rparr>)"

definition sim_read :: "read_request \<Rightarrow> sim \<Rightarrow> (cpp_exn + read_response) \<times> event list \<times> sim" where
  "sim_read q w = (case sim_script w of
       [] \<Rightarrow> (Inr \<lparr>rs_serviceResult = 0,
           rs_results = Some (map (\<lambda>_. \<lparr>dv_status = 0, dv_value =
             \<lparr>v_type = Some UA_INT32, v_arrayLength = 0, v_data = D_Cell (C_int32 7)\<rparr>\<rparr>) (rq_nodesToRead q)),
           rs_resultsSize = length (rq_nodesToRead q), rs_diagnosticInfos = None, rs_diagnosticInfosSize = 0\<rparr>,
         [], w\<lparr>sim_services := sim_services w + 1\<rparr>)
     | r # rest \<Rightarrow> (Inr \<lparr>rs_serviceResult = r, rs_results = None, rs_resultsSize = 3,
           rs_diagnosticInfos = None, rs_diagnosticInfosSize = 2\<rparr>,
         [], w\<lparr>sim_services := sim_services w + 1, sim_script := rest\<rparr>))"

definition sim_write :: "write_request \<Rightarrow> sim \<Rightarrow> (cpp_exn + write_response) \<times> event list \<times> sim" where
  "sim_write q w = (Inr \<lparr>rs_serviceResult = 0, rs_results = Some (map (\<lambda>_. 0) (wq_nodesToWrite q)),
       rs_resultsSize = length (wq_nodesToWrite q), rs_diagnosticInfos = None, rs_diagnosticInfosSize = 0\<rparr>,
     [], w\<lparr>sim_services := sim_services w + 1\<rparr>)"

definition sim_sdk :: "sim sdk" where
  "sim_sdk = \<lparr>
     sdk_isGood = (\<lambda>c. unat c < 2 ^ 30),
     sdk_isBad = (\<lambda>c. 2 ^ 31 \<le> unat c),
     sdk_statusName = (\<lambda>_. None),
     sdk_code = sim_code,
     sdk_chan = sim_chan,
     sdk_sess = sim_sess,
     sdk_isScalar = (\<lambda>v. v_arrayLength v = 0 \<and> is_cell (v_data v)),
     sdk_UA_STRING = sim_string,
     sdk_nodeid_numeric = (\<lambda>ns i. \<lparr>ni_ns = ns, ni_type = IDT_NUMERIC, ni_numeric = i,
       ni_string = \<lparr>us_length = 0, us_data = None\<rparr>\<rparr>),
     sdk_nodeid_string_alloc = (\<lambda>ns s w. (\<lparr>ni_ns = ns, ni_type = IDT_STRING, ni_numeric = 0,
       ni_string = sim_string s\<rparr>, w)),
     sdk_set_scalar_copy = (\<lambda>c ty w. ((0, \<lparr>v_type = Some ty, v_arrayLength = 0, v_data = D_Cell c\<rparr>), w)),
     sdk_array_new = (\<lambda>n w. (True, w)),
     sdk_clientNew = (\<lambda>w. (Inr (Some 1), [], w\<lparr>sim_live := sim_live w + 1\<rparr>)),
     sdk_clientDelete = (\<lambda>c w. (Inr (), [], w\<lparr>sim_live := sim_live w - 1\<rparr>)),
     sdk_connectAsync = (\<lambda>c url. sim_connect),
     sdk_disconnectAsync = (\<lambda>c. sim_disconnect),
     sdk_runIterate = (\<lambda>c n w. (Inr 0, [], sim_pass (Suc n) w)),
     sdk_getState = (\<lambda>c w. (Inr (sim_state w), [], w)),
     sdk_getConfig = (\<lambda>c w. (Inr (Some True), [], w)),
     sdk_serviceRead = (\<lambda>c. sim_read),
     sdk_serviceWrite = (\<lambda>c. sim_write),
     sdk_nowMs = (\<lambda>w. (Inr (sim_ms w), [], w)),
     wall_now = (\<lambda>w. (Inr (sim_ns w), [], w)),
     wait_ms = (\<lambda>n w. (Inr (), [], sim_pass n w)),
     spawn_thread = (\<lambda>w. (Inr (), [], w)),
     join_thread = (\<lambda>w. (Inr (), [], w))\<rparr>"

lemmas sim_defs = sim_sdk_def sim_pass_def sim_connect_def sim_disconnect_def sim_read_def sim_write_def

definition sim_world :: sim where
  "sim_world = \<lparr>sim_ms = 1000, sim_ns = 0, sim_state = (0, 0, 0x808A0000), sim_up = True,
     sim_services = 0, sim_script = [], sim_live = 0\<rparr>"

definition sim_config :: client_config where
  "sim_config = applyProfile PROFILE_LOCAL default_config"

text \<open>A fresh object, and one that is connected.\<close>

definition sim_fresh :: "sim impl" where
  "sim_fresh = new_impl sim_sdk sim_config ''opc.tcp://plc:4840'' 1 sim_world"

definition sim_online :: "sim impl" where
  "sim_online = sim_fresh\<lparr>callbacks := True, state_packed := packState 0 11 4 1,
     world := sim_world\<lparr>sim_state := (11, 4, 0)\<rparr>\<rparr>"

lemma sim_severity: "severity_documented sim_sdk"
proof -
  have "2 ^ 31 \<le> unat (sim_code n)" if "n \<noteq> GOOD" for n
    using that by (cases n) simp_all
  then show ?thesis by (simp add: severity_documented_def sim_sdk_def)
qed

lemma sim_states: "states_documented sim_sdk"
proof -
  have "unat (sim_chan c) < 256" for c by (cases c) simp_all
  moreover have "unat (sim_sess c) < 256" for c by (cases c) simp_all
  ultimately show ?thesis by (simp add: states_documented_def sim_sdk_def)
qed

lemma sim_scalar: "scalar_documented sim_sdk"
  by (simp add: scalar_documented_def sim_sdk_def)

lemma sim_copy: "copy_documented sim_sdk"
  by (simp add: copy_documented_def sim_sdk_def)

lemma sim_strings: "strings_documented sim_sdk"
  by (simp add: strings_documented_def sim_sdk_def sim_string_def)

lemma sim_online_unpack: "unpackState (state_packed sim_online) =
  \<lparr>f_status = 0, f_channel = 11, f_session = 4, f_version = 1\<rparr>"
  by (simp add: sim_online_def unpack_pack)

lemma sim_online_healthy: "isHealthyCached sim_sdk sim_online"
  using sim_online_unpack
  by (simp add: isHealthyCached_def triple_ready_def sim_sdk_def sim_online_def sim_fresh_def new_impl_def)

end
