(* ===== verification/Backoff.thy ===== *)
theory Backoff
  imports Impl_State
begin

text \<open>
  \<open>Impl::calculateBackoff\<close> and \<open>Impl::delayFunction\<close> of \<open>src/OPCUAPacking/ua.cpp\<close>:
  the exponential backoff and the interruptible sleep in segments of 100 ms.
\<close>

section \<open>The backoff\<close>

definition calculateBackoff :: "client_config \<Rightarrow> u32 \<Rightarrow> u32" where
  "calculateBackoff cfg retry =
     (let base = ucast (retryBackoffBaseMs cfg) :: u64;
          cap = ucast (retryMaxBackoffMs cfg) :: u64 in
      if 32 \<le> retry then ucast cap
      else let delay = push_bit (unat retry) base;
               delay = (if cap < delay then cap else delay) in
        ucast delay)"

lemma unat_ucast_u64_u32: "unat (x :: u64) < 2 ^ 32 \<Longrightarrow> unat (ucast x :: u32) = unat x"
  by (simp add: unsigned_ucast_eq take_bit_nat_eq_self)

lemma shift_no_wrap:
  assumes "n < 32"
  shows "unat (push_bit n (ucast (b :: u32) :: u64)) = unat b * 2 ^ n"
proof -
  have b: "unat b < 2 ^ 32" using unat_u32_less [of b] by simp
  have "(2::nat) ^ n < 2 ^ 32" using assms by (intro power_strict_increasing) simp_all
  with b have "unat b * 2 ^ n < 2 ^ 32 * 2 ^ 32" by (intro mult_strict_mono') simp_all
  then have "push_bit n (unat b) < 2 ^ 64" by (simp add: push_bit_eq_mult)
  then show ?thesis
    by (simp add: unsigned_push_bit_eq take_bit_nat_eq_self del: push_bit_of_nat)
      (simp add: push_bit_eq_mult)
qed

lemma calculateBackoff_large:
  assumes "\<not> retry < 32"
  shows "calculateBackoff cfg retry = retryMaxBackoffMs cfg"
proof (rule unsigned_word_eqI)
  show "unat (calculateBackoff cfg retry) = unat (retryMaxBackoffMs cfg)"
    using assms unat_u32_less [of "retryMaxBackoffMs cfg"]
    by (simp add: calculateBackoff_def Let_def unat_ucast_u64_u32 not_less)
qed

text \<open>
  C34: the backoff of retry \<open>n\<close> is \<open>base * 2 ^ n\<close> capped by the configured maximum:
  the 64-bit shift never loses a bit before the comparison, and from retry 32 on,
  where the source returns the cap without shifting, any base but zero would have
  reached the cap anyway.
\<close>

theorem calculateBackoff_exact:
  "unat (calculateBackoff cfg retry) =
     (if retryBackoffBaseMs cfg = 0 \<and> 32 \<le> retry then unat (retryMaxBackoffMs cfg)
      else min (unat (retryBackoffBaseMs cfg) * 2 ^ unat retry) (unat (retryMaxBackoffMs cfg)))"
proof (cases "32 \<le> retry")
  case True
  then have r: "32 \<le> unat retry" and eq: "calculateBackoff cfg retry = retryMaxBackoffMs cfg"
    using calculateBackoff_large [of retry cfg] by (simp_all add: word_le_nat_alt not_less)
  have "unat (retryMaxBackoffMs cfg) \<le> unat (retryBackoffBaseMs cfg) * 2 ^ unat retry"
    if "retryBackoffBaseMs cfg \<noteq> 0"
  proof -
    from that have pos: "1 \<le> unat (retryBackoffBaseMs cfg)" by (simp add: unat_eq_0 Suc_le_eq unat_gt_0)
    have "unat (retryMaxBackoffMs cfg) < 2 ^ 32" using unat_u32_less [of "retryMaxBackoffMs cfg"] by simp
    also have "(2::nat) ^ 32 \<le> 2 ^ unat retry" using r by (intro power_increasing) simp_all
    also have "\<dots> \<le> unat (retryBackoffBaseMs cfg) * 2 ^ unat retry" using pos by simp
    finally show ?thesis by simp
  qed
  with True eq show ?thesis by (auto simp: min_def)
next
  case False
  then have r: "unat retry < 32" by (simp add: word_le_nat_alt)
  have sh: "unat (push_bit (unat retry) (ucast (retryBackoffBaseMs cfg) :: u64))
      = unat (retryBackoffBaseMs cfg) * 2 ^ unat retry"
    using r by (rule shift_no_wrap)
  have cap: "unat (retryMaxBackoffMs cfg) < 2 ^ 32"
    using unat_u32_less [of "retryMaxBackoffMs cfg"] by simp
  show ?thesis
    using False sh cap
    by (auto simp: calculateBackoff_def Let_def word_less_nat_alt unat_ucast_u64_u32 min_def not_less)
qed

lemma calculateBackoff_le_cap: "calculateBackoff cfg retry \<le> retryMaxBackoffMs cfg"
proof (cases "retry < 32")
  case True
  have cap: "unat (retryMaxBackoffMs cfg) < 2 ^ 32"
    using unat_u32_less [of "retryMaxBackoffMs cfg"] by simp
  from True cap show ?thesis
    by (auto simp: calculateBackoff_def Let_def word_less_nat_alt word_le_nat_alt unat_ucast_u64_u32 not_less)
qed (simp add: calculateBackoff_large)

section \<open>The interruptible delay\<close>

text \<open>
  \<open>wait_for\<close> on a condition variable with the stop predicate: no wait when the
  predicate already holds.
\<close>

definition wait_unless_stopped :: "'w sdk \<Rightarrow> nat \<Rightarrow> ('w impl, unit) cpp" where
  "wait_unless_stopped K ms = bindE (readE getEffectiveStopSignal) (\<lambda>stop.
     if stop then ret () else sdkCall (wait_ms K ms))"

function delay_loop :: "'w sdk \<Rightarrow> u32 \<Rightarrow> u32 \<Rightarrow> ('w impl, unit) cpp" where
  "delay_loop K backoffMs elapsedMs =
     (if elapsedMs < backoffMs then
        let sleepMs = min 100 (backoffMs - elapsedMs) in
        bindE (readE getEffectiveStopSignal) (\<lambda>stop.
        if stop then ret ()
        else thenE (wait_unless_stopped K (unat sleepMs))
               (delay_loop K backoffMs (elapsedMs + sleepMs)))
      else ret ())"
  by pat_completeness auto

lemma segment_length:
  fixes b e :: u32
  assumes "e < b"
  shows "unat (min 100 (b - e)) = min 100 (unat b - unat e)"
proof -
  have "unat (b - e) = unat b - unat e"
    using assms by (simp add: unat_sub word_less_nat_alt word_le_nat_alt)
  then show ?thesis by (simp add: min_def word_le_nat_alt)
qed

lemma segment_step:
  fixes b e :: u32
  assumes "e < b"
  shows "unat (e + min 100 (b - e)) = unat e + min 100 (unat b - unat e)"
proof -
  have "unat e + min 100 (unat b - unat e) \<le> unat b"
    using assms by (simp add: word_less_nat_alt)
  then have "unat e + unat (min 100 (b - e)) < 2 ^ 32"
    using segment_length [OF assms] unat_u32_less [of b] by simp
  then show ?thesis
    using segment_length [OF assms] by (simp add: unat_word_ariths)
qed

lemma segment_progress:
  fixes b e :: u32
  assumes "e < b"
  shows "unat b - unat (e + min 100 (b - e)) < unat b - unat e"
  using assms unfolding segment_step [OF assms] word_less_nat_alt by linarith

termination delay_loop
  by (relation "measure (\<lambda>(K, b, e). unat b - unat e)") (simp_all add: segment_progress)

declare delay_loop.simps [simp del]

definition delayFunction :: "'w sdk \<Rightarrow> u32 \<Rightarrow> ('w impl, unit) cpp" where
  "delayFunction K retry = bindE (readE m_config) (\<lambda>cfg.
     let backoffMs = calculateBackoff cfg retry in
     if backoffMs = 0 then ret () else delay_loop K backoffMs 0)"

text \<open>The world after sleeping through a backoff in segments.\<close>

lemma delay_loop_waits:
  assumes wait: "\<And>ms w. wait_ms K ms w = (Inr (), [], pass ms w)"
    and clock: "\<And>ms w. clk (pass ms w) = clk w + ms"
    and live: "\<not> getEffectiveStopSignal s"
  shows "\<exists>w'. delay_loop K b e s = (Ret (), s\<lparr>world := w'\<rparr>) \<and>
    clk w' = clk (world s) + (unat b - unat e)"
  using live
proof (induction "unat b - unat e" arbitrary: e s rule: less_induct)
  case less
  show ?case
  proof (cases "e < b")
    case False
    then have "delay_loop K b e s = (Ret (), s\<lparr>world := world s\<rparr>)"
      by (subst delay_loop.simps) simp
    with False show ?thesis
      by (intro exI [of _ "world s"]) (simp add: word_less_nat_alt)
  next
    case True
    let ?m = "min 100 (b - e)"
    let ?s = "s\<lparr>world := pass (unat ?m) (world s)\<rparr>"
    have live': "\<not> getEffectiveStopSignal ?s" using less.prems by (simp add: getEffectiveStopSignal_def)
    have step: "delay_loop K b e s = delay_loop K b (e + ?m) ?s"
      using True less.prems
      by (subst delay_loop.simps)
        (simp add: Let_def bindE_readE thenE_def bindE_def wait_unless_stopped_def sdkCall_def wait)
    from less.hyps [OF segment_progress [OF True] live'] obtain w' where
      w': "delay_loop K b (e + ?m) ?s = (Ret (), ?s\<lparr>world := w'\<rparr>)"
        "clk w' = clk (pass (unat ?m) (world s)) + (unat b - unat (e + ?m))" by auto
    have "unat e < unat b" using True by (simp add: word_less_nat_alt)
    with w'(2) have "clk w' = clk (world s) + (unat b - unat e)"
      unfolding clock segment_length [OF True] segment_step [OF True] by linarith
    with step w'(1) show ?thesis by auto
  qed
qed

text \<open>
  \<open>delayFunction(retry)\<close> sleeps for exactly the backoff of that retry when
  nothing stops the client (the segments of 100 ms and the shorter last one add up),
  changes nothing but the clock, and does not wait at all once the stop signal is
  up.
\<close>

theorem delayFunction_waits:
  assumes "\<And>ms w. wait_ms K ms w = (Inr (), [], pass ms w)"
    and "\<And>ms w. clk (pass ms w) = clk w + ms"
  shows "if getEffectiveStopSignal s then delayFunction K retry s = (Ret (), s)
    else \<exists>w'. delayFunction K retry s = (Ret (), s\<lparr>world := w'\<rparr>) \<and>
      clk w' = clk (world s) + unat (calculateBackoff (m_config s) retry)"
proof (cases "getEffectiveStopSignal s")
  case True
  then have "delay_loop K b 0 s = (Ret (), s)" for b
    by (subst delay_loop.simps) (simp add: Let_def bindE_readE)
  with True show ?thesis by (simp add: delayFunction_def bindE_readE Let_def)
next
  case False
  let ?b = "calculateBackoff (m_config s) retry"
  have "\<exists>w'. delay_loop K ?b 0 s = (Ret (), s\<lparr>world := w'\<rparr>) \<and>
      clk w' = clk (world s) + (unat ?b - unat (0::u32))"
    using assms False by (rule delay_loop_waits)
  moreover have "s = s\<lparr>world := world s\<rparr>" by simp
  ultimately show ?thesis
    using False by (auto simp: delayFunction_def bindE_readE Let_def intro: exI [of _ "world s"])
qed

context impl_contract
begin

lemma g_wait_unless_stopped: "guar R (wait_unless_stopped K ms)"
  unfolding wait_unless_stopped_def by (intro c_intros)

lemma g_delay_loop: "guar R (delay_loop K b e)"
proof (induction "unat b - unat e" arbitrary: e rule: less_induct)
  case less
  show ?case
    by (subst delay_loop.simps, unfold Let_def)
      (intro g_if g_bind g_read g_ret g_then g_wait_unless_stopped less segment_progress)
qed

lemma g_delay: "guar R (delayFunction K retry)"
  unfolding delayFunction_def by (intro c_intros g_delay_loop)

end

end
