(* ===== verification/Impl_Connect.thy ===== *)
theory Impl_Connect
  imports Impl_State
begin

text \<open>
  \<open>Impl::isConnected\<close>, \<open>Impl::connect\<close> and \<open>Impl::disconnect\<close> of
  \<open>src/OPCUAPacking/ua.cpp\<close>.  The two polling loops take a bound on their iterations
  and give \<open>Diverge\<close> when it is used up; both clocks of a loop are read where the
  source reads them: the virtual clock of the SDK in milliseconds, the wall clock in
  nanoseconds.
\<close>

section \<open>The health probe\<close>

definition isConnected :: "'w sdk \<Rightarrow> nat \<Rightarrow> ('w impl, (bool, connect_error) result) cpp" where
  "isConnected K iterateTimeoutMs =
     bindE (readE getEffectiveStopSignal) (\<lambda>stop.
     if stop then ret (Error CE_SHUTDOWN)
     else bindE (readE m_impl) (\<lambda>i.
     case i of None \<Rightarrow> ret (Error CE_NULLPTR)
     | Some client \<Rightarrow>
       thenE (callRunIterate K client iterateTimeoutMs)
       (bindE (readE state_packed) (\<lambda>expected.
        bindE (sdkCall (sdk_getState K client)) (\<lambda>(channelState, sessionState, statusCode).
        thenE (modifyE (\<lambda>s. s\<lparr>state_packed := snd (tryPublishIfUnchanged expected statusCode
                   channelState sessionState (state_packed s))\<rparr>))
        (thenE (if \<not> sdk_isGood K statusCode then updateBadStatusTime K else ret ())
          (readE (\<lambda>s. Success (isHealthyCached K s)))))))))"

section \<open>connect\<close>

text \<open>
  \<open>2 * timeoutMs + 500\<close> is computed in \<open>uint32_t\<close>; the deadline is in nanoseconds of
  the wall clock.
\<close>

definition wall_budget_ms :: "client_config \<Rightarrow> u32" where
  "wall_budget_ms c = 2 * timeoutMs c + 500"

definition wall_deadline :: "client_config \<Rightarrow> int \<Rightarrow> int" where
  "wall_deadline c now = now + uint (wall_budget_ms c) * 1000000"

text \<open>The end of a timed-out \<open>connect()\<close>: one last probe, then give the attempt up.\<close>

definition connect_abort :: "'w sdk \<Rightarrow> nat \<Rightarrow> ('w impl, (unit, connect_error) result) cpp" where
  "connect_abort K client =
     thenE (sdkCall (sdk_disconnectAsync K client))
     (thenE (modifyE (TurnToRecovring K))
       (ret (Error CE_TIMEOUT_NOTCONNECT)))"

definition connect_last :: "'w sdk \<Rightarrow> nat \<Rightarrow> ('w impl, (unit, connect_error) result) cpp" where
  "connect_last K client = bindE (isConnected K 50) (\<lambda>r. case r of
       Error e \<Rightarrow>
         if e = CE_SHUTDOWN then ret (Error CE_SHUTDOWN)
         else if e = CE_NULLPTR then ret (Error CE_NULLPTR)
         else connect_abort K client
     | Success _ \<Rightarrow> bindE (readE (isHealthyCached K)) (\<lambda>healthy.
         if healthy then thenE (modifyE TurnToRunning) (ret (Success ()))
         else connect_abort K client))"

text \<open>
  One pass of the loop: probe and success test, then the two time limits, then the
  stop test; \<open>again\<close> is the next pass.
\<close>

definition connect_rest ::
  "'w sdk \<Rightarrow> nat \<Rightarrow> int \<Rightarrow> int \<Rightarrow> ('w impl, (unit, connect_error) result) cpp
     \<Rightarrow> ('w impl, (unit, connect_error) result) cpp" where
  "connect_rest K client start wallDeadline again =
     bindE (nowMsImpl K) (\<lambda>now.
     bindE (sdkCall (wall_now K)) (\<lambda>wall.
     bindE (readE (\<lambda>s. uint (timeoutMs (m_config s)))) (\<lambda>timeout.
     if timeout < now - start \<or> wallDeadline \<le> wall then connect_last K client
     else bindE (readE getEffectiveStopSignal) (\<lambda>stop.
       if stop then ret (Error CE_SHUTDOWN) else again))))"

definition connect_iter ::
  "'w sdk \<Rightarrow> nat \<Rightarrow> int \<Rightarrow> int \<Rightarrow> ('w impl, (unit, connect_error) result) cpp
     \<Rightarrow> ('w impl, (unit, connect_error) result) cpp" where
  "connect_iter K client start wallDeadline again =
     bindE (isConnected K 50) (\<lambda>r. case r of
       Error e \<Rightarrow>
         if e = CE_SHUTDOWN then ret (Error CE_SHUTDOWN)
         else if e = CE_NULLPTR then ret (Error CE_NULLPTR)
         else connect_rest K client start wallDeadline again
     | Success _ \<Rightarrow> bindE (readE (\<lambda>s. triple_ready K (state_packed s))) (\<lambda>ready.
         if ready then thenE (modifyE TurnToRunning) (ret (Success ()))
         else connect_rest K client start wallDeadline again))"

primrec connect_loop ::
  "'w sdk \<Rightarrow> nat \<Rightarrow> int \<Rightarrow> int \<Rightarrow> nat \<Rightarrow> ('w impl, (unit, connect_error) result) cpp" where
  "connect_loop K client start wallDeadline 0 = divergeE"
| "connect_loop K client start wallDeadline (Suc n) =
     connect_iter K client start wallDeadline (connect_loop K client start wallDeadline n)"

definition connect_body :: "'w sdk \<Rightarrow> nat \<Rightarrow> nat \<Rightarrow> ('w impl, (unit, connect_error) result) cpp" where
  "connect_body K fuel client =
     bindE (readE endpointUrl) (\<lambda>url.
     bindE (sdkCall (sdk_connectAsync K client url)) (\<lambda>retval.
     if \<not> sdk_isGood K retval then
       thenE (modifyE (TurnToRecovring K)) (ret (Error CE_CONNECT_FAILED))
     else
       bindE (nowMsImpl K) (\<lambda>start.
       bindE (sdkCall (wall_now K)) (\<lambda>wall.
       bindE (readE m_config) (\<lambda>cfg.
       connect_loop K client start (wall_deadline cfg wall) fuel)))))"

definition connect_busy :: "conn_state \<Rightarrow> ('w impl, (unit, connect_error) result) cpp" where
  "connect_busy expected =
     (if expected = CONNECTING then ret (Error CE_THREADBUSY) else ret (Error CE_UNKNOWN))"

definition impl_connect :: "'w sdk \<Rightarrow> nat \<Rightarrow> ('w impl, (unit, connect_error) result) cpp" where
  "impl_connect K fuel = in_flight (
     bindE (readE getEffectiveStopSignal) (\<lambda>stop.
     if stop then ret (Error CE_SHUTDOWN)
     else bindE (readE getEffectiveStopSignal) (\<lambda>stop'.
     if stop' then ret (Error CE_SHUTDOWN)
     else bindE (readE m_impl) (\<lambda>i.
     case i of None \<Rightarrow> ret (Error CE_NULLPTR)
     | Some client \<Rightarrow> cas_guard connect_busy (connect_body K fuel client)))))"

section \<open>disconnect\<close>

definition disconnect_timeout :: "'w sdk \<Rightarrow> nat \<Rightarrow> ('w impl, (unit, disconnect_error) result) cpp" where
  "disconnect_timeout K client =
     bindE (sdkCall (sdk_getState K client)) (\<lambda>(cs, ss, sc).
     if cs = sdk_chan K CHANNEL_CLOSED then
       thenE (modifyE (TurnToRecovring K)) (ret (Success ()))
     else
       thenE (sdkCall (sdk_disconnectAsync K client))
       (thenE (modifyE (TurnToRecovring K))
         (ret (Error DE_TIMEOUT_NOTDISCONNECT))))"

definition disconnect_rest ::
  "'w sdk \<Rightarrow> nat \<Rightarrow> int \<Rightarrow> int \<Rightarrow> ('w impl, (unit, disconnect_error) result) cpp
     \<Rightarrow> ('w impl, (unit, disconnect_error) result) cpp" where
  "disconnect_rest K client start wallDeadline again =
     bindE (nowMsImpl K) (\<lambda>now.
     bindE (sdkCall (wall_now K)) (\<lambda>wall.
     bindE (readE (\<lambda>s. uint (timeoutMs (m_config s)))) (\<lambda>timeout.
     if timeout < now - start \<or> wallDeadline \<le> wall then disconnect_timeout K client
     else bindE (readE getEffectiveStopSignal) (\<lambda>stop.
       if stop then ret (Error DE_SHUTDOWN)
       else thenE (sdkCall (wait_ms K 50)) again))))"

definition disconnect_iter ::
  "'w sdk \<Rightarrow> nat \<Rightarrow> int \<Rightarrow> int \<Rightarrow> ('w impl, (unit, disconnect_error) result) cpp
     \<Rightarrow> ('w impl, (unit, disconnect_error) result) cpp" where
  "disconnect_iter K client start wallDeadline again =
     bindE (isConnected K 50) (\<lambda>r. case r of
       Error e \<Rightarrow>
         if e = CE_SHUTDOWN then ret (Error DE_SHUTDOWN) else ret (Error DE_NULLPTR)
     | Success _ \<Rightarrow>
         bindE (readE (\<lambda>s. unpackState (state_packed s))) (\<lambda>f.
         thenE (if \<not> sdk_isGood K (f_status f) then updateBadStatusTime K else ret ())
         (if f_channel f = sdk_chan K CHANNEL_CLOSED then
            thenE (modifyE (TurnToRecovring K)) (ret (Success ()))
          else disconnect_rest K client start wallDeadline again)))"

primrec disconnect_loop ::
  "'w sdk \<Rightarrow> nat \<Rightarrow> int \<Rightarrow> int \<Rightarrow> nat \<Rightarrow> ('w impl, (unit, disconnect_error) result) cpp" where
  "disconnect_loop K client start wallDeadline 0 = divergeE"
| "disconnect_loop K client start wallDeadline (Suc n) =
     disconnect_iter K client start wallDeadline (disconnect_loop K client start wallDeadline n)"

definition disconnect_body ::
  "'w sdk \<Rightarrow> nat \<Rightarrow> nat \<Rightarrow> ('w impl, (unit, disconnect_error) result) cpp" where
  "disconnect_body K fuel client =
     bindE (sdkCall (sdk_disconnectAsync K client)) (\<lambda>retval.
     if \<not> sdk_isGood K retval then
       thenE (modifyE (TurnToRecovring K)) (ret (Error DE_DISCONNECT_FAIL))
     else
       bindE (nowMsImpl K) (\<lambda>start.
       bindE (sdkCall (wall_now K)) (\<lambda>wall.
       bindE (readE m_config) (\<lambda>cfg.
       disconnect_loop K client start (wall_deadline cfg wall) fuel))))"

definition disconnect_busy :: "conn_state \<Rightarrow> ('w impl, (unit, disconnect_error) result) cpp" where
  "disconnect_busy expected =
     (if expected = CONNECTING then ret (Error DE_THREADBUSY) else ret (Error DE_UNKNOWN))"

definition impl_disconnect :: "'w sdk \<Rightarrow> nat \<Rightarrow> ('w impl, (unit, disconnect_error) result) cpp" where
  "impl_disconnect K fuel = in_flight (
     bindE (readE m_impl) (\<lambda>i.
     case i of None \<Rightarrow> ret (Error DE_NULLPTR)
     | Some client \<Rightarrow>
       bindE (readE getEffectiveStopSignal) (\<lambda>stop.
       if stop then ret (Error DE_SHUTDOWN)
       else cas_guard disconnect_busy (disconnect_body K fuel client))))"

section \<open>Contracts\<close>

context impl_contract
begin

lemma g_result:
  "(\<And>v. guar R (f v)) \<Longrightarrow> (\<And>e. guar R (g e)) \<Longrightarrow>
     guar R (case r of Success v \<Rightarrow> f v | Error e \<Rightarrow> g e)"
  by (cases r) simp_all

lemma g_pair: "(\<And>a b. guar R (f a b)) \<Longrightarrow> guar R (case p of (a, b) \<Rightarrow> f a b)"
  by (cases p) simp

lemma g_prod3: "(\<And>a b c. guar R (f a b c)) \<Longrightarrow> guar R (case p of (a, b, c) \<Rightarrow> f a b c)"
  by (cases p) simp

lemma g_isConnected: "guar R (isConnected K tmo)"
  unfolding isConnected_def by (intro c_intros g_prod3)

lemma g_connect_last: "guar R (connect_last K c)"
  unfolding connect_last_def connect_abort_def by (intro c_intros g_isConnected g_result)

lemma g_connect_loop: "guar R (connect_loop K c t0 dl n)"
proof (induction n)
  case 0
  show ?case unfolding connect_loop.simps by (rule g_diverge)
next
  case (Suc n)
  show ?case
    unfolding connect_loop.simps connect_iter_def connect_rest_def
    by (intro c_intros g_isConnected g_connect_last g_result Suc.IH)
qed

lemma g_connect: "guar R (impl_connect K n)"
  unfolding impl_connect_def connect_body_def connect_busy_def
  by (intro c_intros g_connect_loop)

lemma g_disconnect_loop: "guar R (disconnect_loop K c t0 dl n)"
proof (induction n)
  case 0
  show ?case unfolding disconnect_loop.simps by (rule g_diverge)
next
  case (Suc n)
  show ?case
    unfolding disconnect_loop.simps disconnect_iter_def disconnect_rest_def disconnect_timeout_def
    by (intro c_intros g_isConnected g_result g_prod3 Suc.IH)
qed

lemma g_disconnect: "guar R (impl_disconnect K n)"
  unfolding impl_disconnect_def disconnect_body_def disconnect_busy_def
  by (intro c_intros g_disconnect_loop)

end

end
