(* ===== verification/Impl_Batch.thy ===== *)
theory Impl_Batch
  imports Backoff Impl_Connect
begin

text \<open>
  \<open>Impl::batchRead\<close> and \<open>Impl::batchWrite\<close> of \<open>src/OPCUAPacking/ua.cpp\<close> with the
  response guards and \<open>safeStatusCodeName\<close>.  Clearing a response whose array pointer
  is null while its size is not, and reading past the end of an array, are \<open>Fault\<close>.
\<close>

section \<open>Requests and results\<close>

record write_item =
  wi_node :: node_id
  wi_value :: value_type

record read_result =
  rr_rawStatus :: u32
  rr_errorCode :: error_code
  rr_value :: "value_type option"

datatype write_status = Good | Bad

record write_result =
  wr_status :: write_status
  wr_errorCode :: error_code
  wr_rawStatus :: u32

definition empty_nodeid :: ua_nodeid where
  "empty_nodeid = \<lparr>ni_ns = 0, ni_type = IDT_NUMERIC, ni_numeric = 0,
     ni_string = \<lparr>us_length = 0, us_data = None\<rparr>\<rparr>"

text \<open>\<open>UA_WriteValue_init\<close>.\<close>

definition init_write_value :: write_value where
  "init_write_value = \<lparr>wv_nodeId = empty_nodeid, wv_attributeId = ATTR_UNSET, wv_hasValue = False,
     wv_value = \<lparr>v_type = None, v_arrayLength = 0, v_data = D_Null\<rparr>\<rparr>"

section \<open>Response guards\<close>

text \<open>The destructors of \<open>ReadResponseGuard\<close> and \<open>WriteResponseGuard\<close> before the clear.\<close>

definition neutralise :: "'i response \<Rightarrow> 'i response" where
  "neutralise r =
     (let r1 = (if rs_results r = None \<and> 0 < rs_resultsSize r then r\<lparr>rs_resultsSize := 0\<rparr> else r) in
      if rs_diagnosticInfos r1 = None \<and> 0 < rs_diagnosticInfosSize r1
      then r1\<lparr>rs_diagnosticInfosSize := 0\<rparr> else r1)"

text \<open>\<open>UA_Array_delete(nullptr, n)\<close> with \<open>n > 0\<close> dereferences the null pointer.\<close>

definition clear_ok :: "'i response \<Rightarrow> bool" where
  "clear_ok r \<longleftrightarrow> \<not> (rs_results r = None \<and> 0 < rs_resultsSize r) \<and>
     \<not> (rs_diagnosticInfos r = None \<and> 0 < rs_diagnosticInfosSize r)"

definition response_scope :: "'i response \<Rightarrow> ('w impl, 'a) cpp \<Rightarrow> ('w impl, 'a) cpp" where
  "response_scope r m = (\<lambda>s. case m s of (x, s') \<Rightarrow>
     if clear_ok (neutralise r) then (x, s') else (Fault, s'))"

lemma clear_ok_neutralise [simp]: "clear_ok (neutralise r)"
  by (simp add: clear_ok_def neutralise_def Let_def)

lemma response_scope_id [simp]: "response_scope r m = m"
  by (simp add: response_scope_def fun_eq_iff split: prod.splits)

section \<open>Status names\<close>

definition hex_digit :: "nat \<Rightarrow> char" where
  "hex_digit d = (if d < 10 then char_of (48 + d) else char_of (55 + d))"

fun hex_digits :: "nat \<Rightarrow> nat \<Rightarrow> string" where
  "hex_digits 0 n = []"
| "hex_digits (Suc k) n = hex_digits k (n div 16) @ [hex_digit (n mod 16)]"

text \<open>\<open>snprintf("0x%08X")\<close> for a status the SDK has no name for.\<close>

definition safeStatusCodeName :: "'w sdk \<Rightarrow> u32 \<Rightarrow> string" where
  "safeStatusCodeName K code = (case sdk_statusName K code of
       Some (c # cs) \<Rightarrow> c # cs
     | _ \<Rightarrow> ''0x'' @ hex_digits 8 (unat code))"

section \<open>Gates shared by both operations\<close>

text \<open>
  The life-state and single-flight tests in their order; the arguments are the
  messages of the call site.
\<close>

definition state_gate :: "string \<Rightarrow> string \<Rightarrow> string \<Rightarrow> 'w impl \<Rightarrow> rich_error option" where
  "state_gate given_up_msg recovering_msg busy_msg s =
     (if m_lifeState s = GIVEN_UP then Some (RichError EC_NOT_CONNECTED given_up_msg)
      else if m_lifeState s = RECOVERING then Some (RichError EC_NOT_CONNECTED recovering_msg)
      else if m_connState s \<noteq> IDLE then Some (RichError EC_THREAD_BUSY busy_msg)
      else None)"

definition gateE ::
  "('w impl \<Rightarrow> rich_error option) \<Rightarrow> ('w impl, ('a, rich_error) result) cpp
     \<Rightarrow> ('w impl, ('a, rich_error) result) cpp" where
  "gateE g k = bindE (readE g) (\<lambda>e. case e of Some err \<Rightarrow> ret (Error err) | None \<Rightarrow> k)"

definition stop_gate :: "string \<Rightarrow> 'w impl \<Rightarrow> rich_error option" where
  "stop_gate msg s =
     (if getEffectiveStopSignal s then Some (RichError EC_ALREADY_TERMINATED msg) else None)"

definition outcomeE :: "'a outcome \<Rightarrow> ('s, 'a) cpp" where
  "outcomeE r = (\<lambda>s. (r, s))"

section \<open>batchRead\<close>

primrec read_items ::
  "'w sdk \<Rightarrow> node_id list \<Rightarrow> ('w, (read_value_id list, rich_error) result) cpp" where
  "read_items K [] = ret (Success [])"
| "read_items K (n # ns) = bindE (uaNodeIDAlloc K n empty_nodeid) (\<lambda>(r, nid). case r of
       Error e \<Rightarrow> ret (Error e)
     | Success _ \<Rightarrow> bindE (read_items K ns) (\<lambda>rest. case rest of
           Error e \<Rightarrow> ret (Error e)
         | Success items \<Rightarrow>
             ret (Success (\<lparr>rv_nodeId = nid, rv_attributeId = ATTR_VALUE\<rparr> # items))))"

text \<open>The nine service results after which the read is tried again.\<close>

definition retryable :: "'w sdk \<Rightarrow> u32 \<Rightarrow> bool" where
  "retryable K sr \<longleftrightarrow>
     sr = sdk_code K BADCONNECTIONCLOSED \<or> sr = sdk_code K BADCOMMUNICATIONERROR \<or>
     sr = sdk_code K BADSESSIONIDINVALID \<or> sr = sdk_code K BADSECURECHANNELIDINVALID \<or>
     sr = sdk_code K BADNOTCONNECTED \<or> sr = sdk_code K BADSECURECHANNELCLOSED \<or>
     sr = sdk_code K BADSERVERNOTCONNECTED \<or> sr = sdk_code K BADTIMEOUT \<or>
     sr = sdk_code K BADSESSIONCLOSED"

definition read_one :: "'w sdk \<Rightarrow> s7_type \<Rightarrow> data_value \<Rightarrow> read_result outcome" where
  "read_one K ty item =
     (if sdk_isGood K (dv_status item) then
        (case read_dispatch K ty (dv_value item) None of
           Ret (r, v) \<Rightarrow> Ret \<lparr>rr_rawStatus = dv_status item,
             rr_errorCode = (case r of Error e \<Rightarrow> err_code e | Success _ \<Rightarrow> EC_OK), rr_value = v\<rparr>
         | _ \<Rightarrow> Fault)
      else Ret \<lparr>rr_rawStatus = dv_status item, rr_errorCode = EC_SDK_ERROR, rr_value = None\<rparr>)"

primrec read_results :: "'w sdk \<Rightarrow> node_id list \<Rightarrow> data_value list \<Rightarrow> read_result list outcome" where
  "read_results K [] items = Ret []"
| "read_results K (n # ns) items = (case items of
       [] \<Rightarrow> Fault
     | i # is \<Rightarrow> (case read_one K (nd_dataType n) i of
           Ret r \<Rightarrow> (case read_results K ns is of Ret rs \<Rightarrow> Ret (r # rs) | _ \<Rightarrow> Fault)
         | _ \<Rightarrow> Fault))"

definition read_fail_text :: "read_response \<Rightarrow> string" where
  "read_fail_text resp = ''read fail : read_response.responseHeader.serviceResult : '' @
     u32_str (rs_serviceResult resp) @ '' read_response.resultsSize : '' @
     nat_to_string (rs_resultsSize resp)"

text \<open>
  What one response leads to: \<open>None\<close> is the next round of the loop.
\<close>

definition read_outcome ::
  "'w sdk \<Rightarrow> node_id list \<Rightarrow> u32 \<Rightarrow> read_response
     \<Rightarrow> ('w impl, (read_result list, rich_error) result option) cpp" where
  "read_outcome K nodes retry resp =
     (if retryable K (rs_serviceResult resp) then
        bindE (readE (\<lambda>s. maxRetries (m_config s))) (\<lambda>maxr.
        if retry \<noteq> maxr then thenE (delayFunction K retry) (ret None)
        else ret (Some (Error (RichError EC_SERVICE_RETRY_EXHAUSTED
               (''batchRead: max retries exhausted, last status='' @
                safeStatusCodeName K (rs_serviceResult resp))))))
      else if \<not> sdk_isGood K (rs_serviceResult resp) \<or> rs_resultsSize resp \<noteq> length nodes
          \<or> rs_results resp = None then
        ret (Some (Error (RichError EC_SERVICE_FAILED (read_fail_text resp))))
      else bindE (outcomeE (case rs_results resp of
               Some items \<Rightarrow> read_results K nodes items | None \<Rightarrow> Fault))
             (\<lambda>rs. ret (Some (Success rs))))"

definition read_attempt ::
  "'w sdk \<Rightarrow> node_id list \<Rightarrow> read_request \<Rightarrow> nat \<Rightarrow> int \<Rightarrow> u32
     \<Rightarrow> ('w impl, (read_result list, rich_error) result) cpp
     \<Rightarrow> ('w impl, (read_result list, rich_error) result) cpp" where
  "read_attempt K nodes request client startTime retry again =
     gateE (stop_gate ''batchRead: client is shutting down'')
     (bindE (nowMsImpl K) (\<lambda>now.
      gateE (\<lambda>s. if uint (maxTotalWaitMs (m_config s)) < now - startTime
                 then Some (RichError EC_BUDGET_EXCEEDED ''batchRead: total time budget exceeded'')
                 else None)
      (gateE (state_gate ''batchRead:client life state is GIVEN_UP''
                ''batchRead:client life state is RECOVERING''
                ''batchRead:client life state is THREAD_BUSY'')
       (bindE (sdkCall (sdk_serviceRead K client request)) (\<lambda>resp.
        bindE (response_scope resp (read_outcome K nodes retry resp)) (\<lambda>r.
        case r of Some res \<Rightarrow> ret res | None \<Rightarrow> again))))))"

function read_loop ::
  "'w sdk \<Rightarrow> node_id list \<Rightarrow> read_request \<Rightarrow> nat \<Rightarrow> int \<Rightarrow> u32 \<Rightarrow> u32
     \<Rightarrow> ('w impl, (read_result list, rich_error) result) cpp" where
  "read_loop K nodes request client startTime attempts retry =
     (if retry < attempts then
        read_attempt K nodes request client startTime retry
          (read_loop K nodes request client startTime attempts (retry + 1))
      else ret (Error (RichError EC_INTERNAL_ERROR ''batchRead: unreachable code path'')))"
  by pat_completeness auto

lemma unat_next: "(r :: u32) < a \<Longrightarrow> unat (r + 1) = Suc (unat r)"
  using unat_u32_less [of a] by (simp add: unat_word_ariths word_less_nat_alt)

lemma next_progress: "(r :: u32) < a \<Longrightarrow> unat a - unat (r + 1) < unat a - unat r"
  by (simp add: unat_next word_less_nat_alt)

termination read_loop
  by (relation "measure (\<lambda>(K, n, q, c, t, a, r). unat a - unat r)") (simp_all add: next_progress)

declare read_loop.simps [simp del]

text \<open>The snapshot of the client pointer under \<open>m_lock\<close>.\<close>

definition client_gate :: "string \<Rightarrow> string \<Rightarrow> 'w impl \<Rightarrow> rich_error option" where
  "client_gate null_msg stop_msg s =
     (if m_impl s = None then Some (RichError EC_ALREADY_TERMINATED null_msg)
      else if getEffectiveStopSignal s then Some (RichError EC_ALREADY_TERMINATED stop_msg)
      else None)"

definition empty_gate :: "string \<Rightarrow> 'a list \<Rightarrow> 'w impl \<Rightarrow> rich_error option" where
  "empty_gate msg xs s = (if length xs = 0 then Some (RichError EC_INVALID_ARGUMENT msg) else None)"

definition health_gate :: "'w sdk \<Rightarrow> string \<Rightarrow> 'w impl \<Rightarrow> rich_error option" where
  "health_gate K msg s = (if \<not> isHealthyCached K s then Some (RichError EC_NOT_CONNECTED msg) else None)"

definition read_request_and_loop ::
  "'w sdk \<Rightarrow> node_id list \<Rightarrow> ('w impl, (read_result list, rich_error) result) cpp" where
  "read_request_and_loop K nodes =
     bindE (onWorld (\<lambda>w. case sdk_array_new K (length nodes) w of (ok, w') \<Rightarrow> (Ret ok, w'))) (\<lambda>ok.
     if \<not> ok then ret (Error (RichError EC_INTERNAL_ERROR ''batchRead: UA_Array_new failed''))
     else bindE (onWorld (read_items K nodes)) (\<lambda>r. case r of
       Error e \<Rightarrow> ret (Error e)
     | Success items \<Rightarrow>
         gateE (client_gate ''batchRead: client is nullptr'' ''batchRead: client is shutting down'')
         (bindE (readE (\<lambda>s. (m_impl s, maxRetries (m_config s)))) (\<lambda>(i, maxr).
          case i of None \<Rightarrow> faultE
          | Some client \<Rightarrow> bindE (nowMsImpl K) (\<lambda>startTime.
              read_loop K nodes \<lparr>rq_nodesToRead = items, rq_nodesToReadSize = length nodes,
                rq_timestamps = TS_NEITHER\<rparr> client startTime (maxr + 1) 0)))))"

definition impl_batchRead ::
  "'w sdk \<Rightarrow> node_id list \<Rightarrow> ('w impl, (read_result list, rich_error) result) cpp" where
  "impl_batchRead K nodes =
     gateE (stop_gate ''client is shutting down'')
     (in_flight
       (gateE (state_gate ''batchRead:client life state is GIVEN_UP''
                 ''batchRead: client life state is RECOVERING''
                 ''batchRead:client life state is THREAD_BUSY'')
       (gateE (empty_gate ''batchRead: nodes list is empty'' nodes)
       (gateE (health_gate K ''batchRead: connection is not healthy'')
         (read_request_and_loop K nodes)))))"

section \<open>batchWrite\<close>

primrec write_items ::
  "'w sdk \<Rightarrow> write_item list \<Rightarrow> ('w, (write_value list, rich_error) result) cpp" where
  "write_items K [] = ret (Success [])"
| "write_items K (i # is) = bindE (uaNodeIDAlloc K (wi_node i) (wv_nodeId init_write_value)) (\<lambda>(r, nid).
     case r of Error e \<Rightarrow> ret (Error e)
     | Success _ \<Rightarrow>
       bindE (write_dispatch K (nd_dataType (wi_node i))
               (init_write_value\<lparr>wv_nodeId := nid, wv_attributeId := ATTR_VALUE\<rparr>) (wi_value i)) (\<lambda>(r, node).
       case r of Error e \<Rightarrow> ret (Error (RichError (err_code e) (err_context e)))
       | Success _ \<Rightarrow> bindE (write_items K is) (\<lambda>rest. case rest of
             Error e \<Rightarrow> ret (Error e)
           | Success nodes \<Rightarrow> ret (Success (node # nodes)))))"

definition write_one :: "'w sdk \<Rightarrow> u32 \<Rightarrow> write_result" where
  "write_one K st =
     (if sdk_isGood K st then \<lparr>wr_status = Good, wr_errorCode = EC_OK, wr_rawStatus = st\<rparr>
      else \<lparr>wr_status = Bad, wr_errorCode = EC_SDK_ERROR, wr_rawStatus = st\<rparr>)"

definition write_outcome ::
  "'w sdk \<Rightarrow> write_item list \<Rightarrow> write_response \<Rightarrow> ('w impl, (write_result list, rich_error) result) cpp" where
  "write_outcome K items resp =
     (if sdk_isGood K (rs_serviceResult resp) \<and> 0 < rs_resultsSize resp \<and>
         rs_results resp \<noteq> None \<and> rs_resultsSize resp = length items then
        outcomeE (case rs_results resp of
            Some sts \<Rightarrow> (if rs_resultsSize resp \<le> length sts
              then Ret (Success (map (write_one K) (take (rs_resultsSize resp) sts))) else Fault)
          | None \<Rightarrow> Fault)
      else ret (Error (RichError EC_SERVICE_FAILED
             (''batchWrite: service failed, serviceResult='' @
              safeStatusCodeName K (rs_serviceResult resp)))))"

definition write_request_and_call ::
  "'w sdk \<Rightarrow> write_item list \<Rightarrow> ('w impl, (write_result list, rich_error) result) cpp" where
  "write_request_and_call K items =
     bindE (onWorld (\<lambda>w. case sdk_array_new K (length items) w of (ok, w') \<Rightarrow> (Ret ok, w'))) (\<lambda>ok.
     if \<not> ok then ret (Error (RichError EC_INTERNAL_ERROR ''batchWrite: UA_Array_new failed''))
     else bindE (onWorld (write_items K items)) (\<lambda>r. case r of
       Error e \<Rightarrow> ret (Error e)
     | Success nodes \<Rightarrow>
         gateE (client_gate ''batchWrite: client is nullptr'' ''batchWrite: client is shutting down'')
         (bindE (readE m_impl) (\<lambda>i. case i of None \<Rightarrow> faultE
          | Some client \<Rightarrow>
            gateE (stop_gate ''batchWrite: client is shutting down'')
            (gateE (state_gate ''batchWrite: client life state is GIVEN_UP''
                      ''batchWrite: client life state is RECOVERING''
                      ''batchWrite: client life state is THREAD_BUSY'')
             (bindE (sdkCall (sdk_serviceWrite K client
                       \<lparr>wq_nodesToWrite = nodes, wq_nodesToWriteSize = length items\<rparr>)) (\<lambda>resp.
              response_scope resp (write_outcome K items resp))))))))"

definition impl_batchWrite ::
  "'w sdk \<Rightarrow> write_item list \<Rightarrow> ('w impl, (write_result list, rich_error) result) cpp" where
  "impl_batchWrite K items =
     gateE (stop_gate ''batchWrite: client is shutting down'')
     (in_flight
       (gateE (state_gate ''batchWrite: client life state is GIVEN_UP''
                 ''batchWrite: client life state is RECOVERING''
                 ''batchWrite: client life state is THREAD_BUSY'')
       (gateE (empty_gate ''batchWrite: nodes list is empty'' items)
       (gateE (health_gate K ''batchWrite: connection is not healthy'')
         (write_request_and_call K items)))))"

section \<open>Contracts\<close>

context heap_contract
begin

lemma h_read_items: "guar V (read_items K ns)"
proof (induction ns)
  case (Cons n ns)
  then show ?case unfolding read_items.simps by (intro g_intros h_result h_pair h_nodeid)
qed (unfold read_items.simps, rule g_ret)

lemma h_write_items: "guar V (write_items K items)"
proof (induction items)
  case (Cons i items)
  then show ?case unfolding write_items.simps by (intro g_intros h_result h_pair h_nodeid h_dispatch)
qed (unfold write_items.simps, rule g_ret)

end

context batch_contract
begin

lemma g_outcomeE: "guar R (outcomeE r)"
  by (simp add: guar_def outcomeE_def R_refl)

lemma g_gateE: "guar R k \<Longrightarrow> guar R (gateE g k)"
  unfolding gateE_def by (intro c_intros)

lemma g_read_outcome: "guar R (read_outcome K nodes retry resp)"
  unfolding read_outcome_def by (intro c_intros g_delay g_outcomeE)

lemma g_read_loop: "guar R (read_loop K nodes q c t a r)"
proof (induction "unat a - unat r" arbitrary: r rule: less_induct)
  case less
  show ?case
    by (subst read_loop.simps, unfold read_attempt_def response_scope_id)
      (intro b_intros g_gateE g_read_outcome less next_progress)
qed

lemma g_batchRead: "guar R (impl_batchRead K nodes)"
  unfolding impl_batchRead_def read_request_and_loop_def
  by (intro b_intros g_gateE g_result g_pair g_read_loop mem.h_array mem.h_read_items)

lemma g_batchWrite: "guar R (impl_batchWrite K items)"
  unfolding impl_batchWrite_def write_request_and_call_def response_scope_id write_outcome_def
  by (intro b_intros g_gateE g_result g_outcomeE mem.h_array mem.h_write_items)

end

end
