(* ===== verification/Watchdog.thy ===== *)
theory Watchdog
  imports Impl_Batch
begin

text \<open>
  \<open>Impl::doWatchdogDecision\<close> and \<open>Impl::runWatchdog\<close> of \<open>src/OPCUAPacking/ua.cpp\<close>.
  The decision is split at its branches; the thread loop takes a bound on its
  iterations, as it runs until the client is stopped.
\<close>

section \<open>One decision\<close>

text \<open>The common tail \<open>connect()\<close> with the reactions to its outcome.\<close>

definition wd_reconnect :: "'w sdk \<Rightarrow> nat \<Rightarrow> ('w impl, unit) cpp" where
  "wd_reconnect K fuel = bindE (impl_connect K fuel) (\<lambda>r. case r of
       Error e \<Rightarrow>
         thenE (if e = CE_SHUTDOWN \<or> e = CE_NULLPTR then TurnToGiveup K else ret ())
         (if e = CE_THREADBUSY then ret () else modifyE (TurnToRecovring K))
     | Success _ \<Rightarrow> modifyE TurnToRunning)"

text \<open>\<open>callRunIterate(client)\<close> has the default timeout 1.\<close>

definition wd_iterate_then_connect :: "'w sdk \<Rightarrow> nat \<Rightarrow> nat \<Rightarrow> ('w impl, unit) cpp" where
  "wd_iterate_then_connect K fuel client =
     thenE (callRunIterate K client 1)
     (bindE (readE (isChannelClosed K)) (\<lambda>closed.
      if \<not> closed then modifyE (TurnToRecovring K) else wd_reconnect K fuel))"

definition wd_disconnect_then_connect :: "'w sdk \<Rightarrow> nat \<Rightarrow> nat \<Rightarrow> ('w impl, unit) cpp" where
  "wd_disconnect_then_connect K fuel client = bindE (impl_disconnect K fuel) (\<lambda>r. case r of
       Error e \<Rightarrow>
         if e = DE_SHUTDOWN \<or> e = DE_NULLPTR then TurnToGiveup K
         else wd_iterate_then_connect K fuel client
     | Success _ \<Rightarrow> wd_iterate_then_connect K fuel client)"

text \<open>Book-keeping and the give-up window, in front of every recovery branch.\<close>

definition wd_window :: "'w sdk \<Rightarrow> ('w impl, unit) cpp \<Rightarrow> ('w impl, unit) cpp" where
  "wd_window K k =
     thenE (updateBadStatusTime K)
     (bindE (shouldTriggerGiveUp K) (\<lambda>giveUp. if giveUp then TurnToGiveup K else k))"

definition wd_branches :: "'w sdk \<Rightarrow> nat \<Rightarrow> nat \<Rightarrow> ('w impl, unit) cpp" where
  "wd_branches K fuel client =
     bindE (readE (\<lambda>s. (connectionLost s, unpackState (state_packed s)))) (\<lambda>(lost, f).
     if lost \<or> f_session f \<noteq> sdk_sess K SESSION_ACTIVATED then
       wd_window K (wd_disconnect_then_connect K fuel client)
     else bindE (readE (isChannelClosed K)) (\<lambda>closed.
     if \<not> closed then wd_window K (wd_iterate_then_connect K fuel client)
     else bindE (readE (\<lambda>s. isConnectBad K s \<or> \<not> isHealthyCached K s)) (\<lambda>bad.
     if bad then wd_window K
       (thenE (callRunIterate K client 1)
        (bindE (readE (isHealthyCached K)) (\<lambda>healthy.
         if healthy then modifyE TurnToRunning
         else wd_disconnect_then_connect K fuel client)))
     else modifyE TurnToRunning)))"

definition doWatchdogDecision :: "'w sdk \<Rightarrow> nat \<Rightarrow> ('w impl, unit) cpp" where
  "doWatchdogDecision K fuel =
     bindE (readE getEffectiveStopSignal) (\<lambda>stop.
     if stop then ret ()
     else bindE (readE m_impl) (\<lambda>i.
     case i of None \<Rightarrow> ret ()
     | Some client \<Rightarrow>
       bindE (isConnected K 0) (\<lambda>r.
       case r of
         Error e \<Rightarrow>
           if e = CE_NULLPTR \<or> e = CE_SHUTDOWN then ret () else wd_branches K fuel client
       | Success healthy \<Rightarrow>
           if healthy then modifyE TurnToRunning else wd_branches K fuel client)))"

section \<open>The thread\<close>

text \<open>
  The locals of the loop; a pass either goes on with new locals or leaves the loop.
\<close>

record wd_locals =
  last_decision_time :: int
  retryCounter :: u32

text \<open>
  The locals live outside the \<open>try\<close> block, so a pass that throws keeps what it had
  assigned to them; they are therefore part of the state of a pass.
\<close>

type_synonym 'w wd_state = "wd_locals \<times> 'w impl"

definition on_impl :: "('w impl, 'a) cpp \<Rightarrow> ('w wd_state, 'a) cpp" where
  "on_impl m = (\<lambda>(l, s). case m s of (r, s') \<Rightarrow> (r, (l, s')))"

definition read_impl :: "('w impl \<Rightarrow> 'a) \<Rightarrow> ('w wd_state, 'a) cpp" where
  "read_impl f = readE (\<lambda>(l, s). f s)"

definition on_locals :: "(wd_locals \<Rightarrow> wd_locals) \<Rightarrow> ('w wd_state, unit) cpp" where
  "on_locals f = modifyE (\<lambda>(l, s). (f l, s))"

definition bump :: "wd_locals \<Rightarrow> wd_locals" where
  "bump l = l\<lparr>retryCounter := retryCounter l + 1\<rparr>"

definition wd_delay_next :: "'w sdk \<Rightarrow> ('w wd_state, unit) cpp" where
  "wd_delay_next K = thenE (on_locals bump)
     (bindE (readE (\<lambda>(l, s). retryCounter l)) (\<lambda>n. on_impl (delayFunction K n)))"

definition wd_after_decision :: "int \<Rightarrow> ('w wd_state, unit) cpp" where
  "wd_after_decision now =
     thenE (on_locals (\<lambda>l. l\<lparr>last_decision_time := now\<rparr>))
     (bindE (read_impl m_lifeState) (\<lambda>lifeAfter.
      if lifeAfter = RECOVERING then on_locals bump else on_locals (\<lambda>l. l\<lparr>retryCounter := 0\<rparr>)))"

text \<open>The \<open>try\<close> block of one pass; \<open>True\<close> is the \<open>return\<close> on a null client.\<close>

definition wd_try :: "'w sdk \<Rightarrow> nat \<Rightarrow> ('w wd_state, bool) cpp" where
  "wd_try K fuel = bindE (read_impl m_impl) (\<lambda>i. case i of None \<Rightarrow> ret True
     | Some client \<Rightarrow>
       thenE (on_impl (callRunIterate K client 0))
       (bindE (read_impl m_lifeState) (\<lambda>life.
        thenE (if life = RECOVERING then wd_delay_next K else ret ())
        (bindE (on_impl (nowMsImpl K)) (\<lambda>now.
         bindE (readE (\<lambda>(l, s). uint (watchdogIntervalMs (m_config s)) \<le> now - last_decision_time l)) (\<lambda>due.
         thenE (if due then thenE (on_impl (doWatchdogDecision K fuel)) (wd_after_decision now)
                else ret ())
         (thenE (on_impl (wait_unless_stopped K 100)) (ret False))))))))"

text \<open>The handlers: the first two leave the loop, the third backs off.\<close>

definition wd_handler :: "'w sdk \<Rightarrow> cpp_exn \<Rightarrow> ('w wd_state, bool) cpp" where
  "wd_handler K e = (case e of
       Bad_Alloc _ \<Rightarrow> thenE (on_impl (TurnToGiveup K)) (ret True)
     | System_Error _ \<Rightarrow> thenE (on_impl (TurnToGiveup K)) (ret True)
     | _ \<Rightarrow> thenE (wd_delay_next K) (ret False))"

primrec wd_loop :: "'w sdk \<Rightarrow> nat \<Rightarrow> nat \<Rightarrow> ('w wd_state, unit) cpp" where
  "wd_loop K fuel 0 = divergeE"
| "wd_loop K fuel (Suc n) = bindE (read_impl getEffectiveStopSignal) (\<lambda>stop.
     if stop then ret ()
     else bindE (catchE (wd_try K fuel) (wd_handler K)) (\<lambda>leave.
       if leave then ret () else wd_loop K fuel n))"

definition runWatchdog :: "'w sdk \<Rightarrow> nat \<Rightarrow> nat \<Rightarrow> ('w impl, unit) cpp" where
  "runWatchdog K fuel n = bindE (nowMsImpl K) (\<lambda>now. \<lambda>s.
     case wd_loop K fuel n (\<lparr>last_decision_time = now, retryCounter = 0\<rparr>, s) of
       (r, (l, s')) \<Rightarrow> (r, s'))"

section \<open>Contracts\<close>

context impl_contract
begin

lemma g_wd_reconnect: "guar R (wd_reconnect K fuel)"
  unfolding wd_reconnect_def by (intro c_intros g_connect g_result)

lemma g_wd_iterate: "guar R (wd_iterate_then_connect K fuel c)"
  unfolding wd_iterate_then_connect_def by (intro c_intros g_wd_reconnect)

lemma g_wd_disconnect: "guar R (wd_disconnect_then_connect K fuel c)"
  unfolding wd_disconnect_then_connect_def by (intro c_intros g_disconnect g_result g_wd_iterate)

lemma g_wd_window: "guar R k \<Longrightarrow> guar R (wd_window K k)"
  unfolding wd_window_def by (intro c_intros)

lemma g_wd_branches: "guar R (wd_branches K fuel c)"
  unfolding wd_branches_def
  by (intro c_intros g_pair g_wd_window g_wd_iterate g_wd_disconnect)

lemma g_decision: "guar R (doWatchdogDecision K fuel)"
  unfolding doWatchdogDecision_def by (intro c_intros g_isConnected g_result g_wd_branches)

text \<open>The same contract for the state with the locals of the thread.\<close>

definition R2 :: "'w wd_state \<Rightarrow> 'w wd_state \<Rightarrow> bool" where
  "R2 p q \<longleftrightarrow> R (snd p) (snd q)"

lemma g2_on_impl: "guar R m \<Longrightarrow> guar R2 (on_impl m)"
  by (auto simp: guar_def R2_def on_impl_def split: prod.splits) (metis snd_conv)

lemma g2_pure: "guar R2 (on_locals f)" "guar R2 (read_impl g)" "guar R2 (readE h)" "guar R2 (ret x)"
    "guar R2 divergeE"
  by (auto simp: guar_def R2_def on_locals_def read_impl_def R_refl split: prod.splits)

lemma R2_guarantee: "guarantee R2"
  by unfold_locales (auto simp: R2_def intro: R_refl R_trans)

lemmas g2_intros = g2_on_impl g2_pure guarantee.g_bind [OF R2_guarantee]
  guarantee.g_then [OF R2_guarantee] guarantee.g_catch [OF R2_guarantee]
  guarantee.g_if [OF R2_guarantee] guarantee.g_option [OF R2_guarantee]

lemma g2_delay: "guar R2 (wd_delay_next K)"
  unfolding wd_delay_next_def by (intro g2_intros g_delay)

lemma g2_try: "guar R2 (wd_try K fuel)"
  unfolding wd_try_def wd_after_decision_def
  by (intro g2_intros g2_delay g_iterate g_nowMs g_decision g_wait_unless_stopped)

lemma g2_handler: "guar R2 (wd_handler K e)"
  unfolding wd_handler_def by (cases e) (auto intro!: g2_intros g2_delay g_giveup)

lemma g2_loop: "guar R2 (wd_loop K fuel n)"
proof (induction n)
  case 0
  show ?case unfolding wd_loop.simps by (rule g2_pure)
next
  case (Suc n)
  show ?case unfolding wd_loop.simps by (intro g2_intros g2_try g2_handler Suc.IH)
qed

lemma g_watchdog: "guar R (runWatchdog K fuel n)"
proof -
  have "guar R (\<lambda>s. case wd_loop K fuel n (l, s) of (r, (l, s')) \<Rightarrow> (r, s'))" for l
    using guarD [OF g2_loop, of "(l, _)"]
    by (intro guarI) (auto simp: R2_def split: prod.splits, metis snd_conv)
  then show ?thesis unfolding runWatchdog_def by (intro c_intros)
qed

end

end
