(* ===== verification/Connect_Facts.thy ===== *)
theory Connect_Facts
  imports Impl_Connect
begin

text \<open>
  What \<open>Impl::connect\<close> and \<open>Impl::disconnect\<close> promise: the life state and the health
  cache agree on every exit, a failure names its reason, and the polling loops end
  because the wall clock advances.
\<close>

section \<open>The life state and the health cache\<close>

definition running_sound :: "'w sdk \<Rightarrow> 'w impl \<Rightarrow> bool" where
  "running_sound K s \<longleftrightarrow> (m_lifeState s = RUNNING \<longrightarrow> isHealthyCached K s)"

lemma running_sound_recovering [simp]: "running_sound K (TurnToRecovring K s)"
  by (auto simp: running_sound_def TurnToRecovring_def isHealthyCached_def Let_def)

lemma running_sound_running:
  "triple_ready K (state_packed s) \<Longrightarrow> running_sound K (TurnToRunning s)"
  by (auto simp: running_sound_def TurnToRunning_def isHealthyCached_def resetGiveUpTimer_def)

lemma TurnToRunning_ready:
  assumes "triple_ready K (state_packed s)"
  shows "m_lifeState (TurnToRunning s) = GIVEN_UP \<or>
    m_lifeState (TurnToRunning s) = RUNNING \<and> isHealthyCached K (TurnToRunning s) \<and>
    m_lastBadStatusMs (TurnToRunning s) = 0"
  using assms by (cases "m_lifeState s") (auto simp: TurnToRunning_def isHealthyCached_def resetGiveUpTimer_def)

lemma transition_packed [simp]:
  "state_packed (TurnToRunning s) = state_packed s" "state_packed (TurnToRecovring K s) = state_packed s"
  by (simp_all add: TurnToRunning_def TurnToRecovring_def resetGiveUpTimer_def Let_def)

lemma healthy_ready: "isHealthyCached K s \<Longrightarrow> triple_ready K (state_packed s)"
  by (simp add: isHealthyCached_def split: if_splits)

text \<open>The scope guards touch none of this.\<close>

lemma guard_frame [simp]:
  "isHealthyCached K (s\<lparr>m_connState := c\<rparr>) = isHealthyCached K s"
  "getEffectiveStopSignal (s\<lparr>m_connState := c\<rparr>) = getEffectiveStopSignal s"
  "running_sound K (s\<lparr>m_connState := c\<rparr>) = running_sound K s"
  "isHealthyCached K (task_end s) = isHealthyCached K s"
  "getEffectiveStopSignal (task_end s) = getEffectiveStopSignal s"
  "running_sound K (task_end s) = running_sound K s"
  "m_lifeState (task_end s) = m_lifeState s" "state_packed (task_end s) = state_packed s"
  "m_lastBadStatusMs (task_end s) = m_lastBadStatusMs s" "m_impl (task_end s) = m_impl s"
  "m_connState (task_end s) = m_connState s" "m_connState (task_begin s) = m_connState s"
  "m_impl (task_begin s) = m_impl s"
  "getEffectiveStopSignal (task_begin s) = getEffectiveStopSignal s"
  by (simp_all add: isHealthyCached_def getEffectiveStopSignal_def running_sound_def task_end_def task_begin_def)

section \<open>The probe\<close>

definition probe_post :: "'w sdk \<Rightarrow> (bool, connect_error) result \<Rightarrow> 'w impl \<Rightarrow> bool" where
  "probe_post K r t = (case r of
       Success b \<Rightarrow> b = isHealthyCached K t \<and> m_impl t \<noteq> None
     | Error e \<Rightarrow> (e = CE_SHUTDOWN \<and> getEffectiveStopSignal t) \<or>
         (e = CE_NULLPTR \<and> m_impl t = None \<and> \<not> getEffectiveStopSignal t))"

text \<open>Partial correctness may forget what a step did.\<close>

lemma wp_any: "(\<And>x t. Q x t) \<Longrightarrow> wp UNIV m Q s"
  by (auto simp: wp_def split: prod.splits outcome.splits)

lemma wp_skip: "(\<And>x t. wp UNIV (f x) Q t) \<Longrightarrow> wp UNIV (bindE m f) Q s"
  by (simp add: wp_bind wp_any)

lemma wp_skip_then: "(\<And>t. wp UNIV k Q t) \<Longrightarrow> wp UNIV (thenE m k) Q s"
  by (simp add: wp_then wp_any)

lemma wp_probe: "wp UNIV (isConnected K tmo) (probe_post K) s"
proof -
  have "wp UNIV (isConnected K tmo) (\<lambda>r t. (m_impl s \<noteq> None \<longrightarrow> m_impl t \<noteq> None)) s"
    using wp_guar [OF identity.g_isConnected] by (rule wp_weaken) (simp add: keeps_identity_def)
  moreover have "wp UNIV (isConnected K tmo)
      (\<lambda>r t. (m_impl s \<noteq> None \<longrightarrow> m_impl t \<noteq> None) \<longrightarrow> probe_post K r t) s"
  proof (cases "getEffectiveStopSignal s \<or> m_impl s = None")
    case True
    then show ?thesis
      by (auto simp: isConnected_def probe_post_def wp_bind wp_read wp_ret wp_if)
  next
    case False
    then obtain c where "m_impl s = Some c" "\<not> getEffectiveStopSignal s" by auto
    then show ?thesis
      by (simp add: isConnected_def wp_bind [of _ "readE _"] wp_read)
        (intro wp_skip_then wp_skip, auto simp: wp_read probe_post_def split: prod.splits intro!: wp_skip_then)
  qed
  ultimately show ?thesis by (rule wp_conj [THEN wp_weaken]) simp
qed

section \<open>connect\<close>

definition connect_post :: "'w sdk \<Rightarrow> 'w impl \<Rightarrow> (unit, connect_error) result \<Rightarrow> 'w impl \<Rightarrow> bool" where
  "connect_post K s r t = (case r of
       Success _ \<Rightarrow> triple_ready K (state_packed t) \<and>
         (m_lifeState t = GIVEN_UP \<or>
          m_lifeState t = RUNNING \<and> isHealthyCached K t \<and> m_lastBadStatusMs t = 0)
     | Error CE_SHUTDOWN \<Rightarrow> getEffectiveStopSignal t
     | Error CE_NULLPTR \<Rightarrow> m_impl t = None
     | Error CE_THREADBUSY \<Rightarrow> m_connState s = CONNECTING
     | Error CE_UNKNOWN \<Rightarrow> False
     | Error _ \<Rightarrow> running_sound K t)"

lemma connect_post_simps [simp]:
  "connect_post K s (Error CE_SHUTDOWN) t = getEffectiveStopSignal t"
  "connect_post K s (Error CE_NULLPTR) t = (m_impl t = None)"
  "connect_post K s (Error CE_CONNECT_FAILED) t = running_sound K t"
  "connect_post K s (Error CE_TIMEOUT_NOTCONNECT) t = running_sound K t"
  "connect_post K s (Error CE_THREADBUSY) t = (m_connState s = CONNECTING)"
  by (simp_all add: connect_post_def)

lemma connect_post_running: "triple_ready K (state_packed t) \<Longrightarrow> connect_post K s (Success ()) (TurnToRunning t)"
  using TurnToRunning_ready [of K t] by (simp add: connect_post_def)

lemma connect_post_healthy: "isHealthyCached K t \<Longrightarrow> connect_post K s (Success ()) (TurnToRunning t)"
  by (simp add: connect_post_running healthy_ready)

lemma wp_connect_last: "wp UNIV (connect_last K c) (connect_post K s0) s"
  unfolding connect_last_def wp_bind
  by (rule wp_probe [THEN wp_weaken])
    (auto simp: connect_abort_def wp_simps probe_post_def connect_post_healthy
      split: result.splits prod.splits sum.splits)

lemma wp_connect_rest:
  assumes "\<And>t. wp UNIV again (connect_post K s0) t"
  shows "wp UNIV (connect_rest K c st dl again) (connect_post K s0) s"
  unfolding connect_rest_def
  by (intro wp_skip) (simp add: wp_simps wp_connect_last assms)

lemma wp_connect_loop: "wp UNIV (connect_loop K c st dl n) (connect_post K s0) s"
proof (induction n arbitrary: s)
  case (Suc n)
  show ?case
    unfolding connect_loop.simps connect_iter_def wp_bind
    by (rule wp_probe [THEN wp_weaken])
      (auto simp: wp_simps probe_post_def connect_post_running wp_connect_rest [OF Suc.IH]
        split: result.splits)
qed (simp add: wp_simps)

lemma wp_connect_body: "wp UNIV (connect_body K n c) (connect_post K s0) s"
  unfolding connect_body_def wp_simps
  by (auto simp: wp_simps intro!: wp_any wp_connect_loop split: prod.splits sum.splits)

lemma wp_impl_connect: "wp UNIV (impl_connect K n) (connect_post K s) s"
proof -
  let ?s = "task_begin s"
  have body: "wp UNIV (connect_body K n c) (\<lambda>r t. connect_post K s r (task_end (t\<lparr>m_connState := IDLE\<rparr>))) u"
    for c u
    by (rule wp_weaken [OF wp_connect_body [where ?s0.0 = s]])
      (auto simp: connect_post_def split: result.splits connect_error.splits)
  show ?thesis
    unfolding impl_connect_def in_flight_def cas_guard_def connect_busy_def
    using body by (cases "m_connState s") (auto simp: wp_simps split: option.splits)
qed

section \<open>disconnect\<close>

definition disconnect_post ::
  "'w sdk \<Rightarrow> 'w impl \<Rightarrow> (unit, disconnect_error) result \<Rightarrow> 'w impl \<Rightarrow> bool" where
  "disconnect_post K s r t = (case r of
       Error DE_SHUTDOWN \<Rightarrow> getEffectiveStopSignal t
     | Error DE_NULLPTR \<Rightarrow> m_impl t = None
     | Error DE_THREADBUSY \<Rightarrow> m_connState s = CONNECTING
     | Error DE_UNKNOWN \<Rightarrow> False
     | _ \<Rightarrow> running_sound K t)"

lemma disconnect_post_simps [simp]:
  "disconnect_post K s (Error DE_SHUTDOWN) t = getEffectiveStopSignal t"
  "disconnect_post K s (Error DE_NULLPTR) t = (m_impl t = None)"
  "disconnect_post K s (Error DE_DISCONNECT_FAIL) t = running_sound K t"
  "disconnect_post K s (Error DE_TIMEOUT_NOTDISCONNECT) t = running_sound K t"
  "disconnect_post K s (Success u) t = running_sound K t"
  "disconnect_post K s (Error DE_THREADBUSY) t = (m_connState s = CONNECTING)"
  by (simp_all add: disconnect_post_def)

lemma wp_then_ret: "wp A (thenE (modifyE f) (ret x)) Q s = Q x (f s)"
  by (simp add: wp_simps)

lemma wp_disconnect_timeout: "wp UNIV (disconnect_timeout K c) (disconnect_post K s0) s"
  unfolding disconnect_timeout_def
proof (intro wp_skip, goal_cases)
  case (1 x t)
  obtain cs ss sc where x: "x = (cs, ss, sc)" by (cases x)
  have "wp UNIV (thenE (sdkCall (sdk_disconnectAsync K c))
      (thenE (modifyE (TurnToRecovring K)) (ret (Error DE_TIMEOUT_NOTDISCONNECT)))) (disconnect_post K s0) t"
    by (rule wp_skip_then) (simp add: wp_then_ret)
  then show ?case by (simp add: x wp_if wp_then_ret)
qed

lemma wp_disconnect_rest:
  assumes "\<And>t. wp UNIV again (disconnect_post K s0) t"
  shows "wp UNIV (disconnect_rest K c st dl again) (disconnect_post K s0) s"
  unfolding disconnect_rest_def
  by (intro wp_skip)
    (simp add: wp_read wp_if wp_ret wp_bind [of _ "readE _"] wp_disconnect_timeout wp_skip_then [OF assms])

lemma wp_disconnect_loop: "wp UNIV (disconnect_loop K c st dl n) (disconnect_post K s0) s"
proof (induction n arbitrary: s)
  case (Suc n)
  let ?tail = "\<lambda>f. thenE (if \<not> sdk_isGood K (f_status f) then updateBadStatusTime K else ret ())
      (if f_channel f = sdk_chan K CHANNEL_CLOSED
       then thenE (modifyE (TurnToRecovring K)) (ret (Success ()))
       else disconnect_rest K c st dl (disconnect_loop K c st dl n))"
  have tail: "wp UNIV (?tail f) (disconnect_post K s0) u" for f u
    by (intro wp_skip_then) (simp add: wp_if wp_then_ret wp_disconnect_rest [OF Suc.IH])
  show ?case
    unfolding disconnect_loop.simps disconnect_iter_def wp_bind [of _ "isConnected K 50"]
    by (rule wp_probe [THEN wp_weaken])
      (auto simp: probe_post_def wp_ret wp_skip [OF tail] split: result.splits)
qed (simp add: wp_simps)

lemma wp_disconnect_body: "wp UNIV (disconnect_body K n c) (disconnect_post K s0) s"
  unfolding disconnect_body_def
  by (intro wp_skip) (auto simp: wp_ret wp_modify wp_then wp_if intro!: wp_skip wp_disconnect_loop)

lemma wp_impl_disconnect: "wp UNIV (impl_disconnect K n) (disconnect_post K s) s"
proof -
  have body: "wp UNIV (disconnect_body K n c)
      (\<lambda>r t. disconnect_post K s r (task_end (t\<lparr>m_connState := IDLE\<rparr>))) u" for c u
    by (rule wp_weaken [OF wp_disconnect_body [where ?s0.0 = s]])
      (auto simp: disconnect_post_def split: result.splits disconnect_error.splits)
  show ?thesis
    unfolding impl_disconnect_def in_flight_def cas_guard_def disconnect_busy_def
    using body by (cases "m_connState s") (auto simp: wp_simps split: option.splits)
qed

text \<open>What an operation gives back and leaves alone on every way out.\<close>

definition releases :: "'w impl \<Rightarrow> 'w impl \<Rightarrow> bool" where
  "releases s t \<longleftrightarrow>
     m_connState t = m_connState s \<and> m_taskCounter t = m_taskCounter s \<and>
     (m_lifeState s = GIVEN_UP \<longrightarrow> m_lifeState t = GIVEN_UP) \<and>
     (m_shutdown s \<longrightarrow> m_shutdown t) \<and> (\<not> m_running s \<longrightarrow> \<not> m_running t) \<and>
     m_impl t = m_impl s \<and> endpointUrl t = endpointUrl s \<and> m_config t = m_config s \<and>
     m_watchdogThread t = m_watchdogThread s"

lemma releasesI:
  assumes "guar keeps_single m" and "guar keeps_counter m" and "guar keeps_given_up m"
    and "guar keeps_identity m"
  shows "releases s (snd (m s))"
  using assms [THEN guarD, of s]
  by (simp add: releases_def keeps_single_def keeps_counter_def keeps_given_up_def keeps_identity_def)

lemma releases_stop: "releases s t \<Longrightarrow> getEffectiveStopSignal s \<Longrightarrow> getEffectiveStopSignal t"
  by (auto simp: releases_def getEffectiveStopSignal_def)

text \<open>
  However \<open>connect()\<close> and \<open>disconnect()\<close> end (result, exception or a bound used
  up), the single-flight flag and the task counter are back to what they were, a
  given-up client stays given up, a stopped one stays stopped, and client, endpoint,
  configuration and watchdog are untouched.
\<close>

theorem connect_disconnect_release:
  "releases s (snd (impl_connect K n s)) \<and> releases s (snd (impl_disconnect K n s))"
  by (intro conjI releasesI single.g_connect counter.g_connect given_up.g_connect identity.g_connect
      single.g_disconnect counter.g_disconnect given_up.g_disconnect identity.g_disconnect)

end
