(* ===== verification/Impl_Lifecycle.thy ===== *)
theory Impl_Lifecycle
  imports Watchdog Connect_Facts
begin

text \<open>
  Configuration, start and teardown of \<open>Impl\<close> in \<open>src/OPCUAPacking/ua.cpp\<close>:
  \<open>configureClient\<close> with its two halves, \<open>startWatchdog\<close>, \<open>Impl::shutdown\<close>, the
  destructor with its thread guard, the client deleter and the log filter.
\<close>

section \<open>Configuration\<close>

definition validateConfiguration :: "'w sdk \<Rightarrow> bool \<Rightarrow> ('w impl, (unit, rich_error) result) cpp" where
  "validateConfiguration K useDefault =
     bindE (readE m_impl) (\<lambda>i. case i of
       None \<Rightarrow> ret (Error (RichError EC_NOT_INITIALIZED ''m_impl is uninitialized''))
     | Some client \<Rightarrow>
       bindE (readE m_watchdogThread) (\<lambda>wd.
       if wd \<noteq> WD_null then ret (Error (RichError EC_INVALID_STATE ''already started''))
       else bindE (sdkCall (sdk_getConfig K client)) (\<lambda>config.
       if config = None then ret (Error (RichError EC_SDK_ERROR ''get Config fail''))
       else bindE (readE (\<lambda>s. check (m_config s))) (\<lambda>validateResult.
         case validateResult of
           Some msg \<Rightarrow> if \<not> useDefault then ret (Error (RichError EC_INVALID_CONFIG msg))
             else ret (Success ())
         | None \<Rightarrow> ret (Success ())))))"

text \<open>What \<open>applyConfiguration()\<close> stores into the SDK's configuration.\<close>

definition ua_config_of :: "client_config \<Rightarrow> bool \<Rightarrow> ua_client_config" where
  "ua_config_of c hasLogger = \<lparr>
     uc_timeout = timeoutMs c,
     uc_requestedSessionTimeout = sessionTimeoutMs c,
     uc_secureChannelLifeTime = secureChannelLifeTimeMs c,
     uc_noReconnect = True,
     uc_noNewSession = True,
     uc_connectivityCheckInterval = connectivityCheckIntervalMs c,
     uc_logger_redirected = hasLogger\<rparr>"

definition store_configuration :: "bool \<Rightarrow> 'w impl \<Rightarrow> 'w impl" where
  "store_configuration hasLogger s = s\<lparr>
     sdk_config := Some (ua_config_of (m_config s) hasLogger),
     m_logLevel := logLevel (m_config s),
     callbacks := True,
     m_connState := IDLE,
     m_lifeState := RUNNING,
     m_running := True,
     m_shutdown := False,
     connectionLost := False\<rparr>"

text \<open>
  \<open>getConfig\<close> on a null client is a call into the SDK with a null pointer, which
  \<open>validateConfiguration()\<close> rules out: \<open>Fault\<close>.
\<close>

definition applyConfiguration :: "'w sdk \<Rightarrow> bool \<Rightarrow> ('w impl, (unit, rich_error) result) cpp" where
  "applyConfiguration K useDefault =
     bindE (readE m_impl) (\<lambda>i. case i of None \<Rightarrow> faultE
     | Some client \<Rightarrow>
       bindE (sdkCall (sdk_getConfig K client)) (\<lambda>config. case config of
         None \<Rightarrow> ret (Error (RichError EC_SDK_ERROR ''get Config fail''))
       | Some hasLogger \<Rightarrow>
         bindE (readE (\<lambda>s. applyDefaultIfInvalid (m_config s))) (\<lambda>(repaired, cfg).
         thenE (if useDefault then modifyE (\<lambda>s. s\<lparr>m_config := cfg\<rparr>) else ret ())
         (case (if useDefault then repaired else Success False) of
            Error e \<Rightarrow> ret (Error e)
          | Success _ \<Rightarrow>
            thenE (modifyE (store_configuration hasLogger))
            (thenE (bindE (isConnected K 50) (\<lambda>_. ret ()))
              (ret (Success ())))))))"

definition configureClient :: "'w sdk \<Rightarrow> bool \<Rightarrow> ('w impl, (unit, rich_error) result) cpp" where
  "configureClient K useDefault = bindE (validateConfiguration K useDefault) (\<lambda>r. case r of
       Error e \<Rightarrow> ret (Error e)
     | Success _ \<Rightarrow> applyConfiguration K useDefault)"

section \<open>The log filter\<close>

text \<open>
  \<open>customLog\<close> with the threshold its context points to, \<open>None\<close> for a null context,
  and the message, \<open>None\<close> for a null one: what is written to the error stream.
\<close>

definition customLog :: "u32 option \<Rightarrow> u32 \<Rightarrow> string option \<Rightarrow> string option" where
  "customLog context level msg =
     (if (case context of Some minLevel \<Rightarrow> level < minLevel | None \<Rightarrow> False) then None
      else case msg of None \<Rightarrow> None | Some m \<Rightarrow> Some (m @ [CHR 0x0A]))"

section \<open>Start and stop\<close>

definition startWatchdog :: "'w sdk \<Rightarrow> ('w impl, (unit, rich_error) result) cpp" where
  "startWatchdog K = bindE (readE m_watchdogThread) (\<lambda>wd.
     if wd = WD_joinable then ret (Success ())
     else thenE (modifyE (\<lambda>s. s\<lparr>m_running := True\<rparr>))
       (thenE (sdkCall (spawn_thread K))
       (thenE (modifyE (\<lambda>s. s\<lparr>m_watchdogThread := WD_joinable\<rparr>))
         (ret (Success ())))))"

text \<open>
  \<open>self\<close>: the caller is the watchdog thread itself.  Joining waits until
  \<open>runWatchdog\<close> has returned; what it still does meanwhile are events of the wait.
\<close>

definition joinWatchdog :: "'w sdk \<Rightarrow> bool \<Rightarrow> ('w impl, unit) cpp" where
  "joinWatchdog K self = bindE (readE m_watchdogThread) (\<lambda>wd.
     if wd = WD_joinable then
       thenE (if \<not> self then sdkCall (join_thread K) else ret ())
         (modifyE (\<lambda>s. s\<lparr>m_watchdogThread := WD_finished\<rparr>))
     else ret ())"

definition drain_ms :: "client_config \<Rightarrow> u32" where
  "drain_ms c = max (timeoutMs c) (watchdogIntervalMs c * 2)"

text \<open>
  The wait for the task counter, bounded by \<open>drain_ms\<close>; its outcome only decides on
  a log line.
\<close>

definition drain_tasks :: "'w sdk \<Rightarrow> ('w impl, unit) cpp" where
  "drain_tasks K = bindE (readE (\<lambda>s. (m_taskCounter s, unat (drain_ms (m_config s))))) (\<lambda>(n, ms).
     if n = 0 then ret () else sdkCall (wait_ms K ms))"

definition swallow :: "('s, unit) cpp \<Rightarrow> ('s, unit) cpp" where
  "swallow m = catchE m (\<lambda>_. ret ())"

definition impl_shutdown :: "'w sdk \<Rightarrow> bool \<Rightarrow> ('w impl, unit) cpp" where
  "impl_shutdown K self =
     thenE (modifyE signalShutdown)
     (thenE (swallow (joinWatchdog K self))
     (thenE (modifyE (\<lambda>s. s\<lparr>m_stop := True\<rparr>))
       (swallow (drain_tasks K))))"

text \<open>
  \<open>UA_ClientDeleter\<close>: exceptions of \<open>clientDelete\<close> are swallowed; the callbacks find
  an expired \<open>weak_ptr\<close>, so the events of the call reach nobody.
\<close>

definition deleteClient :: "'w sdk \<Rightarrow> nat \<Rightarrow> ('w impl, unit) cpp" where
  "deleteClient K c = (\<lambda>s. case sdk_clientDelete K c (world s) of (_, _, w) \<Rightarrow> (Ret (), s\<lparr>world := w\<rparr>))"

definition doCleanup :: "'w sdk \<Rightarrow> ('w impl, unit) cpp" where
  "doCleanup K = bindE (readE m_impl) (\<lambda>i. case i of None \<Rightarrow> ret ()
     | Some c \<Rightarrow> thenE (modifyE (\<lambda>s. s\<lparr>m_impl := None\<rparr>)) (deleteClient K c))"

text \<open>
  \<open>~ThreadGuard\<close>: joins or detaches; when the join throws, the thread is detached
  if it is still joinable.
\<close>

definition threadGuard :: "'w sdk \<Rightarrow> bool \<Rightarrow> ('w impl, unit) cpp" where
  "threadGuard K self = bindE (readE m_watchdogThread) (\<lambda>wd.
     if wd = WD_joinable then
       thenE (catchE (if \<not> self then sdkCall (join_thread K) else ret ()) (\<lambda>_. ret ()))
         (modifyE (\<lambda>s. s\<lparr>m_watchdogThread := WD_null\<rparr>))
     else modifyE (\<lambda>s. s\<lparr>m_watchdogThread := WD_null\<rparr>))"

definition impl_destructor :: "'w sdk \<Rightarrow> bool \<Rightarrow> ('w impl, unit) cpp" where
  "impl_destructor K self =
     bindE (readE m_stop) (\<lambda>stop.
     thenE (if \<not> stop then impl_shutdown K self else ret ())
     (thenE (modifyE (\<lambda>s. s\<lparr>m_shutdown := True, m_running := False\<rparr>))
     (thenE (threadGuard K self)
       (doCleanup K))))"

section \<open>Configuring\<close>

abbreviation "no_fault \<equiv> - {Faulted}"

definition configured_post :: "'w impl \<Rightarrow> (unit, rich_error) result \<Rightarrow> 'w impl \<Rightarrow> bool" where
  "configured_post s r t = (case r of
       Success _ \<Rightarrow> m_impl t \<noteq> None \<and> config_ok (m_config t) \<and> callbacks t \<and>
         (\<exists>hasLogger. sdk_config t = Some (ua_config_of (m_config t) hasLogger)) \<and>
         m_logLevel t = logLevel (m_config t) \<and>
         m_config t = (if config_ok (m_config s) then m_config s else applyProfile PROFILE_LOCAL (m_config s))
     | Error e \<Rightarrow> err_code e \<in> {EC_NOT_INITIALIZED, EC_INVALID_STATE, EC_SDK_ERROR, EC_INVALID_CONFIG} \<and>
         callbacks t = callbacks s \<and> sdk_config t = sdk_config s)"

definition keeps_settings :: "'w impl \<Rightarrow> 'w impl \<Rightarrow> bool" where
  "keeps_settings s t \<longleftrightarrow> sdk_config t = sdk_config s \<and> m_logLevel t = m_logLevel s \<and>
     callbacks t = callbacks s \<and> m_config t = m_config s \<and> m_impl t = m_impl s"

lemma apply_event_settings:
  "sdk_config (apply_event e s) = sdk_config s" "m_logLevel (apply_event e s) = m_logLevel s"
  by (cases e; simp add: transition_defs)+

interpretation settings: service_contract keeps_settings K
  by unfold_locales (auto simp: keeps_settings_def apply_event_keeps apply_event_settings transition_defs)

lemma wp_settings:
  assumes "exits A m" and "guar keeps_settings m"
  shows "wp A m (\<lambda>_ t. keeps_settings s t) s"
  by (rule wp_exits [OF assms(1) wp_guar [OF assms(2)]])

lemma exits_call_fault: "exits no_fault (sdkCall c)"
  by (rule exits_sdkCall) auto

lemma exits_probe_fault: "exits no_fault (isConnected K tmo)"
proof -
  have "exits no_fault (nowMsImpl K)" unfolding nowMsImpl_def by (rule exits_call_fault)
  then show ?thesis
    unfolding isConnected_def callRunIterate_def updateBadStatusTime_def
    by (intro exits_intros exits_call_fault)
qed

lemma wp_validate:
  "wp no_fault (validateConfiguration K useDefault) (\<lambda>r t. keeps_settings s t \<and> (case r of
       Error e \<Rightarrow> err_code e \<in> {EC_NOT_INITIALIZED, EC_INVALID_STATE, EC_SDK_ERROR, EC_INVALID_CONFIG}
     | Success _ \<Rightarrow> m_impl t \<noteq> None \<and> (useDefault \<or> config_ok (m_config t)))) s"
proof (cases "m_impl s")
  case (Some c)
  have "wp no_fault (sdkCall (sdk_getConfig K c)) (\<lambda>_ t. keeps_settings s t) s"
    by (rule wp_settings [OF exits_call_fault settings.g_sdkCall])
  then have "wp no_fault (bindE (sdkCall (sdk_getConfig K c)) (\<lambda>config.
       if config = None then ret (Error (RichError EC_SDK_ERROR ''get Config fail''))
       else bindE (readE (\<lambda>s. check (m_config s))) (\<lambda>validateResult.
         case validateResult of
           Some msg \<Rightarrow> if \<not> useDefault then ret (Error (RichError EC_INVALID_CONFIG msg)) else ret (Success ())
         | None \<Rightarrow> ret (Success ()))))
     (\<lambda>r t. keeps_settings s t \<and> (case r of
       Error e \<Rightarrow> err_code e \<in> {EC_NOT_INITIALIZED, EC_INVALID_STATE, EC_SDK_ERROR, EC_INVALID_CONFIG}
     | Success _ \<Rightarrow> m_impl t \<noteq> None \<and> (useDefault \<or> config_ok (m_config t)))) s"
    unfolding wp_bind [of _ "sdkCall _"]
    by (rule wp_weaken)
      (use Some in \<open>auto simp: wp_simps keeps_settings_def check_iff_ok [symmetric] split: option.split\<close>)
  then show ?thesis
    using Some by (simp add: validateConfiguration_def wp_bind [of _ "readE _"] wp_read wp_if wp_ret
        keeps_settings_def)
qed (simp add: validateConfiguration_def wp_simps keeps_settings_def)

lemma wp_store:
  assumes "config_ok (m_config s)" and "m_impl s \<noteq> None"
    and "m_config s = (if config_ok (m_config s0) then m_config s0 else applyProfile PROFILE_LOCAL (m_config s0))"
  shows "wp no_fault (thenE (bindE (isConnected K 50) (\<lambda>_. ret ())) (ret (Success ())))
    (configured_post s0) (store_configuration b s)"
  unfolding wp_then wp_bind wp_ret
  by (rule wp_weaken [OF wp_settings [OF exits_probe_fault settings.g_isConnected]])
    (use assms in \<open>auto simp: configured_post_def keeps_settings_def store_configuration_def\<close>)

text \<open>The part of \<open>applyConfiguration\<close> after a successful \<open>getConfig\<close>.\<close>

lemma wp_repair_store:
  assumes "keeps_settings s0 s" and "m_impl s \<noteq> None" and "useDefault \<or> config_ok (m_config s0)"
  shows "wp no_fault
      (thenE (if useDefault then modifyE (\<lambda>s. s\<lparr>m_config := snd (applyDefaultIfInvalid (m_config s0))\<rparr>) else ret ())
       (case (if useDefault then fst (applyDefaultIfInvalid (m_config s0)) else Success False) of
          Error e \<Rightarrow> ret (Error e)
        | Success _ \<Rightarrow> thenE (modifyE (store_configuration b))
            (thenE (bindE (isConnected K 50) (\<lambda>_. ret ())) (ret (Success ()))))) (configured_post s0) s"
proof (cases "config_ok (m_config s0)")
  case True
  then have eq: "applyDefaultIfInvalid (m_config s0) = (Success False, m_config s0)"
    by (simp add: applyDefault_eq)
  have "m_config s = m_config s0" using assms(1) by (simp add: keeps_settings_def)
  with True assms(2) show ?thesis
    by (cases useDefault) (simp_all add: eq wp_then [of _ "modifyE _"] wp_then [of _ "ret _"] wp_modify wp_ret wp_store)
next
  case False
  with assms(3) have d: useDefault by simp
  show ?thesis
  proof (cases "unat (logLevel (m_config s0)) \<in> {100..600}")
    case True
    then have eq: "applyDefaultIfInvalid (m_config s0) = (Success True, applyProfile PROFILE_LOCAL (m_config s0))"
      using False by (simp add: applyDefault_eq del: applyProfile.simps)
    have "config_ok (applyProfile PROFILE_LOCAL (m_config s0))"
      using profile_check [of PROFILE_LOCAL "m_config s0"] True by (simp add: check_iff_ok del: applyProfile.simps)
    with False d assms(2) show ?thesis
      by (simp add: eq wp_then [of _ "modifyE _"] wp_modify wp_store del: applyProfile.simps)
  next
    case bad: False
    with False have "\<exists>msg c. applyDefaultIfInvalid (m_config s0) = (Error (RichError EC_INVALID_CONFIG msg), c)"
      by (simp add: applyDefault_eq del: applyProfile.simps)
    with d assms(1) show ?thesis
      by (auto simp: wp_then [of _ "modifyE _"] wp_modify wp_ret configured_post_def keeps_settings_def)
  qed
qed

lemma wp_apply:
  assumes "m_impl s \<noteq> None" and "useDefault \<or> config_ok (m_config s)" and "keeps_settings s0 s"
  shows "wp no_fault (applyConfiguration K useDefault) (configured_post s0) s"
proof -
  obtain c where c: "m_impl s = Some c" using assms(1) by auto
  have call: "wp no_fault (sdkCall (sdk_getConfig K c)) (\<lambda>_ t. keeps_settings s t) s"
    by (rule wp_settings [OF exits_call_fault settings.g_sdkCall])
  have ok: "useDefault \<or> config_ok (m_config s0)" using assms(2,3) by (simp add: keeps_settings_def)
  show ?thesis
    unfolding applyConfiguration_def
  proof (simp add: c wp_bind [of _ "readE _"] wp_read wp_bind [of _ "sdkCall _"],
      rule wp_weaken [OF call], goal_cases)
    case (1 config t)
    with assms(3) have t: "keeps_settings s0 t" by (simp add: keeps_settings_def)
    then have "m_config t = m_config s0" by (simp add: keeps_settings_def)
    moreover have "m_impl t \<noteq> None" using 1 c by (simp add: keeps_settings_def)
    ultimately show ?case
      using wp_repair_store [OF t _ ok] t
      by (cases config; cases useDefault) (simp_all add: wp_ret configured_post_def keeps_settings_def
          wp_bind [of _ "readE _"] wp_read case_prod_unfold)
  qed
qed

lemma wp_configureClient:
  "wp no_fault (configureClient K useDefault) (configured_post s) s"
  unfolding configureClient_def wp_bind
  by (rule wp_weaken [OF wp_validate])
    (auto simp: wp_ret configured_post_def keeps_settings_def intro: wp_apply split: result.splits)

text \<open>
  C32: \<open>configureClient\<close> never hands the SDK a null client and never leaves an invalid
  configuration in force: on success the configuration satisfies every documented
  constraint (the caller's own when it was valid, the local profile when repair was
  allowed), the SDK's settings and the log threshold are derived from it, and both
  callbacks are registered; on failure nothing has been registered or stored in the
  SDK.
\<close>

theorem configureClient_correct:
  "wp no_fault (configureClient K useDefault) (configured_post s) s"
  by (rule wp_configureClient)

section \<open>Teardown\<close>

lemma exits_swallow: "exits (range Threw) m \<Longrightarrow> exits {} (swallow m)"
  unfolding swallow_def by (rule exits_catch) (auto intro: exits_ret)

lemma exits_join: "exits (range Threw) (joinWatchdog K self)"
  unfolding joinWatchdog_def by (intro exits_intros exits_sdkCall) auto

lemma exits_drain: "exits (range Threw) (drain_tasks K)"
  unfolding drain_tasks_def by (intro exits_intros exits_sdkCall) auto

lemma exits_impl_shutdown: "exits {} (impl_shutdown K self)"
  unfolding impl_shutdown_def by (intro exits_intros exits_swallow exits_join exits_drain)

lemma exits_threadGuard: "exits {} (threadGuard K self)"
proof -
  have "exits {} (catchE (if \<not> self then sdkCall (join_thread K) else ret ()) (\<lambda>_. ret ()))"
    by (rule exits_catch [of "range Threw"]) (auto intro!: exits_ret exits_sdkCall)
  then show ?thesis
    unfolding threadGuard_def by (intro exits_intros)
qed

text \<open>What teardown never undoes: the shutdown flags once they are set.\<close>

definition keeps_down :: "'w impl \<Rightarrow> 'w impl \<Rightarrow> bool" where
  "keeps_down s t \<longleftrightarrow> (m_shutdown s \<longrightarrow> m_shutdown t) \<and> (\<not> m_running s \<longrightarrow> \<not> m_running t)"

interpretation down: service_contract keeps_down K
  by unfold_locales (auto simp: keeps_down_def apply_event_keeps transition_defs)

lemma guar_threadGuard: "guar keeps_down (threadGuard K self)"
  unfolding threadGuard_def
  by (intro down.s_intros down.g_modify) (simp_all add: keeps_down_def)

lemma wp_threadGuard:
  "wp {} (threadGuard K self) (\<lambda>_ t. m_watchdogThread t = WD_null) (s :: 'w impl)"
proof -
  have join: "wp UNIV (thenE m (modifyE (\<lambda>s. s\<lparr>m_watchdogThread := WD_null\<rparr>)))
      (\<lambda>_ t. m_watchdogThread t = WD_null) s" for m :: "('w impl, unit) cpp"
    by (rule wp_skip_then) (simp add: wp_modify)
  have "wp UNIV (threadGuard K self) (\<lambda>_ t. m_watchdogThread t = WD_null) s"
    unfolding threadGuard_def by (simp add: wp_bind [of _ "readE _"] wp_read wp_modify join)
  then show ?thesis by (rule wp_exits [OF exits_threadGuard])
qed

lemma wp_doCleanup:
  "wp {} (doCleanup K) (\<lambda>_ t. m_impl t = None \<and> m_watchdogThread t = m_watchdogThread s \<and>
     m_shutdown t = m_shutdown s \<and> m_running t = m_running s) s"
proof (cases "m_impl s")
  case (Some c)
  obtain r evs w where "sdk_clientDelete K c (world s) = (r, evs, w)" by (metis prod.exhaust)
  with Some show ?thesis by (simp add: doCleanup_def wp_simps) (simp add: wp_def deleteClient_def)
qed (simp add: doCleanup_def wp_simps)

lemma wp_impl_destructor:
  "wp {} (impl_destructor K self) (\<lambda>_ t. getEffectiveStopSignal t \<and> m_watchdogThread t = WD_null \<and>
     m_impl t = None) s"
proof -
  have guard: "wp {} (threadGuard K self) (\<lambda>_ t. m_watchdogThread t = WD_null \<and> keeps_down u t) u" for u
    by (intro wp_conj wp_threadGuard wp_exits [OF exits_threadGuard] wp_guar guar_threadGuard)
  have finish: "wp {} (thenE (modifyE (\<lambda>s. s\<lparr>m_shutdown := True, m_running := False\<rparr>))
      (thenE (threadGuard K self) (doCleanup K)))
      (\<lambda>_ t. getEffectiveStopSignal t \<and> m_watchdogThread t = WD_null \<and> m_impl t = None) u" for u
    unfolding wp_then wp_modify
    by (rule wp_weaken [OF guard], rule wp_weaken [OF wp_doCleanup])
      (auto simp: keeps_down_def getEffectiveStopSignal_def)
  have "exits {} (if \<not> m_stop s then impl_shutdown K self else ret ())"
    by (intro exits_if exits_impl_shutdown exits_ret)
  then show ?thesis
    unfolding impl_destructor_def wp_bind [of _ "readE _"] wp_read wp_then [of _ "if _ then _ else _"]
    by (rule wp_weaken [OF exitsD]) (rule finish)
qed

text \<open>
  The destructor of \<open>Impl\<close> always completes, whatever the SDK or the thread
  library throws: the stop signal is up, no joinable thread is left behind (which
  would terminate the process) and the SDK client has been given back.
\<close>

theorem impl_destructor_complete:
  "wp {} (impl_destructor K self) (\<lambda>_ t. getEffectiveStopSignal t \<and> m_watchdogThread t = WD_null \<and>
     m_impl t = None) s"
  by (rule wp_impl_destructor)

lemma exits_impl_destructor: "exits {} (impl_destructor K self)"
  unfolding exits_def by (intro allI wp_weaken [OF wp_impl_destructor] TrueI)

end
