(* ===== verification/Client_Api.thy ===== *)
theory Client_Api
  imports Impl_Lifecycle Impl_Batch
begin

text \<open>
  The public class \<open>OPC_UA_Client\<close> in \<open>src/OPCUAPacking/ua.cpp\<close>: the lease every call
  takes, the handlers that turn exceptions into errors, each public operation, the two
  factories, the constructor, the destructor and \<open>recreateGiveUpClient()\<close>.  One call runs
  at a time here; \<open>Recreate_Protocol\<close> treats the interleavings of these operations.
\<close>

section \<open>State\<close>

text \<open>
  The members of \<open>OPC_UA_Client\<close> and of its \<open>RecreateSync\<close>.  While \<open>pImpl\<close> is set its own
  \<open>world\<close> field is stale and \<open>c_world\<close> is current.  \<open>borrowed\<close>: a call of another thread
  holds a copy of \<open>pImpl\<close>, so that dropping the pointer here does not destroy the object.
\<close>

record 'w client =
  pImpl :: "'w impl option"
  m_recreating :: bool
  m_terminated :: bool
  m_inFlight :: int
  m_shutdownInFlight :: int
  m_endpointUrl :: string
  borrowed :: bool
  c_world :: 'w

text \<open>A call into the SDK that no \<open>Impl\<close> makes.\<close>

definition worldCall :: "('w, 'a) sdk_call \<Rightarrow> ('w client, 'a) cpp" where
  "worldCall c = (\<lambda>s. case c (c_world s) of (r, _, w) \<Rightarrow>
     ((case r of Inl e \<Rightarrow> Throw e | Inr x \<Rightarrow> Ret x), s\<lparr>c_world := w\<rparr>))"

text \<open>An operation of \<open>Impl\<close> on an object held by a local pointer, and on \<open>pImpl\<close>'s.\<close>

definition with_local ::
  "'w impl \<Rightarrow> ('w impl, 'a) cpp \<Rightarrow> ('a outcome \<Rightarrow> 'w impl \<Rightarrow> ('w client, 'b) cpp) \<Rightarrow> ('w client, 'b) cpp" where
  "with_local i m k = (\<lambda>s. case m (i\<lparr>world := c_world s\<rparr>) of (r, j) \<Rightarrow> k r j (s\<lparr>c_world := world j\<rparr>))"

definition on_pImpl :: "('w impl, 'a) cpp \<Rightarrow> ('w client, 'a) cpp" where
  "on_pImpl m = (\<lambda>s. case pImpl s of None \<Rightarrow> (Fault, s)
     | Some i \<Rightarrow> (case m (i\<lparr>world := c_world s\<rparr>) of (r, j) \<Rightarrow> (r, s\<lparr>pImpl := Some j, c_world := world j\<rparr>)))"

section \<open>Exceptions and leases\<close>

text \<open>
  The four handlers of a public entry point.  The text before a system error ends in a
  space in \<open>create\<close>, \<open>batchRead\<close> and \<open>batchWrite\<close> only.
\<close>

fun exn_error :: "string \<Rightarrow> cpp_exn \<Rightarrow> rich_error" where
  "exn_error sys (Bad_Alloc m) = RichError EC_INTERNAL_ERROR (''Memory allocation failed: '' @ m)"
| "exn_error sys (System_Error m) = RichError EC_SDK_ERROR (sys @ m)"
| "exn_error sys (Std_Exception m) = RichError EC_INTERNAL_ERROR (''Unexpected error: '' @ m)"
| "exn_error sys Unknown_Exn = RichError EC_UNKNOWN ''Unknown error''"

definition guarded :: "string \<Rightarrow> ('s, ('a, rich_error) result) cpp \<Rightarrow> ('s, ('a, rich_error) result) cpp" where
  "guarded sys m = catchE m (\<lambda>e. ret (Error (exn_error sys e)))"

text \<open>\<open>ApiLease\<close>.\<close>

datatype lease_reason = Active | Recreating | Terminated

definition reason :: "'w client \<Rightarrow> lease_reason" where
  "reason s = (if m_terminated s then Terminated else if m_recreating s then Recreating else Active)"

definition api_enter :: "'w client \<Rightarrow> 'w client" where
  "api_enter s = s\<lparr>m_inFlight := m_inFlight s + 1\<rparr>"

definition api_leave :: "'w client \<Rightarrow> 'w client" where
  "api_leave s = s\<lparr>m_inFlight := m_inFlight s - 1\<rparr>"

definition with_lease :: "('w client, 'a) cpp \<Rightarrow> ('w client, 'a) cpp \<Rightarrow> ('w client, 'a) cpp \<Rightarrow> ('w client, 'a) cpp" where
  "with_lease rec term body = bindE (readE reason) (\<lambda>r. case r of
       Recreating \<Rightarrow> rec
     | Terminated \<Rightarrow> term
     | Active \<Rightarrow> thenE (modifyE api_enter) (finallyE body api_leave))"

definition fail :: "error_code \<Rightarrow> string \<Rightarrow> ('s, ('a, rich_error) result) cpp" where
  "fail c msg = ret (Error (RichError c msg))"

definition with_pImpl :: "('w client, 'a) cpp \<Rightarrow> ('w client, 'a) cpp \<Rightarrow> ('w client, 'a) cpp" where
  "with_pImpl null body = bindE (readE pImpl) (\<lambda>p. case p of None \<Rightarrow> null | Some _ \<Rightarrow> body)"

text \<open>The entry shared by the leased calls, \<open>who\<close> naming the call in its messages.\<close>

definition api :: "string \<Rightarrow> ('w client, ('a, rich_error) result) cpp \<Rightarrow> ('w client, ('a, rich_error) result) cpp" where
  "api who body = with_lease
     (fail EC_RECREATING (who @ '': client is being recreated, please retry later''))
     (fail EC_ALREADY_TERMINATED (who @ '': client has been terminated''))
     (with_pImpl (fail EC_ALREADY_TERMINATED (who @ '': client is nullptr'')) body)"

section \<open>Leased operations\<close>

definition client_connect :: "'w sdk \<Rightarrow> nat \<Rightarrow> ('w client, (unit, rich_error) result) cpp" where
  "client_connect K fuel = api ''connect'' (guarded ''System error:''
     (bindE (on_pImpl (impl_connect K fuel)) (\<lambda>r. case r of
        Success _ \<Rightarrow> ret (Success ())
      | Error e \<Rightarrow> fail (toRichErrorCode_connect e) (connectErrorStateToString e))))"

definition client_disconnect :: "'w sdk \<Rightarrow> nat \<Rightarrow> ('w client, (unit, rich_error) result) cpp" where
  "client_disconnect K fuel = api ''disconnect'' (guarded ''System error:''
     (bindE (on_pImpl (impl_disconnect K fuel)) (\<lambda>r. case r of
        Success _ \<Rightarrow> ret (Success ())
      | Error e \<Rightarrow> fail (toRichErrorCode_disconnect e) (disconnectErrorStateToString e))))"

definition checkConnected :: "'w sdk \<Rightarrow> ('w client, (unit, rich_error) result) cpp" where
  "checkConnected K = api ''checkConnected'' (bindE (on_pImpl (readE getEffectiveStopSignal)) (\<lambda>stop.
     if stop then fail EC_NOT_CONNECTED ''checkConnected: client is not running''
     else guarded ''System error:'' (bindE (on_pImpl (isConnected K 0)) (\<lambda>r. case r of
        Success status \<Rightarrow> if status then ret (Success ()) else fail EC_NOT_CONNECTED ''checkConnected: fail''
      | Error e \<Rightarrow> fail (toRichErrorCode_connect e) ''checkConnected: fail''))))"

definition isHealthy :: "'w sdk \<Rightarrow> ('w client, (unit, rich_error) result) cpp" where
  "isHealthy K = api ''isHealthy'' (bindE (on_pImpl (readE getEffectiveStopSignal)) (\<lambda>stop.
     if stop then fail EC_NOT_CONNECTED ''isHealthy: client is not running''
     else guarded ''System error:'' (bindE (on_pImpl (readE (isHealthyCached K))) (\<lambda>r.
        if r then ret (Success ()) else fail EC_NOT_CONNECTED ''isHealthy: fail''))))"

definition checkLifeState :: "('w client, (life_state, rich_error) result) cpp" where
  "checkLifeState = api ''checkLifeState'' (guarded ''System error:''
     (bindE (on_pImpl (readE m_lifeState)) (\<lambda>l. ret (Success l))))"

text \<open>\<open>setGiveUpSignal\<close> words its rejections differently.\<close>

definition client_setGiveUpSignal :: "('w client, (unit, rich_error) result) cpp" where
  "client_setGiveUpSignal = with_lease
     (fail EC_RECREATING ''setGiveUpSignal: recreating'')
     (fail EC_ALREADY_TERMINATED ''setGiveUpSignal: terminated'')
     (with_pImpl (fail EC_NOT_INITIALIZED ''setGiveUpSignal: client is nullptr'')
       (guarded ''System error:'' (on_pImpl (\<lambda>s. case setGiveUpSignal s of (r, t) \<Rightarrow> (Ret r, t)))))"

definition batchRead ::
  "'w sdk \<Rightarrow> node_id list \<Rightarrow> ('w client, (read_result list, rich_error) result) cpp" where
  "batchRead K nodes = guarded ''System error: '' (api ''batchRead'' (on_pImpl (impl_batchRead K nodes)))"

definition batchWrite ::
  "'w sdk \<Rightarrow> write_item list \<Rightarrow> ('w client, (write_result list, rich_error) result) cpp" where
  "batchWrite K items = guarded ''System error: '' (api ''batchWrite'' (on_pImpl (impl_batchWrite K items)))"

definition pumpWatchdogForTest :: "'w sdk \<Rightarrow> nat \<Rightarrow> ('w client, unit) cpp" where
  "pumpWatchdogForTest K fuel = with_lease (ret ()) (ret ())
     (with_pImpl (ret ()) (on_pImpl (doWatchdogDecision K fuel)))"

definition getRecreatingStatus :: "('w client, bool) cpp" where
  "getRecreatingStatus = readE m_recreating"

section \<open>Shutdown and destruction\<close>

text \<open>
  \<open>shutdown()\<close> on an object whose pointer has been moved out, and its destructor when no
  other call holds a copy.
\<close>

definition dispose :: "'w sdk \<Rightarrow> bool \<Rightarrow> 'w impl \<Rightarrow> ('w client, unit) cpp" where
  "dispose K unique i = with_local i
     (thenE (impl_shutdown K False) (if unique then impl_destructor K False else ret ())) (\<lambda>r _ s. (r, s))"

definition shutdownInternal :: "'w sdk \<Rightarrow> ('w client, (unit, rich_error) result) cpp" where
  "shutdownInternal K = bindE (readE (\<lambda>s. (pImpl s, borrowed s))) (\<lambda>(p, shared). case p of
       None \<Rightarrow> ret (Success ())
     | Some doomed \<Rightarrow> thenE (modifyE (\<lambda>s. s\<lparr>pImpl := None\<rparr>))
         (thenE (dispose K (\<not> shared) doomed) (ret (Success ()))))"

definition shutdown_begin :: "'w client \<Rightarrow> 'w client" where
  "shutdown_begin s = s\<lparr>m_terminated := True, m_shutdownInFlight := m_shutdownInFlight s + 1\<rparr>"

text \<open>\<open>~ShutdownCallGuard\<close>.\<close>

definition shutdown_end :: "'w client \<Rightarrow> 'w client" where
  "shutdown_end s = (if 0 < m_shutdownInFlight s then s\<lparr>m_shutdownInFlight := m_shutdownInFlight s - 1\<rparr> else s)"

definition client_shutdown :: "'w sdk \<Rightarrow> ('w client, (unit, rich_error) result) cpp" where
  "client_shutdown K = bindE (readE (\<lambda>s. (m_recreating s, m_terminated s))) (\<lambda>(rec, term).
     if rec then fail EC_RECREATING ''shutdown: client is being recreated, please retry later''
     else if term then ret (Success ())
     else thenE (modifyE shutdown_begin)
       (finallyE (guarded ''System error:'' (shutdownInternal K)) shutdown_end))"

text \<open>
  The destructor.  Its wait ends when no recreate is running and no winner of
  \<open>shutdown()\<close> is left: the threads it waits for have then cleared both marks.
\<close>

definition wait_for_others :: "'w client \<Rightarrow> 'w client" where
  "wait_for_others s = s\<lparr>m_recreating := False, m_shutdownInFlight := 0\<rparr>"

definition client_destructor :: "'w sdk \<Rightarrow> ('w client, unit) cpp" where
  "client_destructor K =
     thenE (modifyE (\<lambda>s. s\<lparr>m_terminated := True\<rparr>))
     (thenE (modifyE wait_for_others)
       (swallow (bindE (shutdownInternal K) (\<lambda>_. ret ()))))"

section \<open>Recreation\<close>

text \<open>
  The wait for the leases of other calls, at most 2000 ms; \<open>left\<close> is how many are still
  held when it ends (none can be added while \<open>m_recreating\<close> is set).
\<close>

definition drain_leases :: "'w sdk \<Rightarrow> int \<Rightarrow> ('w client, bool) cpp" where
  "drain_leases K left = bindE (readE m_inFlight) (\<lambda>n.
     if n = 0 then ret True
     else thenE (worldCall (wait_ms K 2000))
       (thenE (modifyE (\<lambda>s. s\<lparr>m_inFlight := min n left\<rparr>)) (readE (\<lambda>s. m_inFlight s = 0))))"

text \<open>Bringing the candidate up: configure, connect, start its watchdog.\<close>

definition candidate_start :: "'w sdk \<Rightarrow> nat \<Rightarrow> ('w impl, (unit, rich_error) result) cpp" where
  "candidate_start K fuel = bindE (configureClient K True) (\<lambda>c. case c of
       Error _ \<Rightarrow> fail EC_INVALID_CONFIG ''configureClient failed''
     | Success _ \<Rightarrow> bindE (impl_connect K fuel) (\<lambda>r. case r of
         Error e \<Rightarrow> fail (toRichErrorCode_connect e) (connectErrorStateToString e)
       | Success _ \<Rightarrow> startWatchdog K))"

text \<open>
  The exchange of the pointers under \<open>m_lock\<close>.  \<open>dtor\<close>: the owner has begun to destroy
  the client while the candidate was being built, which sets \<open>m_terminated\<close>.  The old
  object has no other holder: the leases have drained.
\<close>

definition adopt_candidate :: "'w sdk \<Rightarrow> bool \<Rightarrow> 'w impl \<Rightarrow> ('w client, (unit, rich_error) result) cpp" where
  "adopt_candidate K dtor new =
     thenE (modifyE (\<lambda>s. if dtor then s\<lparr>m_terminated := True\<rparr> else s))
     (bindE (readE (\<lambda>s. (m_terminated s, pImpl s))) (\<lambda>(term, old).
       if term then thenE (dispose K True new)
         (fail EC_ALREADY_TERMINATED ''shutdown called during recreate'')
       else thenE (modifyE (\<lambda>s. s\<lparr>pImpl := Some new\<rparr>))
         (thenE (case old of None \<Rightarrow> ret () | Some i \<Rightarrow> dispose K True i)
           (ret (Success ())))))"

text \<open>
  \<open>CandidateGuard\<close>: a candidate that is not adopted is shut down and destroyed on every
  way out, an exception included.
\<close>

definition after_candidate ::
  "'w sdk \<Rightarrow> bool \<Rightarrow> (unit, rich_error) result outcome \<Rightarrow> 'w impl \<Rightarrow> ('w client, (unit, rich_error) result) cpp" where
  "after_candidate K dtor r new = (case r of
       Ret (Success _) \<Rightarrow> adopt_candidate K dtor new
     | Ret (Error e) \<Rightarrow> thenE (dispose K True new) (ret (Error e))
     | Throw x \<Rightarrow> thenE (dispose K True new) (throwE x)
     | Diverge \<Rightarrow> divergeE
     | Fault \<Rightarrow> faultE)"

definition recreate_try ::
  "'w sdk \<Rightarrow> nat \<Rightarrow> bool \<Rightarrow> client_config \<Rightarrow> ('w client, (unit, rich_error) result) cpp" where
  "recreate_try K fuel dtor cfg = bindE (worldCall (sdk_clientNew K)) (\<lambda>raw. case raw of
       None \<Rightarrow> fail EC_SDK_ERROR ''UA_Client_new() failed''
     | Some c \<Rightarrow> bindE (readE (\<lambda>s. new_impl K cfg (m_endpointUrl s) c (c_world s))) (\<lambda>new.
         with_local new (candidate_start K fuel) (after_candidate K dtor)))"

definition recreate_body ::
  "'w sdk \<Rightarrow> nat \<Rightarrow> int \<Rightarrow> bool \<Rightarrow> ('w client, (unit, rich_error) result) cpp" where
  "recreate_body K fuel left dtor = bindE (drain_leases K left) (\<lambda>drained.
     if \<not> drained then fail EC_IN_FLIGHT_TIMEOUT
       ''recreateGiveUpClient: timeout waiting for in-flight APIs to drain''
     else bindE (readE pImpl) (\<lambda>p.
     if (case p of None \<Rightarrow> RUNNING | Some i \<Rightarrow> m_lifeState i) \<noteq> GIVEN_UP
     then fail EC_NOT_GIVEN_UP ''recreateGiveUpClient: client is not in GIVEN_UP state''
     else (case p of
         None \<Rightarrow> fail EC_NOT_INITIALIZED ''client = nullptr''
       | Some i \<Rightarrow> guarded ''System error:'' (recreate_try K fuel dtor (m_config i)))))"

definition set_recreating :: "bool \<Rightarrow> 'w client \<Rightarrow> 'w client" where
  "set_recreating b s = s\<lparr>m_recreating := b\<rparr>"

definition recreateGiveUpClient ::
  "'w sdk \<Rightarrow> nat \<Rightarrow> int \<Rightarrow> bool \<Rightarrow> ('w client, (unit, rich_error) result) cpp" where
  "recreateGiveUpClient K fuel left dtor = bindE (readE (\<lambda>s. (m_recreating s, m_terminated s))) (\<lambda>(rec, term).
     if rec then fail EC_RECREATING ''recreateGiveUpClient: client is being recreated, please retry later''
     else if term then fail EC_ALREADY_TERMINATED ''recreateGiveUpClient: client has been terminated''
     else thenE (modifyE (set_recreating True))
       (finallyE (recreate_body K fuel left dtor) (set_recreating False)))"

section \<open>Construction\<close>

text \<open>\<open>std::bad_alloc::what()\<close>; the constructor throws it when the SDK gives no client.\<close>

definition bad_alloc :: cpp_exn where
  "bad_alloc = Bad_Alloc ''std::bad_alloc''"

definition construct :: "'w sdk \<Rightarrow> string \<Rightarrow> client_config \<Rightarrow> ('w, 'w client) cpp" where
  "construct K url cfg = (\<lambda>w. case sdk_clientNew K w of
       (Inl e, _, w') \<Rightarrow> (Throw e, w')
     | (Inr None, _, w') \<Rightarrow> (Throw bad_alloc, w')
     | (Inr (Some c), _, w') \<Rightarrow> (Ret \<lparr>pImpl = Some (new_impl K cfg url c w'), m_recreating = False,
         m_terminated = False, m_inFlight = 0, m_shutdownInFlight = 0, m_endpointUrl = url,
         borrowed = False, c_world = w'\<rparr>, w'))"

text \<open>Errors pass on through \<open>what()\<close>, a C string.\<close>

definition rewrap :: "rich_error \<Rightarrow> rich_error" where
  "rewrap e = RichError (err_code e) (c_str (err_context e))"

definition bring_up :: "'w sdk \<Rightarrow> nat \<Rightarrow> bool \<Rightarrow> bool \<Rightarrow> ('w client, (unit, rich_error) result) cpp" where
  "bring_up K fuel useDefault watchdog =
     bindE (on_pImpl (configureClient K useDefault)) (\<lambda>c. case c of
       Error e \<Rightarrow> ret (Error (rewrap e))
     | Success _ \<Rightarrow> bindE (client_connect K fuel) (\<lambda>r. case r of
         Error e \<Rightarrow> ret (Error (rewrap e))
       | Success _ \<Rightarrow> if watchdog then on_pImpl (startWatchdog K) else ret (Success ())))"

text \<open>The \<open>unique_ptr\<close> of a client that is not returned runs its destructor.\<close>

definition discard :: "'w sdk \<Rightarrow> 'w client \<Rightarrow> 'w" where
  "discard K c = c_world (snd (client_destructor K c))"

definition build_client ::
  "'w sdk \<Rightarrow> nat \<Rightarrow> string \<Rightarrow> client_config \<Rightarrow> bool \<Rightarrow> bool \<Rightarrow> ('w, ('w client, rich_error) result) cpp" where
  "build_client K fuel url cfg useDefault watchdog = bindE (construct K url cfg) (\<lambda>c _.
     case bring_up K fuel useDefault watchdog c of
       (Ret (Success _), c') \<Rightarrow> (Ret (Success c'), c_world c')
     | (Ret (Error e), c') \<Rightarrow> (Ret (Error e), discard K c')
     | (Throw x, c') \<Rightarrow> (Throw x, discard K c')
     | (Diverge, c') \<Rightarrow> (Diverge, c_world c')
     | (Fault, c') \<Rightarrow> (Fault, c_world c'))"

definition create ::
  "'w sdk \<Rightarrow> nat \<Rightarrow> string \<Rightarrow> client_config \<Rightarrow> bool \<Rightarrow> ('w, ('w client, rich_error) result) cpp" where
  "create K fuel url cfg useDefault = guarded ''System error: '' (build_client K fuel url cfg useDefault True)"

definition createWithSdk ::
  "'w sdk option \<Rightarrow> nat \<Rightarrow> string \<Rightarrow> client_config \<Rightarrow> bool \<Rightarrow> bool \<Rightarrow> ('w, ('w client, rich_error) result) cpp" where
  "createWithSdk sdk fuel url cfg useDefault watchdog = guarded ''System error:'' (case sdk of
       None \<Rightarrow> fail EC_NOT_INITIALIZED ''createWithSdk: sdk is null''
     | Some K \<Rightarrow> build_client K fuel url cfg useDefault watchdog)"

end
