(* ===== verification/Timing.thy ===== *)
theory Timing
  imports Connect_Facts
begin

text \<open>
  Termination of the two polling loops.  \<open>connect()\<close> and \<open>disconnect()\<close> carry a wall
  clock bound beside the SDK's own clock; the only assumption is what a wall clock is:
  it never runs backwards, a pass through the event loop takes some time, and reading
  it gives a time between the beginning and the end of the read.
\<close>

definition wall_documented :: "'w sdk \<Rightarrow> ('w \<Rightarrow> int) \<Rightarrow> bool" where
  "wall_documented K clk \<longleftrightarrow>
     (\<forall>c n w. clk w < clk (snd (snd (sdk_runIterate K c n w)))) \<and>
     (\<forall>c w. clk w \<le> clk (snd (snd (sdk_getState K c w)))) \<and>
     (\<forall>c url w. clk w \<le> clk (snd (snd (sdk_connectAsync K c url w)))) \<and>
     (\<forall>c w. clk w \<le> clk (snd (snd (sdk_disconnectAsync K c w)))) \<and>
     (\<forall>w. clk w \<le> clk (snd (snd (sdk_nowMs K w)))) \<and>
     (\<forall>n w. clk w \<le> clk (snd (snd (wait_ms K n w)))) \<and>
     (\<forall>w. clk w \<le> clk (snd (snd (wall_now K w)))) \<and>
     (\<forall>w t. fst (wall_now K w) = Inr t \<longrightarrow> clk w \<le> t \<and> t \<le> clk (snd (snd (wall_now K w))))"

definition time_flows :: "'w sdk \<Rightarrow> ('w \<Rightarrow> int) \<Rightarrow> 'w impl \<Rightarrow> 'w impl \<Rightarrow> bool" where
  "time_flows K clk s t \<longleftrightarrow> (wall_documented K clk \<longrightarrow> clk (world s) \<le> clk (world t))"

interpretation time: impl_contract "time_flows K clk" K
  by unfold_locales (auto simp: time_flows_def wall_documented_def apply_event_keeps less_imp_le)

section \<open>Only the loops can run out of iterations\<close>

abbreviation "no_diverge \<equiv> - {Diverged}"

lemma exits_iterate: "exits no_diverge (callRunIterate K c n)"
  unfolding callRunIterate_def by (intro exits_impl) auto

lemma exits_now: "exits no_diverge (nowMsImpl K)"
  unfolding nowMsImpl_def by (intro exits_impl) auto

lemma exits_bad: "exits no_diverge (updateBadStatusTime K)"
  unfolding updateBadStatusTime_def by (intro exits_impl exits_now)

lemma exits_probe: "exits no_diverge (isConnected K tmo)"
  unfolding isConnected_def by (intro exits_impl exits_iterate exits_bad) auto

lemma exits_connect_last: "exits no_diverge (connect_last K c)"
  unfolding connect_last_def connect_abort_def
  by (intro exits_impl exits_probe exits_result) auto

lemma exits_disconnect_timeout: "exits no_diverge (disconnect_timeout K c)"
  unfolding disconnect_timeout_def by (intro exits_impl exits_probe) auto

section \<open>Each pass takes time\<close>

lemma wp_flows:
  assumes "wall_documented K clk" and "guar (time_flows K clk) m"
  shows "wp UNIV m (\<lambda>x t. clk (world s) \<le> clk (world t)) s"
  using wp_guar [OF assms(2), of s] by (rule wp_weaken) (simp add: time_flows_def assms(1))

lemma wp_flows_later:
  assumes "wall_documented K clk" and "guar (time_flows K clk) m" and "now < clk (world u)"
  shows "wp UNIV m (\<lambda>x t. now < clk (world t)) u"
  using wp_flows [OF assms(1,2)] by (rule wp_weaken) (use assms(3) in simp)

lemma wp_iterate_later:
  assumes "wall_documented K clk"
  shows "wp UNIV (callRunIterate K c n) (\<lambda>_ t. clk (world s) < clk (world t)) s"
proof -
  have "clk (world s) < clk (snd (snd (sdk_runIterate K c n (world s))))"
    using assms by (simp add: wall_documented_def)
  then show ?thesis
    by (auto simp: callRunIterate_def wp_simps split: prod.splits sum.splits)
qed

lemma wp_wall_now:
  assumes "wall_documented K clk"
  shows "wp no_diverge (sdkCall (wall_now K)) (\<lambda>w t. clk (world s) \<le> w \<and> w \<le> clk (world t)) s"
proof -
  have "fst (wall_now K (world s)) = Inr t \<Longrightarrow>
      clk (world s) \<le> t \<and> t \<le> clk (snd (snd (wall_now K (world s))))" for t
    using assms by (simp add: wall_documented_def)
  then show ?thesis by (auto simp: wp_simps split: prod.splits sum.splits)
qed

definition progress_post :: "'w sdk \<Rightarrow> ('w \<Rightarrow> int) \<Rightarrow> int \<Rightarrow> (bool, connect_error) result \<Rightarrow> 'w impl \<Rightarrow> bool" where
  "progress_post K clk now r t \<longleftrightarrow> probe_post K r t \<and>
     (\<forall>b. r = Success b \<longrightarrow> now < clk (world t))"

lemma wp_probe_later:
  assumes "wall_documented K clk"
  shows "wp no_diverge (isConnected K tmo) (progress_post K clk (clk (world s))) s"
proof (rule wp_exits [OF exits_probe])
  have "wp UNIV (isConnected K tmo) (\<lambda>r t. \<forall>b. r = Success b \<longrightarrow> clk (world s) < clk (world t)) s"
  proof (cases "getEffectiveStopSignal s \<or> m_impl s = None")
    case True
    then show ?thesis by (auto simp: isConnected_def wp_simps)
  next
    case False
    then obtain c where c: "m_impl s = Some c" "\<not> getEffectiveStopSignal s" by auto
    let ?rest = "bindE (readE state_packed) (\<lambda>expected.
        bindE (sdkCall (sdk_getState K c)) (\<lambda>(channelState, sessionState, statusCode).
        thenE (modifyE (\<lambda>s. s\<lparr>state_packed := snd (tryPublishIfUnchanged expected statusCode
                   channelState sessionState (state_packed s))\<rparr>))
        (thenE (if \<not> sdk_isGood K statusCode then updateBadStatusTime K else ret ())
          (readE (\<lambda>s. Success (isHealthyCached K s) :: (bool, connect_error) result)))))"
    have "guar (time_flows K clk) ?rest"
      by (intro time.c_intros time.g_prod3)
    then have "wp UNIV ?rest (\<lambda>r t. clk (world s) < clk (world t)) u" if "clk (world s) < clk (world u)" for u
      using assms that by (intro wp_flows_later)
    then have "wp UNIV (thenE (callRunIterate K c tmo) ?rest) (\<lambda>r t. clk (world s) < clk (world t)) s"
      unfolding wp_then by (intro wp_weaken [OF wp_iterate_later [OF assms]])
    then have "wp UNIV (thenE (callRunIterate K c tmo) ?rest)
        (\<lambda>r t. \<forall>b. r = Success b \<longrightarrow> clk (world s) < clk (world t)) s"
      by (rule wp_weaken) simp
    with c show ?thesis
      by (simp add: isConnected_def wp_bind [of _ "readE _"] wp_read)
  qed
  then show "wp UNIV (isConnected K tmo) (progress_post K clk (clk (world s))) s"
    unfolding progress_post_def by (rule wp_conj [OF wp_probe])
qed

lemma flows_no_diverge:
  assumes "wall_documented K clk" and "guar (time_flows K clk) m" and "exits no_diverge m"
  shows "wp no_diverge m (\<lambda>x t. clk (world s) \<le> clk (world t)) s"
  by (rule wp_exits [OF assms(3) wp_flows [OF assms(1,2)]])

section \<open>connect\<close>

lemma connect_rest_terminates:
  assumes wall: "wall_documented K clk"
    and again: "\<And>t. clk (world s) \<le> clk (world t) \<Longrightarrow> clk (world s) < dl \<Longrightarrow>
      wp no_diverge again (\<lambda>_ _. True) t"
  shows "wp no_diverge (connect_rest K c st dl again) (\<lambda>_ _. True) s"
proof -
  have "wp no_diverge (sdkCall (wall_now K)) (\<lambda>w. wp no_diverge
      (bindE (readE (\<lambda>s. uint (timeoutMs (m_config s)))) (\<lambda>timeout.
       if timeout < now - st \<or> dl \<le> w then connect_last K c
       else bindE (readE getEffectiveStopSignal) (\<lambda>stop.
         if stop then ret (Error CE_SHUTDOWN) else again))) (\<lambda>_ _. True)) t"
    if "clk (world s) \<le> clk (world t)" for now t
    by (rule wp_weaken [OF wp_wall_now [OF wall]])
      (use that in \<open>auto simp: wp_simps exitsD [OF exits_connect_last] intro!: again\<close>)
  then show ?thesis
    unfolding connect_rest_def wp_bind
    by (intro wp_weaken [OF flows_no_diverge [OF wall time.g_nowMs exits_now]])
qed

lemma connect_loop_terminates:
  assumes wall: "wall_documented K clk" and "nat (dl - clk (world s)) < n"
  shows "wp no_diverge (connect_loop K c st dl n) (\<lambda>_ _. True) s"
  using assms(2)
proof (induction n arbitrary: s)
  case (Suc n)
  have rest: "wp no_diverge (connect_rest K c st dl (connect_loop K c st dl n)) (\<lambda>_ _. True) t"
    if "clk (world s) < clk (world t)" for t
    by (rule connect_rest_terminates [OF wall]) (use that Suc.prems in \<open>auto intro!: Suc.IH\<close>)
  show ?case
    unfolding connect_loop.simps connect_iter_def wp_bind [of _ "isConnected K 50"]
    by (rule wp_weaken [OF wp_probe_later [OF wall]])
      (auto simp: progress_post_def probe_post_def wp_simps rest split: result.splits)
qed simp

text \<open>The configuration in force, for the length of the wait.\<close>

definition enough_polls :: "client_config \<Rightarrow> nat" where
  "enough_polls cfg = unat (wall_budget_ms cfg) * 1000000 + 1"

text \<open>However long the configured time-out is, the budget has 32 bits.\<close>

definition max_polls :: nat where
  "max_polls = 4294967295 * 1000000 + 1"

lemma enough_polls_max: "enough_polls cfg \<le> max_polls"
  using unat_u32_less [of "wall_budget_ms cfg"] unfolding enough_polls_def max_polls_def by simp

lemma wp_same_config:
  assumes "guar keeps_identity m"
  shows "wp UNIV m (\<lambda>_ t. m_config t = m_config s) s"
  by (rule wp_weaken [OF wp_guar [OF assms]]) (simp add: keeps_identity_def)

lemma deadline_fuel:
  assumes "enough_polls cfg \<le> n" and "now \<le> t"
  shows "nat (wall_deadline cfg now - t) < n"
proof -
  have "wall_deadline cfg now - t \<le> int (unat (wall_budget_ms cfg) * 1000000)"
    using assms(2) by (simp add: wall_deadline_def)
  then have "nat (wall_deadline cfg now - t) \<le> unat (wall_budget_ms cfg) * 1000000" by linarith
  with assms(1) show ?thesis unfolding enough_polls_def by linarith
qed

text \<open>The common prefix of both operations: the calls before the loop, then the loop.\<close>

lemma start_terminates:
  assumes wall: "wall_documented K clk" and fuel: "enough_polls (m_config s) \<le> n"
    and loop: "\<And>start dl t. nat (dl - clk (world t)) < n \<Longrightarrow> wp no_diverge (loop start dl) (\<lambda>_ _. True) t"
  shows "wp no_diverge (bindE (nowMsImpl K) (\<lambda>start. bindE (sdkCall (wall_now K)) (\<lambda>w.
     bindE (readE m_config) (\<lambda>cfg. loop start (wall_deadline cfg w))))) (\<lambda>_ _. True) s"
proof -
  have 2: "wp no_diverge (sdkCall (wall_now K)) (\<lambda>w u. wp no_diverge
      (bindE (readE m_config) (\<lambda>cfg. loop start (wall_deadline cfg w))) (\<lambda>_ _. True) u) t"
    if "m_config t = m_config s" for start t
  proof -
    have "exits no_diverge (sdkCall (wall_now K))" by (rule exits_sdkCall) auto
    then have "wp no_diverge (sdkCall (wall_now K)) (\<lambda>w u. m_config u = m_config t) t"
      by (rule wp_exits) (rule wp_same_config, rule identity.g_sdkCall)
    from wp_conj [OF wp_wall_now [OF wall] this] show ?thesis
      by (rule wp_weaken) (use that fuel in \<open>auto simp: wp_simps intro!: loop deadline_fuel\<close>)
  qed
  have "wp no_diverge (nowMsImpl K) (\<lambda>_ t. m_config t = m_config s) s"
    by (rule wp_exits [OF exits_now wp_same_config]) (rule identity.g_nowMs)
  then show ?thesis
    unfolding wp_bind [of _ "nowMsImpl K"] wp_bind [of _ "sdkCall (wall_now K)"]
    by (rule wp_weaken) (rule 2)
qed

lemma call_then_terminates:
  assumes "\<And>x t. m_config t = m_config s \<Longrightarrow> wp no_diverge (f x) (\<lambda>_ _. True) t"
  shows "wp no_diverge (bindE (sdkCall c) f) (\<lambda>_ _. True) s"
proof -
  have "exits no_diverge (sdkCall c)" by (rule exits_sdkCall) auto
  then have "wp no_diverge (sdkCall c) (\<lambda>_ t. m_config t = m_config s) s"
    by (rule wp_exits) (rule wp_same_config, rule identity.g_sdkCall)
  then show ?thesis unfolding wp_bind by (rule wp_weaken) (rule assms)
qed

lemma connect_body_terminates:
  assumes "wall_documented K clk" and "enough_polls (m_config s) \<le> n"
  shows "wp no_diverge (connect_body K n c) (\<lambda>_ _. True) s"
  unfolding connect_body_def wp_bind [of _ "readE _"] wp_read
  using assms
  by (auto intro!: call_then_terminates start_terminates connect_loop_terminates simp: wp_if wp_then_ret)

lemma in_flight_wp: "wp A m (\<lambda>_ _. True) (task_begin s) \<Longrightarrow> wp A (in_flight m) (\<lambda>_ _. True) s"
  by (simp add: in_flight_def wp_simps)

lemma cas_guard_wp:
  "wp A body (\<lambda>_ _. True) (s\<lparr>m_connState := CONNECTING\<rparr>) \<Longrightarrow> (\<And>c. exits A (busy c)) \<Longrightarrow>
     wp A (cas_guard busy body) (\<lambda>_ _. True) s"
  by (simp add: cas_guard_def wp_simps exitsD)

lemma config_frame [simp]:
  "m_config (task_begin s) = m_config s" "m_config (s\<lparr>m_connState := c\<rparr>) = m_config s"
  by (simp_all add: task_begin_def)

lemma connect_no_diverge:
  assumes "wall_documented K clk" and "enough_polls (m_config s) \<le> n"
  shows "wp no_diverge (impl_connect K n) (\<lambda>_ _. True) s"
proof -
  have "wp no_diverge (cas_guard connect_busy (connect_body K n c)) (\<lambda>_ _. True) (task_begin s)" for c
    using assms by (intro cas_guard_wp connect_body_terminates)
      (auto simp: connect_busy_def exits_def wp_simps)
  then show ?thesis
    unfolding impl_connect_def by (intro in_flight_wp) (auto simp: wp_simps split: option.splits)
qed

text \<open>
  \<open>connect()\<close> always returns: with one poll per nanosecond of the wall budget
  \<open>2 * timeoutMs + 500\<close> ms the loop has ended, whatever the SDK reports, throws or
  lets its own clock do, because each pass lets the wall clock advance.
\<close>

theorem connect_terminates:
  assumes "wall_documented K clk" and "enough_polls (m_config s) \<le> n"
  shows "fst (impl_connect K n s) \<noteq> Diverge"
  using wp_exit(2) [OF connect_no_diverge [OF assms]] by simp

section \<open>disconnect\<close>

lemma disconnect_rest_terminates:
  assumes wall: "wall_documented K clk"
    and again: "\<And>t. clk (world s) \<le> clk (world t) \<Longrightarrow> clk (world s) < dl \<Longrightarrow>
      wp no_diverge again (\<lambda>_ _. True) t"
  shows "wp no_diverge (disconnect_rest K c st dl again) (\<lambda>_ _. True) s"
proof -
  have sleep: "wp no_diverge (thenE (sdkCall (wait_ms K 50)) again) (\<lambda>_ _. True) t"
    if "clk (world s) \<le> clk (world t)" "clk (world s) < dl" for t
  proof -
    have "exits no_diverge (sdkCall (wait_ms K 50))" by (rule exits_sdkCall) auto
    then have "wp no_diverge (sdkCall (wait_ms K 50)) (\<lambda>_ u. clk (world t) \<le> clk (world u)) t"
      by (intro flows_no_diverge [OF wall time.g_calls(7)])
    then show ?thesis
      unfolding wp_then by (rule wp_weaken) (use that in \<open>auto intro!: again\<close>)
  qed
  have "wp no_diverge (sdkCall (wall_now K)) (\<lambda>w. wp no_diverge
      (bindE (readE (\<lambda>s. uint (timeoutMs (m_config s)))) (\<lambda>timeout.
       if timeout < now - st \<or> dl \<le> w then disconnect_timeout K c
       else bindE (readE getEffectiveStopSignal) (\<lambda>stop.
         if stop then ret (Error DE_SHUTDOWN) else thenE (sdkCall (wait_ms K 50)) again))) (\<lambda>_ _. True)) t"
    if "clk (world s) \<le> clk (world t)" for now t
    by (rule wp_weaken [OF wp_wall_now [OF wall]])
      (use that in \<open>auto simp: wp_bind [of _ "readE _"] wp_read wp_if wp_ret
         exitsD [OF exits_disconnect_timeout] intro!: sleep\<close>)
  then show ?thesis
    unfolding disconnect_rest_def wp_bind [of _ "nowMsImpl K"] wp_bind [of _ "sdkCall (wall_now K)"]
    by (intro wp_weaken [OF flows_no_diverge [OF wall time.g_nowMs exits_now]])
qed

lemma disconnect_loop_terminates:
  assumes wall: "wall_documented K clk" and "nat (dl - clk (world s)) < n"
  shows "wp no_diverge (disconnect_loop K c st dl n) (\<lambda>_ _. True) s"
  using assms(2)
proof (induction n arbitrary: s)
  case (Suc n)
  have rest: "wp no_diverge (disconnect_rest K c st dl (disconnect_loop K c st dl n)) (\<lambda>_ _. True) t"
    if "clk (world s) < clk (world t)" for t
    by (rule disconnect_rest_terminates [OF wall]) (use that Suc.prems in \<open>auto intro!: Suc.IH\<close>)
  let ?book = "\<lambda>f. if \<not> sdk_isGood K (f_status f) then updateBadStatusTime K else ret ()"
  let ?tail = "\<lambda>f. if f_channel f = sdk_chan K CHANNEL_CLOSED
       then thenE (modifyE (TurnToRecovring K)) (ret (Success ()))
       else disconnect_rest K c st dl (disconnect_loop K c st dl n)"
  have book: "guar (time_flows K clk) (?book f)" "exits no_diverge (?book f)" for f
    by (intro time.c_intros) (intro exits_impl exits_bad)
  have tail: "wp no_diverge (thenE (?book f) (?tail f)) (\<lambda>_ _. True) t"
    if "clk (world s) < clk (world t)" for f t
    unfolding wp_then [of _ "?book f"]
    by (rule wp_weaken [OF flows_no_diverge [OF wall book]])
      (use that in \<open>auto simp: wp_if wp_then_ret intro!: rest\<close>)
  show ?case
    unfolding disconnect_loop.simps disconnect_iter_def wp_bind [of _ "isConnected K 50"]
    by (rule wp_weaken [OF wp_probe_later [OF wall]])
      (auto simp: progress_post_def probe_post_def wp_ret wp_bind [of _ "readE _"] wp_read tail
        split: result.splits)
qed simp

lemma disconnect_body_terminates:
  assumes "wall_documented K clk" and "enough_polls (m_config s) \<le> n"
  shows "wp no_diverge (disconnect_body K n c) (\<lambda>_ _. True) s"
  unfolding disconnect_body_def
  using assms
  by (auto intro!: call_then_terminates start_terminates disconnect_loop_terminates simp: wp_if wp_then_ret)

lemma disconnect_no_diverge:
  assumes "wall_documented K clk" and "enough_polls (m_config s) \<le> n"
  shows "wp no_diverge (impl_disconnect K n) (\<lambda>_ _. True) s"
proof -
  have "wp no_diverge (cas_guard disconnect_busy (disconnect_body K n c)) (\<lambda>_ _. True) (task_begin s)" for c
    using assms by (intro cas_guard_wp disconnect_body_terminates)
      (auto simp: disconnect_busy_def exits_def wp_simps)
  then show ?thesis
    unfolding impl_disconnect_def by (intro in_flight_wp) (auto simp: wp_simps split: option.splits)
qed

text \<open>
  \<open>disconnect()\<close> always returns, by the same bound.
\<close>

theorem disconnect_terminates:
  assumes "wall_documented K clk" and "enough_polls (m_config s) \<le> n"
  shows "fst (impl_disconnect K n s) \<noteq> Diverge"
  using wp_exit(2) [OF disconnect_no_diverge [OF assms]] by simp

text \<open>A configuration with a time-out of almost 25 days.\<close>

definition wrapping_config :: client_config where
  "wrapping_config = default_config\<lparr>timeoutMs := 2147483600, maxRetries := 0,
     maxTotalWaitMs := 4294967200, sessionTimeoutMs := 4294967295,
     secureChannelLifeTimeMs := 4294967295\<rparr>"


text \<open>
  Below that, the budget is the documented \<open>2 * timeoutMs + 500\<close> and lies behind
  the time-out it backs up.
\<close>

lemma wall_budget_exact:
  "unat (timeoutMs c) \<le> 2147483397 \<Longrightarrow> unat (wall_budget_ms c) = 2 * unat (timeoutMs c) + 500"
  by (simp add: wall_budget_ms_def unat_word_ariths)

end
