(* ===== verification/Watchdog_Facts.thy ===== *)
theory Watchdog_Facts
  imports Watchdog Timing
begin

text \<open>
  What the watchdog promises: its decision re-establishes the meaning of RUNNING, it
  gives up exactly when the window is over, and its thread neither dies by an
  exception nor abandons a live client.
\<close>

section \<open>The decision\<close>

definition decided :: "'w sdk \<Rightarrow> 'w impl \<Rightarrow> bool" where
  "decided K t \<longleftrightarrow> getEffectiveStopSignal t \<or> running_sound K t"

lemma decided_intros [simp]:
  "decided K (TurnToRecovring K t)"
  "triple_ready K (state_packed t) \<Longrightarrow> decided K (TurnToRunning t)"
  "getEffectiveStopSignal t \<Longrightarrow> decided K t"
  by (simp_all add: decided_def running_sound_running)

lemma wp_giveup: "wp UNIV (TurnToGiveup K) (\<lambda>_. decided K) s"
  unfolding TurnToGiveup_def
  by (rule wp_skip_then) (simp add: wp_modify decided_def enter_given_up_def getEffectiveStopSignal_def)

lemma wp_single:
  assumes "guar keeps_single m" and "m_connState s = IDLE"
    and "\<And>x t. m_connState t = IDLE \<Longrightarrow> wp UNIV (f x) Q t"
  shows "wp UNIV (bindE m f) Q s"
  unfolding wp_bind
  by (rule wp_weaken [OF wp_guar [OF assms(1)]]) (use assms(2,3) in \<open>simp add: keeps_single_def\<close>)

lemma wp_single_then:
  assumes "guar keeps_single m" and "m_connState s = IDLE"
    and "\<And>t. m_connState t = IDLE \<Longrightarrow> wp UNIV k Q t"
  shows "wp UNIV (thenE m k) Q s"
  unfolding thenE_def using assms by (intro wp_single)

lemma wp_wd_reconnect:
  assumes "m_connState s = IDLE"
  shows "wp UNIV (wd_reconnect K n) (\<lambda>_. decided K) s"
  unfolding wd_reconnect_def wp_bind
proof (rule wp_weaken [OF wp_impl_connect], goal_cases)
  case (1 r t)
  have fail: "wp UNIV (thenE (if b then TurnToGiveup K else ret ()) (modifyE (TurnToRecovring K)))
      (\<lambda>_. decided K) t" for b
    by (rule wp_skip_then) (simp add: wp_modify)
  show ?case
  proof (cases r)
    case (Success v)
    with 1 show ?thesis by (simp add: wp_modify connect_post_def)
  next
    case (Error e)
    with 1 assms have "e \<noteq> CE_THREADBUSY" by (auto simp: connect_post_def)
    with Error fail show ?thesis by simp
  qed
qed

lemma wp_wd_iterate:
  assumes "m_connState s = IDLE"
  shows "wp UNIV (wd_iterate_then_connect K n c) (\<lambda>_. decided K) s"
  unfolding wd_iterate_then_connect_def
  by (rule wp_single_then [OF single.g_iterate assms])
    (simp add: wp_bind wp_read wp_if wp_modify wp_wd_reconnect)

lemma wp_wd_disconnect:
  assumes "m_connState s = IDLE"
  shows "wp UNIV (wd_disconnect_then_connect K n c) (\<lambda>_. decided K) s"
  unfolding wd_disconnect_then_connect_def
  by (rule wp_single [OF single.g_disconnect assms])
    (auto simp: wp_wd_iterate wp_giveup wp_if split: result.split)

lemma wp_wd_window:
  assumes "m_connState s = IDLE" and "\<And>t. m_connState t = IDLE \<Longrightarrow> wp UNIV k (\<lambda>_. decided K) t"
  shows "wp UNIV (wd_window K k) (\<lambda>_. decided K) s"
  unfolding wd_window_def
  by (rule wp_single_then [OF single.g_updateBad assms(1)], rule wp_single [OF single.g_should])
    (auto simp: wp_if wp_giveup assms(2))

lemma wp_wd_branches:
  assumes "m_connState s = IDLE"
  shows "wp UNIV (wd_branches K n c) (\<lambda>_. decided K) s"
proof -
  have tail: "wp UNIV (thenE (callRunIterate K c 1)
        (bindE (readE (isHealthyCached K)) (\<lambda>healthy.
         if healthy then modifyE TurnToRunning else wd_disconnect_then_connect K n c))) (\<lambda>_. decided K) t"
    if "m_connState t = IDLE" for t
    by (rule wp_single_then [OF single.g_iterate that])
      (simp add: wp_bind wp_read wp_if wp_modify wp_wd_disconnect healthy_ready)
  show ?thesis
    unfolding wd_branches_def
    by (auto simp: wp_bind [of _ "readE _"] wp_read wp_if wp_modify healthy_ready assms
        simp del: One_nat_def intro!: wp_wd_window tail wp_wd_iterate wp_wd_disconnect)
qed

text \<open>One decision.\<close>

lemma wp_decision:
  assumes "m_impl s \<noteq> None" and "m_connState s = IDLE"
  shows "wp UNIV (doWatchdogDecision K n) (\<lambda>_. decided K) s"
proof -
  have keep: "wp UNIV (isConnected K 0) (\<lambda>r u. m_connState u = IDLE \<and> m_impl u \<noteq> None \<and> probe_post K r u) s"
    using wp_conj [OF wp_probe wp_conj [OF wp_guar [OF single.g_isConnected] wp_guar [OF identity.g_isConnected]]]
    by (rule wp_weaken) (use assms in \<open>auto simp: keeps_single_def keeps_identity_def\<close>)
  obtain c where c: "m_impl s = Some c" using assms(1) by auto
  show ?thesis
  proof (cases "getEffectiveStopSignal s")
    case True
    then show ?thesis by (simp add: doWatchdogDecision_def wp_bind wp_read wp_ret)
  next
    case False
    then show ?thesis
      by (simp add: doWatchdogDecision_def wp_bind [of _ "readE _"] wp_read c
          wp_bind [of _ "isConnected K 0"])
        (rule wp_weaken [OF keep], auto simp: probe_post_def wp_ret wp_modify healthy_ready wp_if
          wp_wd_branches split: result.splits)
  qed
qed

section \<open>The give-up window\<close>

lemma wd_window_over:
  assumes "m_lastBadStatusMs s = ts" and "ts \<noteq> 0"
    and "sdk_nowMs K (world s) = (Inr now, evs, w)" and "giveUpThresholdMs (m_config s) \<le> now - ts"
  shows "\<exists>t. wd_window K k s = (Ret (), t) \<and> m_lifeState t = GIVEN_UP \<and> world t = w"
proof -
  let ?u = "fold apply_event evs (s\<lparr>world := w\<rparr>)"
  have bad: "m_lastBadStatusMs (fold apply_event evs u) = m_lastBadStatusMs u" for u
  proof (induction evs arbitrary: u)
    case (Cons e evs)
    then show ?case by (cases e) (simp_all add: transition_defs)
  qed simp
  have cfg: "m_config (fold apply_event evs u) = m_config u" for u
    by (induction evs arbitrary: u) (simp_all add: apply_event_keeps)
  have upd: "updateBadStatusTime K u = (Ret (), u)" if "m_lastBadStatusMs u = ts" for u
    using that assms(2) by (simp add: updateBadStatusTime_def bindE_def)
  have "wd_window K k s = TurnToGiveup K ?u"
    using assms upd [of s]
    by (simp add: wd_window_def thenE_def shouldTriggerGiveUp_def bindE_def nowMsImpl_def sdkCall_def cfg)
  also have "\<dots> = (Ret (), enter_given_up ?u)"
    using upd [of ?u] assms(1) by (simp add: TurnToGiveup_def thenE_def bindE_def bad)
  finally show ?thesis by (simp add: enter_given_up_def)
qed

text \<open>
  C21: once the connection has been bad for \<open>giveUpThresholdMs\<close>, a decision whose
  probe is still unhealthy gives the client up at once: whatever the bad state is
  (session lost, channel not open, bad status, inactivity), no further reconnect is
  attempted and the only SDK call after the probe is reading the clock.
\<close>

theorem decision_gives_up:
  assumes "\<not> getEffectiveStopSignal s" and "m_impl s = Some c"
    and "isConnected K 0 s = (Ret (Success False), u)"
    and "m_lastBadStatusMs u = ts" and "ts \<noteq> 0"
    and "sdk_nowMs K (world u) = (Inr now, evs, w)" and "giveUpThresholdMs (m_config u) \<le> now - ts"
  shows "\<exists>t. doWatchdogDecision K n s = (Ret (), t) \<and> m_lifeState t = GIVEN_UP \<and> world t = w"
proof -
  have unhealthy: "\<not> isHealthyCached K u"
    using wpD [OF wp_probe assms(3)] by (simp add: probe_post_def)
  have "doWatchdogDecision K n s = wd_branches K n c u"
    using assms(1-3) by (simp add: doWatchdogDecision_def bindE_readE)
  moreover have "\<exists>k. wd_branches K n c u = wd_window K k u"
    using unhealthy by (auto simp: wd_branches_def bindE_readE)
  ultimately show ?thesis
    using wd_window_over [OF assms(4-7)] by metis
qed

section \<open>The thread\<close>

text \<open>Reading the clock and waiting on a condition variable do not throw.\<close>

definition clocks_documented :: "'w sdk \<Rightarrow> bool" where
  "clocks_documented K \<longleftrightarrow>
     (\<forall>w. \<exists>t. fst (sdk_nowMs K w) = Inr t) \<and> (\<forall>n w. \<exists>t. fst (wait_ms K n w) = Inr t)"

abbreviation "no_throw \<equiv> - range Threw"

lemma exits_quiet: "(\<And>w. \<exists>t. fst (c w) = Inr t) \<Longrightarrow> exits no_throw (sdkCall c)"
  unfolding exits_def wp_sdkCall
  by (auto split: prod.splits sum.splits) (metis fst_conv sum.distinct(1))

lemma exits_any: "exits UNIV m"
  by (simp add: exits_def wp_any)

lemma wp_on_impl: "wp A (on_impl m) Q p = wp A m (\<lambda>x t. Q x (fst p, t)) (snd p)"
proof -
  obtain l s where p: "p = (l, s)" by (cases p)
  obtain r t where m: "m s = (r, t)" by (cases "m s")
  show ?thesis by (cases r) (simp_all add: p m wp_def on_impl_def)
qed

lemma wp_drop_locals:
  "wp A (\<lambda>s. case m (l, s) of (r, (l, s')) \<Rightarrow> (r, s')) Q s = wp A m (\<lambda>x p. Q x (snd p)) (l, s)"
proof -
  obtain r l' t where m: "m (l, s) = (r, (l', t))" by (metis prod.exhaust)
  show ?thesis by (cases r) (simp_all add: m wp_def)
qed

lemma exits_on_impl: "exits A m \<Longrightarrow> exits A (on_impl m)"
  by (simp add: exits_def wp_on_impl)

lemma exits_wait:
  assumes "clocks_documented K"
  shows "exits no_throw (wait_unless_stopped K n)"
  unfolding wait_unless_stopped_def
  using assms by (intro exits_intros exits_quiet) (simp add: clocks_documented_def)

lemma exits_delay:
  assumes "clocks_documented K"
  shows "exits no_throw (delayFunction K n)"
proof -
  have "exits no_throw (delay_loop K b e)" for b e
  proof (induction "unat b - unat e" arbitrary: e rule: less_induct)
    case less
    show ?case
      by (subst delay_loop.simps, unfold Let_def)
        (intro exits_intros exits_wait [OF assms] less segment_progress)
  qed
  then show ?thesis
    unfolding delayFunction_def Let_def by (intro exits_intros)
qed

lemma exits_giveup:
  assumes "clocks_documented K"
  shows "exits no_throw (TurnToGiveup K)"
proof -
  have "exits no_throw (nowMsImpl K)"
    unfolding nowMsImpl_def using assms by (intro exits_quiet) (simp add: clocks_documented_def)
  then show ?thesis
    unfolding TurnToGiveup_def updateBadStatusTime_def by (intro exits_intros)
qed

lemma exits_wd_delay: "clocks_documented K \<Longrightarrow> exits no_throw (wd_delay_next K)"
  unfolding wd_delay_next_def on_locals_def by (intro exits_intros exits_on_impl exits_delay)

lemma exits_wd_handler: "clocks_documented K \<Longrightarrow> exits no_throw (wd_handler K e)"
  unfolding wd_handler_def
  by (cases e) (auto intro!: exits_intros exits_on_impl exits_giveup exits_wd_delay)

lemma exits_wd_loop:
  assumes "clocks_documented K"
  shows "exits no_throw (wd_loop K m n)"
proof (induction n)
  case 0
  show ?case unfolding wd_loop.simps exits_def wp_diverge by auto
next
  case (Suc n)
  have "exits no_throw (catchE (wd_try K m) (wd_handler K))"
    by (rule exits_catch [OF exits_any]) (auto intro: exits_wd_handler [OF assms])
  then show ?case
    unfolding wd_loop.simps read_impl_def by (intro exits_intros Suc.IH)
qed

text \<open>
  No exception leaves the watchdog thread (which would end the process), whatever the event
  loop, the probe, connecting or disconnecting throw: every pass is shielded, and the
  handlers only use the clock and the interruptible wait.
\<close>

lemma exits_runWatchdog:
  assumes "clocks_documented K"
  shows "exits no_throw (runWatchdog K m n)"
proof -
  have "exits no_throw (nowMsImpl K)"
    unfolding nowMsImpl_def using assms by (intro exits_quiet) (simp add: clocks_documented_def)
  moreover have "exits no_throw (\<lambda>s. case wd_loop K m n (l, s) of (r, (l, s')) \<Rightarrow> (r, s'))" for l
    using exits_wd_loop [OF assms] by (simp add: exits_def wp_drop_locals)
  ultimately show ?thesis
    unfolding runWatchdog_def by (intro exits_intros)
qed

theorem watchdog_no_throw:
  assumes "clocks_documented K"
  shows "fst (runWatchdog K m n s) \<noteq> Throw e"
  by (rule wp_exit(3) [OF exitsD [OF exits_runWatchdog [OF assms]]]) simp

definition watch_over :: "'w impl \<Rightarrow> bool" where
  "watch_over t \<longleftrightarrow> getEffectiveStopSignal t \<or> m_impl t = None"

lemma wp_wd_try: "wp UNIV (wd_try K m) (\<lambda>leave p. leave \<longrightarrow> watch_over (snd p)) p"
proof (cases p)
  case (Pair l s)
  show ?thesis
  proof (cases "m_impl s")
    case None
    then show ?thesis by (simp add: Pair wd_try_def read_impl_def wp_simps watch_over_def)
  next
    case (Some c)
    have last: "wp UNIV (thenE (on_impl (wait_unless_stopped K 100)) (ret False))
        (\<lambda>leave p. leave \<longrightarrow> watch_over (snd p)) q" for q
      by (rule wp_skip_then) (simp add: wp_ret)
    have live: "wp UNIV (thenE (on_impl (callRunIterate K c 0)) k) (\<lambda>leave p. leave \<longrightarrow> watch_over (snd p)) p"
      if "\<And>q. wp UNIV k (\<lambda>leave p. leave \<longrightarrow> watch_over (snd p)) q" for k
      by (rule wp_skip_then) (rule that)
    show ?thesis
      unfolding wd_try_def wp_bind [of _ "read_impl m_impl"] unfolding read_impl_def wp_read
      by (simp add: Pair Some, rule live [unfolded Pair], intro wp_skip wp_skip_then last)
  qed
qed

lemma wp_wd_handler: "wp UNIV (wd_handler K e) (\<lambda>leave p. leave \<longrightarrow> watch_over (snd p)) p"
proof -
  have "wp UNIV (TurnToGiveup K) (\<lambda>_ t. getEffectiveStopSignal t) (snd p)"
    unfolding TurnToGiveup_def
    by (rule wp_skip_then) (simp add: wp_modify enter_given_up_def getEffectiveStopSignal_def)
  then have "wp UNIV (on_impl (TurnToGiveup K)) (\<lambda>_ q. getEffectiveStopSignal (snd q)) p"
    by (simp add: wp_on_impl)
  then have "wp UNIV (thenE (on_impl (TurnToGiveup K)) (ret True)) (\<lambda>leave p. leave \<longrightarrow> watch_over (snd p)) p"
    unfolding wp_then wp_ret by (rule wp_weaken) (simp add: watch_over_def)
  moreover have "wp UNIV (thenE (wd_delay_next K) (ret False)) (\<lambda>leave p. leave \<longrightarrow> watch_over (snd p)) p"
    by (rule wp_skip_then) (simp add: wp_ret)
  ultimately show ?thesis by (cases e) (simp_all add: wd_handler_def)
qed

lemma wp_wd_loop: "wp UNIV (wd_loop K m n) (\<lambda>_ p. watch_over (snd p)) p"
proof (induction n arbitrary: p)
  case (Suc n)
  have "wp UNIV (catchE (wd_try K m) (wd_handler K)) (\<lambda>leave p. leave \<longrightarrow> watch_over (snd p)) p"
    by (rule wp_catch [OF wp_wd_try]) (simp_all add: wp_wd_handler)
  then have "wp UNIV (bindE (catchE (wd_try K m) (wd_handler K)) (\<lambda>leave. if leave then ret () else wd_loop K m n))
      (\<lambda>_ p. watch_over (snd p)) p"
    unfolding wp_bind by (rule wp_weaken) (simp add: wp_ret Suc.IH)
  moreover have "wp UNIV (wd_loop K m (Suc n)) Q p \<longleftrightarrow> (if getEffectiveStopSignal (snd p) then Q () p
      else wp UNIV (bindE (catchE (wd_try K m) (wd_handler K)) (\<lambda>leave. if leave then ret () else wd_loop K m n)) Q p)"
    for Q by (cases p) (simp add: read_impl_def wp_def bindE_readE)
  ultimately show ?case by (simp add: watch_over_def)
qed (simp add: wp_simps)

lemma wp_runWatchdog: "wp UNIV (runWatchdog K m n) (\<lambda>_. watch_over) s"
proof -
  have "wp UNIV (\<lambda>s. case wd_loop K m n (l, s) of (r, (l, s')) \<Rightarrow> (r, s')) (\<lambda>_. watch_over) u" for l u
    using wp_wd_loop [of K m n "(l, u)"] by (simp add: wp_drop_locals)
  then show ?thesis unfolding runWatchdog_def by (rule wp_skip)
qed

end
