(* ===== verification/Client_Facts.thy ===== *)
theory Client_Facts
  imports Client_Api Watchdog_Facts
begin

text \<open>
  Correctness of the public operations of \<open>OPC_UA_Client\<close>: no exception escapes, leases and
  marks are balanced, a rejected call changes nothing, \<open>shutdown()\<close> is total, idempotent and
  final, \<open>recreateGiveUpClient()\<close> replaces a given-up object or leaves it alone, and what a
  factory returns is ready.
\<close>

section \<open>The contract of the leased operations\<close>

text \<open>
  A relation on objects that every operation of \<open>Impl\<close> keeps, lifted to the client: the
  client's relation has to follow from it for the object behind \<open>pImpl\<close>, and to survive
  the count of the lease.
\<close>

locale client_contract = guarantee R + obj: batch_contract Q K V
  for R :: "'w client \<Rightarrow> 'w client \<Rightarrow> bool" and Q :: "'w impl \<Rightarrow> 'w impl \<Rightarrow> bool" and K :: "'w sdk"
    and V :: "'w \<Rightarrow> 'w \<Rightarrow> bool" +
  assumes c_object: "pImpl s = Some i \<Longrightarrow> Q (i\<lparr>world := c_world s\<rparr>) j \<Longrightarrow>
       R s (s\<lparr>pImpl := Some j, c_world := world j\<rparr>)"
    and c_lease: "R (api_enter s) u \<Longrightarrow> R s (api_leave u)"
begin

lemma l_on_pImpl: "guar Q m \<Longrightarrow> guar R (on_pImpl m)"
proof (rule guarI)
  fix s
  assume m: "guar Q m"
  show "R s (snd (on_pImpl m s))"
  proof (cases "pImpl s")
    case (Some i)
    have "Q (i\<lparr>world := c_world s\<rparr>) (snd (m (i\<lparr>world := c_world s\<rparr>)))" using m by (rule guarD)
    with Some show ?thesis by (auto simp: on_pImpl_def split: prod.splits intro: c_object)
  qed (simp add: on_pImpl_def R_refl)
qed

lemma l_lease:
  assumes "guar R a" "guar R b" "guar R m"
  shows "guar R (with_lease a b m)"
proof -
  have "guar R (thenE (modifyE api_enter) (finallyE m api_leave))"
    using guarD [OF assms(3)] by (intro guarI) (simp add: thenE_modifyE c_lease)
  then show ?thesis
    unfolding with_lease_def using assms
    by (intro g_bind g_read) (simp split: lease_reason.split)
qed

lemma l_fail: "guar R (fail c msg)"
  unfolding fail_def by (rule g_ret)

lemma l_guarded: "guar R m \<Longrightarrow> guar R (guarded sys m)"
  unfolding guarded_def by (intro g_catch g_ret)

lemma l_with_pImpl: "guar R a \<Longrightarrow> guar R m \<Longrightarrow> guar R (with_pImpl a m)"
  unfolding with_pImpl_def by (intro g_intros)

lemma l_api: "guar R m \<Longrightarrow> guar R (api who m)"
  unfolding api_def by (intro l_lease l_fail l_with_pImpl)

lemma l_result:
  "(\<And>x. guar R (f x)) \<Longrightarrow> (\<And>e. guar R (g e)) \<Longrightarrow> guar R (case r of Success x \<Rightarrow> f x | Error e \<Rightarrow> g e)"
  by (cases r) simp_all

lemmas l_intros = l_on_pImpl l_lease l_fail l_guarded l_with_pImpl l_api l_result g_intros

lemma l_connect: "guar R (client_connect K n)"
  unfolding client_connect_def by (intro l_intros obj.g_connect)

lemma l_disconnect: "guar R (client_disconnect K n)"
  unfolding client_disconnect_def by (intro l_intros obj.g_disconnect)

lemma l_checkConnected: "guar R (checkConnected K)"
  unfolding checkConnected_def by (intro l_intros obj.g_isConnected obj.g_read)

lemma l_isHealthy: "guar R (isHealthy K)"
  unfolding isHealthy_def by (intro l_intros obj.g_read)

lemma l_checkLifeState: "guar R checkLifeState"
  unfolding checkLifeState_def by (intro l_intros obj.g_read)

lemma l_setGiveUp: "guar R client_setGiveUpSignal"
proof -
  have "guar Q (\<lambda>s. case setGiveUpSignal s of (r, t) \<Rightarrow> (Ret r, t))"
    using obj.c_event [of _ PeerGiveUp] by (intro guarI) (simp add: case_prod_unfold)
  then show ?thesis unfolding client_setGiveUpSignal_def by (intro l_intros)
qed

lemma l_batchRead: "guar R (batchRead K nodes)"
  unfolding batchRead_def by (intro l_intros obj.g_batchRead)

lemma l_batchWrite: "guar R (batchWrite K items)"
  unfolding batchWrite_def by (intro l_intros obj.g_batchWrite)

lemma l_pump: "guar R (pumpWatchdogForTest K n)"
  unfolding pumpWatchdogForTest_def by (intro l_intros obj.g_decision)

end

text \<open>
  Two instances: the marks of the client with the identity of its object, and giving up.
\<close>

definition keeps_marks :: "'w client \<Rightarrow> 'w client \<Rightarrow> bool" where
  "keeps_marks s t \<longleftrightarrow> m_recreating t = m_recreating s \<and> m_terminated t = m_terminated s \<and>
     m_inFlight t = m_inFlight s \<and> m_shutdownInFlight t = m_shutdownInFlight s \<and>
     m_endpointUrl t = m_endpointUrl s \<and>
     (case pImpl s of None \<Rightarrow> pImpl t = None
      | Some i \<Rightarrow> (\<exists>j. pImpl t = Some j \<and> m_impl j = m_impl i \<and> m_config j = m_config i \<and>
          m_watchdogThread j = m_watchdogThread i))"

definition gave_up :: "'w client \<Rightarrow> bool" where
  "gave_up s \<longleftrightarrow> (\<exists>i. pImpl s = Some i \<and> m_lifeState i = GIVEN_UP)"

definition keeps_gave_up :: "'w client \<Rightarrow> 'w client \<Rightarrow> bool" where
  "keeps_gave_up s t \<longleftrightarrow> (gave_up s \<longrightarrow> gave_up t)"

interpretation marks: client_contract keeps_marks keeps_identity K "\<lambda>_ _. True"
  by unfold_locales
    (auto simp: keeps_marks_def keeps_identity_def api_enter_def api_leave_def split: option.splits)

interpretation gave_up: client_contract keeps_gave_up keeps_given_up K "\<lambda>_ _. True"
  by unfold_locales
    (auto simp: keeps_gave_up_def gave_up_def keeps_given_up_def api_enter_def api_leave_def)

text \<open>
  Every leased operation gives its lease back and leaves the marks of the client, its
  endpoint and the identity, configuration and watchdog of its object as they were, on
  every way out.
\<close>

theorem leased_calls_balance:
  "keeps_marks s (snd (client_connect K n s)) \<and> keeps_marks s (snd (client_disconnect K n s)) \<and>
   keeps_marks s (snd (checkConnected K s)) \<and> keeps_marks s (snd (isHealthy K s)) \<and>
   keeps_marks s (snd (checkLifeState s)) \<and> keeps_marks s (snd (client_setGiveUpSignal s)) \<and>
   keeps_marks s (snd (batchRead K nodes s)) \<and> keeps_marks s (snd (batchWrite K items s)) \<and>
   keeps_marks s (snd (pumpWatchdogForTest K n s))"
  by (intro conjI marks.l_connect [THEN guarD] marks.l_disconnect [THEN guarD] marks.l_checkConnected [THEN guarD] marks.l_isHealthy [THEN guarD]
      marks.l_checkLifeState [THEN guarD] marks.l_setGiveUp [THEN guarD] marks.l_batchRead [THEN guarD]
      marks.l_batchWrite [THEN guarD] marks.l_pump [THEN guarD])

text \<open>
  No public operation but \<open>recreateGiveUpClient()\<close> brings a given-up client back to life.
\<close>

theorem only_recreate_revives:
  "keeps_gave_up s (snd (client_connect K n s)) \<and> keeps_gave_up s (snd (client_disconnect K n s)) \<and>
   keeps_gave_up s (snd (checkConnected K s)) \<and> keeps_gave_up s (snd (isHealthy K s)) \<and>
   keeps_gave_up s (snd (checkLifeState s)) \<and> keeps_gave_up s (snd (client_setGiveUpSignal s)) \<and>
   keeps_gave_up s (snd (batchRead K nodes s)) \<and> keeps_gave_up s (snd (batchWrite K items s)) \<and>
   keeps_gave_up s (snd (pumpWatchdogForTest K n s))"
  by (intro conjI gave_up.l_connect [THEN guarD] gave_up.l_disconnect [THEN guarD] gave_up.l_checkConnected [THEN guarD] gave_up.l_isHealthy [THEN guarD]
      gave_up.l_checkLifeState [THEN guarD] gave_up.l_setGiveUp [THEN guarD] gave_up.l_batchRead [THEN guarD]
      gave_up.l_batchWrite [THEN guarD] gave_up.l_pump [THEN guarD])

section \<open>No exception escapes\<close>

lemma exits_UNIV: "exits UNIV m"
  by (auto simp: exits_def wp_def split: prod.splits outcome.splits)

lemma exits_guarded: "exits no_throw (guarded sys m)"
  unfolding guarded_def by (rule exits_catch [OF exits_UNIV]) (auto intro: exits_ret)

lemma exits_fail: "exits A (fail c msg)"
  unfolding fail_def by (rule exits_ret)

lemma exits_lease:
  assumes "exits A a" "exits A b" "exits A m"
  shows "exits A (with_lease a b m)"
proof -
  have "exits A (case r of Recreating \<Rightarrow> a | Terminated \<Rightarrow> b
      | Active \<Rightarrow> thenE (modifyE api_enter) (finallyE m api_leave))" for r
    using assms by (cases r) (simp_all add: exits_intros)
  then show ?thesis unfolding with_lease_def by (intro exits_bind exits_read)
qed

lemma exits_api: "exits A m \<Longrightarrow> exits A (api who m)"
  unfolding api_def with_pImpl_def by (intro exits_lease exits_fail exits_intros)

lemma wp_on_pImpl [wp_simps]:
  "wp A (on_pImpl m) Q s = (case pImpl s of None \<Rightarrow> Faulted \<in> A
     | Some i \<Rightarrow> wp A m (\<lambda>x j. Q x (s\<lparr>pImpl := Some j, c_world := world j\<rparr>)) (i\<lparr>world := c_world s\<rparr>))"
  by (auto simp: wp_def on_pImpl_def split: option.split prod.split outcome.split)

lemma wp_dispose:
  "wp A (dispose K b i) Q s =
     wp A (thenE (impl_shutdown K False) (if b then impl_destructor K False else ret ()))
       (\<lambda>x j. Q x (s\<lparr>c_world := world j\<rparr>)) (i\<lparr>world := c_world s\<rparr>)"
  by (auto simp: wp_def dispose_def with_local_def split: prod.split outcome.split)

lemma exits_on_pImpl:
  assumes "exits A m" and "Faulted \<in> A"
  shows "exits A (on_pImpl m)"
  using assms by (simp add: exits_def wp_on_pImpl split: option.split)

lemma exits_on_read: "exits no_throw (on_pImpl (readE f))"
  by (intro exits_on_pImpl exits_read) auto

lemmas exits_client = exits_guarded exits_fail exits_lease exits_api exits_on_read exits_intros

lemma exits_dispose: "exits {} (dispose K b i)"
proof -
  have "exits {} (thenE (impl_shutdown K False) (if b then impl_destructor K False else ret ()))"
    by (intro exits_intros exits_impl_shutdown exits_impl_destructor)
  then show ?thesis by (simp add: exits_def wp_dispose)
qed

lemma exits_shutdownInternal: "exits A (shutdownInternal K)"
  unfolding shutdownInternal_def by (intro exits_intros exits_mono [OF exits_dispose]) auto

text \<open>
  No public operation lets an exception out: whatever the SDK, the allocator or the
  thread library throws arrives as an error value.  (\<open>recreateGiveUpClient()\<close> waits outside
  its \<open>try\<close> block and is treated on its own.)
\<close>

theorem public_calls_do_not_throw:
  "exits no_throw (client_connect K n) \<and> exits no_throw (client_disconnect K n) \<and>
   exits no_throw (checkConnected K) \<and> exits no_throw (isHealthy K) \<and>
   exits no_throw (checkLifeState :: ('w client, _) cpp) \<and>
   exits no_throw (client_setGiveUpSignal :: ('w client, _) cpp) \<and>
   exits no_throw (batchRead K nodes) \<and> exits no_throw (batchWrite K items) \<and>
   exits no_throw (client_shutdown K) \<and> exits no_throw (client_destructor K) \<and>
   exits no_throw (create K n url cfg useDefault) \<and>
   exits no_throw (createWithSdk sdk n url cfg useDefault watchdog)"
  unfolding client_connect_def client_disconnect_def checkConnected_def isHealthy_def checkLifeState_def
    client_setGiveUpSignal_def batchRead_def batchWrite_def client_shutdown_def create_def createWithSdk_def
    client_destructor_def with_pImpl_def
  by (intro conjI exits_client exits_mono [OF exits_swallow] exits_shutdownInternal) auto

section \<open>Rejected calls\<close>

definition rejected :: "('w client, ('a, rich_error) result) cpp \<Rightarrow> 'w client \<Rightarrow> bool" where
  "rejected m s \<longleftrightarrow> (\<exists>msg. m s = (Ret (Error (RichError
     (if m_terminated s then EC_ALREADY_TERMINATED else EC_RECREATING) msg)), s))"

lemma lease_rejects:
  assumes "reason s \<noteq> Active"
  shows "with_lease a b m s = (if m_terminated s then b s else a s)"
  using assms by (auto simp: with_lease_def bindE_readE reason_def split: if_splits)

lemma api_rejects: "reason s \<noteq> Active \<Longrightarrow> rejected (api who m) s"
  by (simp add: rejected_def api_def lease_rejects fail_def)

lemma guarded_rejects: "rejected m s \<Longrightarrow> rejected (guarded sys m) s"
  by (auto simp: rejected_def guarded_def catchE_run)

lemma calls_rejected:
  assumes "reason s \<noteq> Active"
  shows "rejected (client_connect K n) s \<and> rejected (client_disconnect K n) s \<and>
    rejected (checkConnected K) s \<and> rejected (isHealthy K) s \<and> rejected checkLifeState s \<and>
    rejected client_setGiveUpSignal s \<and> rejected (batchRead K nodes) s \<and> rejected (batchWrite K items) s \<and>
    pumpWatchdogForTest K n s = (Ret (), s) \<and>
    (\<exists>msg. recreateGiveUpClient K n left dtor s = (Ret (Error (RichError
       (if m_recreating s then EC_RECREATING else EC_ALREADY_TERMINATED) msg)), s))"
proof -
  have "rejected client_setGiveUpSignal s"
    using assms by (simp add: rejected_def client_setGiveUpSignal_def lease_rejects fail_def)
  moreover have "\<exists>msg. recreateGiveUpClient K n left dtor s = (Ret (Error (RichError
       (if m_recreating s then EC_RECREATING else EC_ALREADY_TERMINATED) msg)), s)"
    using assms by (auto simp: recreateGiveUpClient_def bindE_readE fail_def reason_def split: if_splits)
  ultimately show ?thesis
    using assms unfolding client_connect_def client_disconnect_def checkConnected_def isHealthy_def
      checkLifeState_def batchRead_def batchWrite_def
    by (intro conjI api_rejects guarded_rejects) (simp_all add: pumpWatchdogForTest_def lease_rejects)
qed

text \<open>
  While the client is being recreated, and for ever after it has been terminated, every
  operation is refused with the corresponding error and nothing at all is done: no call
  into the SDK, no change of the client.
\<close>

theorem client_rejects:
  assumes "reason s \<noteq> Active"
  shows "rejected (client_connect K n) s \<and> rejected (client_disconnect K n) s \<and>
    rejected (checkConnected K) s \<and> rejected (isHealthy K) s \<and> rejected checkLifeState s \<and>
    rejected client_setGiveUpSignal s \<and> rejected (batchRead K nodes) s \<and> rejected (batchWrite K items) s \<and>
    pumpWatchdogForTest K n s = (Ret (), s) \<and>
    (\<exists>msg. recreateGiveUpClient K n left dtor s = (Ret (Error (RichError
       (if m_recreating s then EC_RECREATING else EC_ALREADY_TERMINATED) msg)), s))"
  using assms by (rule calls_rejected)

section \<open>Shutdown\<close>

definition shutdown_post :: "'w client \<Rightarrow> (unit, rich_error) result \<Rightarrow> 'w client \<Rightarrow> bool" where
  "shutdown_post s r t =
     (if m_recreating s then t = s \<and> is_fail r
      else if m_terminated s then t = s \<and> r = Success ()
      else r = Success () \<and> m_terminated t \<and> pImpl t = None \<and> m_recreating t = m_recreating s \<and>
        m_inFlight t = m_inFlight s \<and> m_shutdownInFlight t = m_shutdownInFlight s)"

lemma wp_ret_fun: "wp A (ret x) Q = Q x"
  by (simp add: fun_eq_iff wp_ret)

lemma wp_dispose_frame:
  assumes "\<And>w. Q () (s\<lparr>c_world := w\<rparr>)"
  shows "wp {} (dispose K b i) Q s"
proof -
  have "exits {} (thenE (impl_shutdown K False) (if b then impl_destructor K False else ret ()))"
    by (intro exits_intros exits_impl_shutdown exits_impl_destructor)
  from exitsD [OF this] show ?thesis
    unfolding wp_dispose by (rule wp_weaken) (simp add: assms)
qed

lemma wp_shutdownInternal:
  assumes "\<And>w. Q (Success ()) (s\<lparr>pImpl := None, c_world := w\<rparr>)"
    and "pImpl s = None \<Longrightarrow> Q (Success ()) s"
  shows "wp {} (shutdownInternal K) Q s"
proof (cases "pImpl s")
  case (Some i)
  have "wp {} (dispose K (\<not> borrowed s) i) (\<lambda>_. Q (Success ())) (s\<lparr>pImpl := None\<rparr>)"
    using assms(1) by (intro wp_dispose_frame) simp
  with Some show ?thesis by (simp add: shutdownInternal_def wp_simps wp_ret_fun)
qed (simp add: shutdownInternal_def wp_simps assms(2))

lemma wp_guarded: "wp {} m Q s \<Longrightarrow> wp {} (guarded sys m) Q s"
  unfolding guarded_def by (rule wp_catch) auto

lemma wp_client_shutdown:
  assumes "0 \<le> m_shutdownInFlight s"
  shows "wp {} (client_shutdown K) (shutdown_post s) s"
proof -
  have "wp {} (guarded ''System error:'' (shutdownInternal K)) (\<lambda>r t. shutdown_post s r (shutdown_end t))
      (shutdown_begin s)" if "\<not> m_recreating s" "\<not> m_terminated s"
    using that assms
    by (intro wp_guarded wp_shutdownInternal)
      (simp_all add: shutdown_post_def shutdown_end_def shutdown_begin_def)
  then show ?thesis
    unfolding client_shutdown_def fail_def
    by (simp add: wp_bind [of _ "readE _"] wp_read wp_if wp_ret wp_then wp_modify wp_finally)
      (simp add: shutdown_post_def)
qed

text \<open>
  C12: \<open>shutdown()\<close> always returns and never by an exception; it is refused only while the
  client is being recreated; the first call takes the object away for good and gives its
  mark back, every later call succeeds and does nothing.
\<close>

theorem client_shutdown_correct:
  assumes "0 \<le> m_shutdownInFlight s"
  shows "wp {} (client_shutdown K) (shutdown_post s) s"
  using assms by (rule wp_client_shutdown)

section \<open>Recreation\<close>

lemma wp_worldCall [wp_simps]:
  "wp A (worldCall c) Q s = (case c (c_world s) of
       (Inl e, _, w) \<Rightarrow> Threw e \<in> A | (Inr x, _, w) \<Rightarrow> Q x (s\<lparr>c_world := w\<rparr>))"
  by (auto simp: wp_def worldCall_def split: prod.splits sum.splits)

lemma wp_with_local:
  "wp A (with_local i m k) Q s = (case m (i\<lparr>world := c_world s\<rparr>) of
     (r, j) \<Rightarrow> wp A (k r j) Q (s\<lparr>c_world := world j\<rparr>))"
  by (auto simp: wp_def with_local_def split: prod.splits)

text \<open>What a candidate is once it has been brought up.\<close>

definition brought_up :: "bool \<Rightarrow> 'w impl \<Rightarrow> bool" where
  "brought_up watchdog i \<longleftrightarrow> m_impl i \<noteq> None \<and> config_ok (m_config i) \<and> callbacks i \<and>
     (\<exists>l. sdk_config i = Some (ua_config_of (m_config i) l)) \<and>
     (watchdog \<longrightarrow> m_watchdogThread i = WD_joinable)"

lemma keeps_configured:
  "keeps_settings s t \<Longrightarrow> keeps_identity s t \<Longrightarrow> m_impl s \<noteq> None \<Longrightarrow> configured_post s0 (Success u) s \<Longrightarrow>
   m_impl t \<noteq> None \<and> config_ok (m_config t) \<and> callbacks t \<and>
     (\<exists>l. sdk_config t = Some (ua_config_of (m_config t) l)) \<and> m_watchdogThread t = m_watchdogThread s"
  by (auto simp: keeps_settings_def keeps_identity_def configured_post_def)

lemma wp_startWatchdog:
  assumes "m_impl s \<noteq> None \<and> config_ok (m_config s) \<and> callbacks s \<and>
     (\<exists>l. sdk_config s = Some (ua_config_of (m_config s) l))"
  shows "wp UNIV (startWatchdog K) (\<lambda>r t. r = Success () \<and> brought_up True t) s"
proof -
  have "wp UNIV (sdkCall (spawn_thread K)) (\<lambda>_ t. keeps_settings u t) u" for u :: "'a impl"
    by (rule wp_guar) (rule settings.g_sdkCall)
  then have start: "wp UNIV (sdkCall (spawn_thread K)) (\<lambda>_ t. brought_up True (t\<lparr>m_watchdogThread := WD_joinable\<rparr>))
      (s\<lparr>m_running := True\<rparr>)"
    by (rule wp_weaken) (use assms in \<open>auto simp: keeps_settings_def brought_up_def\<close>)
  have "wp UNIV (thenE (sdkCall (spawn_thread K))
      (thenE (modifyE (\<lambda>s. s\<lparr>m_watchdogThread := WD_joinable\<rparr>)) (ret (Success () :: (unit, rich_error) result))))
      (\<lambda>r t. r = Success () \<and> brought_up True t) (s\<lparr>m_running := True\<rparr>)"
    unfolding wp_then [of _ "sdkCall _"] by (rule wp_weaken [OF start]) (simp add: wp_then_ret)
  with assms show ?thesis
    unfolding startWatchdog_def wp_bind wp_read
    by (simp add: wp_if wp_ret wp_then [of _ "modifyE _"] wp_modify brought_up_def)
qed

lemma wp_candidate_connect:
  assumes "configured_post s0 (Success u) s" and "m_impl s \<noteq> None"
  shows "wp UNIV (impl_connect K n) (\<lambda>r t. connect_post K s r t \<and> m_impl t \<noteq> None \<and> config_ok (m_config t) \<and>
    callbacks t \<and> (\<exists>l. sdk_config t = Some (ua_config_of (m_config t) l)) \<and>
    m_watchdogThread t = m_watchdogThread s) s"
proof -
  have "wp UNIV (impl_connect K n) (\<lambda>_ t. keeps_settings s t \<and> keeps_identity s t) s"
    by (intro wp_conj wp_guar settings.g_connect identity.g_connect)
  from wp_conj [OF wp_impl_connect this] show ?thesis
    by (rule wp_weaken) (use keeps_configured [OF _ _ assms(2,1)] in blast)
qed

text \<open>The error codes that \<open>recreateGiveUpClient()\<close> reports only for its own entry conditions.\<close>

definition entry_codes :: "error_code set" where
  "entry_codes = {EC_RECREATING, EC_IN_FLIGHT_TIMEOUT, EC_NOT_GIVEN_UP}"

definition candidate_post :: "(unit, rich_error) result \<Rightarrow> 'w impl \<Rightarrow> bool" where
  "candidate_post r t = (case r of Success _ \<Rightarrow> brought_up True t | Error e \<Rightarrow> err_code e \<notin> entry_codes)"

lemma connect_codes: "toRichErrorCode_connect e \<notin> entry_codes"
  by (cases e) (simp_all add: entry_codes_def)

lemma exn_codes: "err_code (exn_error sys e) \<notin> entry_codes"
  by (cases e) (simp_all add: entry_codes_def)

lemma wp_configured: "wp UNIV (configureClient K d) (configured_post s) s"
  by (rule wp_mono [OF wp_configureClient]) auto

lemma configured_client: "configured_post s (Success u) t \<Longrightarrow> m_impl t \<noteq> None"
  by (simp add: configured_post_def)

lemma wp_candidate_start: "wp UNIV (candidate_start K n) candidate_post s"
proof -
  have connect: "wp UNIV (impl_connect K n) (\<lambda>r. wp UNIV (case r of
       Error e \<Rightarrow> fail (toRichErrorCode_connect e) (connectErrorStateToString e)
     | Success _ \<Rightarrow> startWatchdog K) candidate_post) t"
    if "configured_post s (Success u) t" for u t
  proof (rule wp_weaken [OF wp_candidate_connect [OF that configured_client [OF that]]], goal_cases)
    case (1 r v)
    then have "wp UNIV (startWatchdog K) candidate_post v"
      by (intro wp_weaken [OF wp_startWatchdog]) (auto simp: candidate_post_def)
    then show ?case by (cases r) (simp_all add: fail_def wp_ret candidate_post_def connect_codes)
  qed
  show ?thesis
    unfolding candidate_start_def wp_bind [of _ "configureClient K True"]
  proof (rule wp_weaken [OF wp_configured], goal_cases)
    case (1 r t)
    then show ?case
      by (cases r) (simp_all add: wp_bind connect, simp add: fail_def wp_ret candidate_post_def entry_codes_def)
  qed
qed

lemma dispose_run: "\<exists>w. dispose K b i s = (Ret (), s\<lparr>c_world := w\<rparr>)"
proof -
  have "wp {} (dispose K b i) (\<lambda>_ t. \<exists>w. t = s\<lparr>c_world := w\<rparr>) s"
    by (rule wp_dispose_frame) auto
  then show ?thesis by (auto simp: wp_def split: prod.splits outcome.splits)
qed

text \<open>
  What the \<open>try\<close> block leaves behind: a new object that is up, or the client as it was but
  for the world and, when the owner has begun to destroy it, \<open>m_terminated\<close>.
\<close>

definition unchanged :: "bool \<Rightarrow> 'w client \<Rightarrow> 'w client \<Rightarrow> bool" where
  "unchanged dtor s t \<longleftrightarrow> t = s\<lparr>m_terminated := m_terminated t, c_world := c_world t\<rparr> \<and>
     (m_terminated s \<longrightarrow> m_terminated t) \<and> (m_terminated t \<longrightarrow> m_terminated s \<or> dtor)"

definition replaced :: "'w client \<Rightarrow> 'w client \<Rightarrow> bool" where
  "replaced s t \<longleftrightarrow> \<not> m_terminated s \<and>
     (\<exists>new. brought_up True new \<and> t = s\<lparr>pImpl := Some new, c_world := c_world t\<rparr>)"

definition try_ok :: "bool \<Rightarrow> 'w client \<Rightarrow> (unit, rich_error) result outcome \<times> 'w client \<Rightarrow> bool" where
  "try_ok dtor s p = (case p of (r, t) \<Rightarrow> (case r of
       Ret (Success _) \<Rightarrow> replaced s t
     | Ret (Error e) \<Rightarrow> err_code e \<notin> entry_codes \<and> unchanged dtor s t
     | _ \<Rightarrow> unchanged dtor s t))"

lemma try_ok_world: "try_ok dtor (s\<lparr>c_world := w\<rparr>) p \<Longrightarrow> try_ok dtor s p"
  by (auto simp: try_ok_def replaced_def unchanged_def split: prod.splits outcome.splits result.splits)

lemma adopt_ok:
  assumes "brought_up True new"
  shows "try_ok dtor s (adopt_candidate K dtor new s)"
proof -
  obtain w where w: "dispose K True new (s\<lparr>m_terminated := True\<rparr>) = (Ret (), s\<lparr>m_terminated := True, c_world := w\<rparr>)"
    using dispose_run by fastforce
  obtain w' where w': "dispose K True i (s\<lparr>pImpl := Some new\<rparr>) = (Ret (), s\<lparr>pImpl := Some new, c_world := w'\<rparr>)"
    if "pImpl s = Some i" for i
    using dispose_run [of K True "the (pImpl s)" "s\<lparr>pImpl := Some new\<rparr>"] by fastforce
  have set: "s\<lparr>m_terminated := True\<rparr> = s" if "m_terminated s" using that by simp
  show ?thesis
  proof (cases "dtor \<or> m_terminated s")
    case True
    then have u: "(if dtor then s\<lparr>m_terminated := True\<rparr> else s) = s\<lparr>m_terminated := True\<rparr>"
      using set by auto
    have "adopt_candidate K dtor new s =
        (Ret (Error (RichError EC_ALREADY_TERMINATED ''shutdown called during recreate'')),
         s\<lparr>m_terminated := True, c_world := w\<rparr>)"
      unfolding adopt_candidate_def thenE_modifyE u by (simp add: bindE_readE fail_def thenE_run bindE_run w)
    with True show ?thesis by (auto simp add: try_ok_def unchanged_def entry_codes_def)
  next
    case False
    then have "\<exists>w. adopt_candidate K dtor new s = (Ret (Success ()), s\<lparr>pImpl := Some new, c_world := w\<rparr>)"
    proof (cases "pImpl s")
      case None
      have "s\<lparr>pImpl := Some new\<rparr> = s\<lparr>pImpl := Some new, c_world := c_world s\<rparr>" by simp
      with False None show ?thesis
        by (simp add: adopt_candidate_def thenE_modifyE bindE_readE thenE_run bindE_run)
          (rule exI [of _ "c_world s"], simp)
    next
      case (Some i)
      with False w' show ?thesis
        by (auto simp: adopt_candidate_def thenE_modifyE bindE_readE thenE_run bindE_run)
    qed
    then obtain w where "adopt_candidate K dtor new s = (Ret (Success ()), s\<lparr>pImpl := Some new, c_world := w\<rparr>)"
      by blast
    with False assms show ?thesis
      by (simp add: try_ok_def replaced_def) (rule exI [of _ new], simp)
  qed
qed

lemma after_candidate_ok:
  assumes "\<And>x. r = Ret x \<Longrightarrow> candidate_post x new"
  shows "try_ok dtor s (after_candidate K dtor r new s)"
proof -
  obtain w where w: "dispose K True new s = (Ret (), s\<lparr>c_world := w\<rparr>)"
    using dispose_run [of K True new s] by blast
  show ?thesis
  proof (cases r)
    case (Ret x)
    with assms have "candidate_post x new" by simp
    with w Ret show ?thesis
      by (cases x) (simp_all add: after_candidate_def candidate_post_def adopt_ok,
        simp add: thenE_run bindE_run try_ok_def unchanged_def)
  qed (use w in \<open>auto simp: after_candidate_def thenE_run bindE_run try_ok_def unchanged_def\<close>)
qed

lemma recreate_try_ok: "try_ok dtor s (recreate_try K n dtor cfg s)"
proof -
  obtain r evs w where new: "sdk_clientNew K (c_world s) = (r, evs, w)" by (metis prod.exhaust)
  let ?s = "s\<lparr>c_world := w\<rparr>"
  show ?thesis
  proof (cases r)
    case (Inl e)
    with new show ?thesis
      by (simp add: recreate_try_def bindE_run worldCall_def try_ok_def unchanged_def)
  next
    case (Inr raw)
    show ?thesis
    proof (cases raw)
      case None
      with new Inr show ?thesis
        by (simp add: recreate_try_def bindE_run worldCall_def fail_def try_ok_def unchanged_def entry_codes_def)
    next
      case (Some c)
      obtain q j where up: "candidate_start K n (new_impl K cfg (m_endpointUrl ?s) c w\<lparr>world := w\<rparr>) = (q, j)"
        by (metis prod.exhaust)
      have run: "recreate_try K n dtor cfg s = after_candidate K dtor q j (?s\<lparr>c_world := world j\<rparr>)"
        using new Inr Some up
        by (simp add: recreate_try_def bindE_run worldCall_def with_local_def)
      have "candidate_post x j" if "q = Ret x" for x
        using wpD [OF wp_candidate_start] up that by blast
      then have "try_ok dtor (s\<lparr>c_world := world j\<rparr>) (after_candidate K dtor q j (s\<lparr>c_world := world j\<rparr>))"
        by (rule after_candidate_ok)
      then show ?thesis by (simp add: run try_ok_world)
    qed
  qed
qed

lemma guarded_ok: "try_ok dtor s (m s) \<Longrightarrow> try_ok dtor s (guarded sys m s)"
  by (cases "m s"; cases "fst (m s)") (auto simp: guarded_def catchE_run try_ok_def exn_codes)

definition recreate_post :: "bool \<Rightarrow> 'w client \<Rightarrow> (unit, rich_error) result \<Rightarrow> 'w client \<Rightarrow> bool" where
  "recreate_post dtor s r t \<longleftrightarrow>
     (m_terminated s \<longrightarrow> m_terminated t) \<and> (m_terminated t \<longrightarrow> m_terminated s \<or> dtor) \<and>
     m_recreating t = m_recreating s \<and> m_shutdownInFlight t = m_shutdownInFlight s \<and>
     m_endpointUrl t = m_endpointUrl s \<and> m_inFlight t \<le> m_inFlight s \<and>
     (m_inFlight s = 0 \<longrightarrow> m_inFlight t = 0) \<and>
     (case r of
        Success _ \<Rightarrow> gave_up s \<and> \<not> m_recreating s \<and> \<not> m_terminated s \<and> m_inFlight t = 0 \<and>
          \<not> m_terminated t \<and> (\<exists>new. pImpl t = Some new \<and> brought_up True new)
      | Error e \<Rightarrow> pImpl t = pImpl s \<and>
          (err_code e = EC_RECREATING \<longrightarrow> m_recreating s) \<and>
          (err_code e = EC_IN_FLIGHT_TIMEOUT \<longrightarrow> m_inFlight t \<noteq> 0) \<and>
          (err_code e = EC_NOT_GIVEN_UP \<longrightarrow> \<not> gave_up s))"

lemma try_ok_post:
  assumes "try_ok dtor u (r, t)" and "u = s\<lparr>m_recreating := True, m_inFlight := k, c_world := w\<rparr>"
    and "k = 0" "0 \<le> m_inFlight s" "gave_up s" "\<not> m_recreating s" "\<not> m_terminated s" and "r = Ret x"
  shows "recreate_post dtor s x (set_recreating False t)"
proof (cases x)
  case (Success y)
  with assms obtain new where new: "brought_up True new" "t = u\<lparr>pImpl := Some new, c_world := c_world t\<rparr>"
    by (auto simp: try_ok_def replaced_def)
  have "pImpl t = Some new" "m_inFlight t = k" "m_terminated t = m_terminated s"
    "m_shutdownInFlight t = m_shutdownInFlight s" "m_endpointUrl t = m_endpointUrl s"
    by (subst new(2), simp add: assms(2))+
  with new(1) assms Success show ?thesis by (auto simp: recreate_post_def set_recreating_def)
next
  case (Error e)
  with assms have c: "err_code e \<notin> entry_codes"
    and t: "t = u\<lparr>m_terminated := m_terminated t, c_world := c_world t\<rparr>"
    and d: "m_terminated t \<longrightarrow> dtor"
    by (auto simp: try_ok_def unchanged_def)
  have "pImpl t = pImpl s" "m_inFlight t = k" "m_shutdownInFlight t = m_shutdownInFlight s"
    "m_endpointUrl t = m_endpointUrl s"
    by (subst t, simp add: assms(2))+
  with c d assms Error show ?thesis by (auto simp: recreate_post_def set_recreating_def entry_codes_def)
qed

lemma wp_drain:
  "wp UNIV (drain_leases K left) (\<lambda>b t. t = s\<lparr>m_inFlight := m_inFlight t, c_world := c_world t\<rparr> \<and>
     m_inFlight t \<le> m_inFlight s \<and> (m_inFlight s = 0 \<longrightarrow> m_inFlight t = 0) \<and> (b \<longleftrightarrow> m_inFlight t = 0)) s"
  unfolding drain_leases_def by (auto simp: wp_simps split: prod.split sum.split)

lemma wp_recreate_try:
  assumes "u = s\<lparr>m_recreating := True, m_inFlight := 0, c_world := w\<rparr>"
    and "0 \<le> m_inFlight s" "gave_up s" "\<not> m_recreating s" "\<not> m_terminated s"
  shows "wp UNIV (guarded sys (recreate_try K n dtor cfg)) (\<lambda>r t. recreate_post dtor s r (set_recreating False t)) u"
proof (rule wpI)
  fix r t
  assume "guarded sys (recreate_try K n dtor cfg) u = (Ret r, t)"
  moreover have "try_ok dtor u (guarded sys (recreate_try K n dtor cfg) u)"
    by (rule guarded_ok) (rule recreate_try_ok)
  ultimately have "try_ok dtor u (Ret r, t)" by simp
  then show "recreate_post dtor s r (set_recreating False t)"
    by (rule try_ok_post [OF _ assms(1) refl assms(2-5) refl])
qed auto

lemma wp_recreate_body:
  assumes "0 \<le> m_inFlight s" "\<not> m_recreating s" "\<not> m_terminated s"
  shows "wp UNIV (recreate_body K n left dtor) (\<lambda>r t. recreate_post dtor s r (set_recreating False t))
    (set_recreating True s)"
  unfolding recreate_body_def wp_bind [of _ "drain_leases K left"]
proof (rule wp_weaken [OF wp_drain], goal_cases)
  case (1 b t)
  define w k where "w = c_world t" and "k = m_inFlight t"
  with 1 have t: "t = s\<lparr>m_recreating := True, m_inFlight := k, c_world := w\<rparr>"
    and k: "k \<le> m_inFlight s" "m_inFlight s = 0 \<longrightarrow> k = 0" "b \<longleftrightarrow> k = 0" by (simp_all add: set_recreating_def)
  show ?case
  proof (cases "b \<and> gave_up s")
    case True
    then obtain i where "pImpl s = Some i" "m_lifeState i = GIVEN_UP" by (auto simp: gave_up_def)
    moreover have "t = s\<lparr>m_recreating := True, m_inFlight := 0, c_world := w\<rparr>" using True t k by simp
    ultimately show ?thesis
      using True wp_recreate_try [OF _ assms(1) _ assms(2,3)]
      by (simp add: wp_bind [of _ "readE _"] wp_read)
  next
    case False
    with t k assms(2) show ?thesis
      by (auto simp: wp_bind [of _ "readE _"] wp_read wp_if fail_def wp_ret recreate_post_def gave_up_def
          set_recreating_def split: option.split)
  qed
qed

text \<open>Neither configuring, connecting nor starting a candidate dereferences a null pointer.\<close>

lemma exits_now_fault: "exits no_fault (nowMsImpl K)"
  unfolding nowMsImpl_def by (rule exits_call_fault)

lemma exits_connect_fault: "exits no_fault (impl_connect K n)"
proof -
  note calls = exits_call_fault exits_probe_fault exits_now_fault
  have last: "exits no_fault (connect_last K c)" for c
    unfolding connect_last_def connect_abort_def by (intro exits_impl exits_result calls)
  have bad: "exits no_fault (updateBadStatusTime K)"
    unfolding updateBadStatusTime_def by (intro exits_impl calls)
  have loop: "exits no_fault (connect_loop K c st dl m)" for c st dl m
  proof (induction m)
    case 0
    show ?case unfolding connect_loop.simps by (rule exits_diverge) simp
  next
    case (Suc m)
    show ?case
      unfolding connect_loop.simps connect_iter_def connect_rest_def callRunIterate_def
      by (intro exits_impl exits_result calls last bad Suc.IH)
  qed
  show ?thesis
    unfolding impl_connect_def connect_body_def connect_busy_def callRunIterate_def
    by (intro exits_in_flight exits_cas_guard exits_intros calls bad loop)
qed

lemma exits_candidate: "exits no_fault (candidate_start K n)"
proof -
  have "exits no_fault (configureClient K True)"
    unfolding exits_def by (intro allI wp_weaken [OF wp_configureClient] TrueI)
  then show ?thesis
    unfolding candidate_start_def startWatchdog_def
    by (intro exits_intros exits_result exits_fail exits_connect_fault exits_call_fault)
qed

text \<open>The candidate is the only part of the \<open>try\<close> block that can go wrong on its own.\<close>

lemma exits_after_candidate:
  assumes "range Threw \<subseteq> A" and "r = Diverge \<Longrightarrow> Diverged \<in> A" and "r = Fault \<Longrightarrow> Faulted \<in> A"
  shows "exits A (after_candidate K dtor r j)"
proof -
  have disp: "exits A (dispose K b i)" for b i
    by (rule exits_mono [OF exits_dispose]) simp
  have adopt: "exits A (adopt_candidate K dtor new)" for new
    unfolding adopt_candidate_def by (intro exits_intros exits_fail disp)
  show ?thesis
  proof (cases r)
    case (Ret x)
    then show ?thesis
      by (cases x) (simp_all add: after_candidate_def adopt exits_then exits_ret disp)
  next
    case (Throw e)
    show ?thesis
      unfolding after_candidate_def Throw outcome.case by (intro exits_then disp exits_throw) (use assms(1) in auto)
  qed (use assms(2,3) in \<open>simp_all add: after_candidate_def exits_def wp_diverge wp_fault\<close>)
qed

lemma exits_recreate_try:
  fixes K :: "'w sdk"
  assumes "exits A (candidate_start K n)" and "range Threw \<subseteq> A"
  shows "exits A (recreate_try K n dtor cfg)"
proof -
  have local: "exits A (with_local new (candidate_start K n) (after_candidate K dtor))" for new
    unfolding exits_def wp_with_local
  proof (intro allI, simp split: prod.split, intro allI impI)
    fix s :: "'w client" and r j
    assume run: "candidate_start K n (new\<lparr>world := c_world s\<rparr>) = (r, j)"
    have c: "wp A (candidate_start K n) (\<lambda>_ _. True) (new\<lparr>world := c_world s\<rparr>)"
      by (rule exitsD [OF assms(1)])
    show "wp A (after_candidate K dtor r j) (\<lambda>_ _. True) (s\<lparr>c_world := world j\<rparr>)"
      by (rule exitsD [OF exits_after_candidate [OF assms(2)]]) (use c run in \<open>auto simp: wp_def\<close>)
  qed
  have call: "exits A (worldCall c)" for c
    using assms(2) by (auto simp: exits_def wp_worldCall split: prod.split sum.split)
  show ?thesis
    unfolding recreate_try_def by (intro exits_intros exits_fail call local)
qed

text \<open>The handlers take every exception and nothing else.\<close>

lemma exits_handled:
  assumes "exits A m"
  shows "exits (A - range Threw) (guarded sys m)"
  unfolding guarded_def by (rule exits_catch [OF assms]) (auto intro: exits_ret)

lemma exits_total_guarded: "exits (range Threw) m \<Longrightarrow> exits {} (guarded sys m)"
  using exits_handled [of "range Threw" m sys] by simp

lemma exits_drain_leases:
  assumes "\<And>ms w. \<exists>x. fst (wait_ms K ms w) = Inr x"
  shows "exits {} (drain_leases K left)"
proof -
  have "exits {} (worldCall (wait_ms K ms))" for ms
    unfolding exits_def wp_worldCall using assms [of ms] by (auto split: prod.split sum.split) (metis fst_conv sum.distinct(1))
  then show ?thesis unfolding drain_leases_def by (intro exits_intros)
qed

lemma exits_recreate:
  assumes "\<And>ms w. \<exists>x. fst (wait_ms K ms w) = Inr x"
  shows "exits {Diverged} (recreateGiveUpClient K n left dtor)"
proof -
  have "no_fault - range Threw \<subseteq> {Diverged}" by (metis DiffE ComplD exit.exhaust insertI1 rangeI subsetI)
  then have "exits {Diverged} (guarded sys (recreate_try K n dtor cfg))" for sys cfg
    by (intro exits_mono [OF exits_handled [OF exits_recreate_try [OF exits_candidate]]]) auto
  then show ?thesis
    unfolding recreateGiveUpClient_def recreate_body_def
    by (intro exits_intros exits_fail exits_mono [OF exits_drain_leases [OF assms]]) simp_all
qed

lemma wp_recreate:
  assumes "\<And>ms w. \<exists>x. fst (wait_ms K ms w) = Inr x" and "0 \<le> m_inFlight s"
  shows "wp {Diverged} (recreateGiveUpClient K n left dtor) (recreate_post dtor s) s"
proof (rule wp_exits [OF exits_recreate [OF assms(1)]])
  show "wp UNIV (recreateGiveUpClient K n left dtor) (recreate_post dtor s) s"
    unfolding recreateGiveUpClient_def using assms(2) wp_recreate_body [OF assms(2)]
    by (auto simp: wp_bind [of _ "readE _"] wp_read wp_if fail_def wp_ret wp_then [of _ "modifyE _"] wp_modify
        wp_finally recreate_post_def)
qed

section \<open>Factories\<close>

definition on_success :: "('s \<Rightarrow> bool) \<Rightarrow> ('a, 'e) result \<Rightarrow> 's \<Rightarrow> bool" where
  "on_success P r t \<longleftrightarrow> (case r of Success _ \<Rightarrow> P t | Error _ \<Rightarrow> True)"

lemma on_success_simps [simp]:
  "on_success P (Success x) t = P t" "on_success P (Error e) t = True"
  by (simp_all add: on_success_def)

lemma on_success_fun: "(\<lambda>r t. on_success P r (f t)) = on_success (\<lambda>t. P (f t))"
  by (simp add: on_success_def fun_eq_iff)

lemma wp_guarded_success: "wp UNIV m (on_success P) s \<Longrightarrow> wp UNIV (guarded sys m) (on_success P) s"
  unfolding guarded_def by (rule wp_catch) (simp_all add: wp_ret)

definition quiescent :: "'w client \<Rightarrow> bool" where
  "quiescent c \<longleftrightarrow> \<not> m_recreating c \<and> \<not> m_terminated c \<and> m_inFlight c = 0 \<and> m_shutdownInFlight c = 0"

definition online :: "'w sdk \<Rightarrow> 'w impl \<Rightarrow> bool" where
  "online K i \<longleftrightarrow> triple_ready K (state_packed i) \<and>
     (m_lifeState i = GIVEN_UP \<or> m_lifeState i = RUNNING \<and> isHealthyCached K i)"

definition client_ready :: "'w sdk \<Rightarrow> bool \<Rightarrow> 'w client \<Rightarrow> bool" where
  "client_ready K watchdog c \<longleftrightarrow> quiescent c \<and>
     (\<exists>i. pImpl c = Some i \<and> brought_up watchdog i \<and> (\<not> watchdog \<longrightarrow> online K i))"

lemma configured_world: "configured_post i0 r (i\<lparr>world := w\<rparr>) = configured_post i0 r i"
  by (cases r) (simp_all add: configured_post_def)

text \<open>\<open>connect()\<close> of the client on a configured object.\<close>

lemma wp_client_connect:
  assumes "quiescent s" and "pImpl s = Some i" and "configured_post i0 (Success u) i"
  shows "wp UNIV (client_connect K n) (on_success (client_ready K False)) s"
proof -
  let ?i = "i\<lparr>world := c_world s\<rparr>"
  let ?k = "\<lambda>r. case r of Success _ \<Rightarrow> ret (Success ())
    | Error e \<Rightarrow> fail (toRichErrorCode_connect e) (connectErrorStateToString e)"
  have i: "configured_post i0 (Success u) ?i" using assms(3) by (simp only: configured_world)
  have ready: "client_ready K False (api_leave ((api_enter s)\<lparr>pImpl := Some j, c_world := world j\<rparr>))"
    if "connect_post K ?i (Success v) j" "m_impl j \<noteq> None" "config_ok (m_config j)" "callbacks j"
      "\<exists>l. sdk_config j = Some (ua_config_of (m_config j) l)" for v j
    using that assms(1)
    by (auto simp: client_ready_def quiescent_def api_enter_def api_leave_def brought_up_def online_def connect_post_def)
  have "wp UNIV (impl_connect K n) (\<lambda>r j. wp UNIV (?k r) (on_success (\<lambda>t. client_ready K False (api_leave t)))
      ((api_enter s)\<lparr>pImpl := Some j, c_world := world j\<rparr>)) ?i"
  proof (rule wp_weaken [OF wp_candidate_connect [OF i configured_client [OF i]]], goal_cases)
    case (1 r j)
    then show ?case by (cases r) (simp_all add: wp_ret ready fail_def)
  qed
  then have "wp UNIV (bindE (on_pImpl (impl_connect K n)) ?k)
      (on_success (\<lambda>t. client_ready K False (api_leave t))) (api_enter s)"
    using assms(2) by (simp add: wp_bind wp_on_pImpl api_enter_def)
  then have "wp UNIV (guarded ''System error:'' (bindE (on_pImpl (impl_connect K n)) ?k))
      (on_success (\<lambda>t. client_ready K False (api_leave t))) (api_enter s)"
    by (rule wp_guarded_success)
  then show ?thesis
    using assms(1,2) unfolding client_connect_def api_def with_lease_def with_pImpl_def
    by (simp add: wp_bind [of _ "readE _"] wp_read reason_def quiescent_def wp_then [of _ "modifyE _"] wp_modify
        wp_finally api_enter_def on_success_fun [of _ api_leave])
qed

lemma wp_bring_up:
  assumes "quiescent s" and "pImpl s \<noteq> None"
  shows "wp UNIV (bring_up K n d watchdog) (on_success (client_ready K watchdog)) s"
proof -
  obtain i where i: "pImpl s = Some i" using assms(2) by auto
  have watch: "wp UNIV (on_pImpl (startWatchdog K)) (on_success (client_ready K True)) t"
    if t: "client_ready K False t" for t
  proof -
    obtain j where j: "pImpl t = Some j" "brought_up False j" using t by (auto simp: client_ready_def)
    then have "wp UNIV (startWatchdog K) (\<lambda>r j. r = Success () \<and> brought_up True j) (j\<lparr>world := c_world t\<rparr>)"
      by (intro wp_startWatchdog) (auto simp: brought_up_def)
    then show ?thesis
      unfolding wp_on_pImpl using j(1) t
      by (auto elim!: wp_weaken simp: client_ready_def quiescent_def)
  qed
  have connect: "wp UNIV (bindE (client_connect K n) (\<lambda>r. case r of
         Error e \<Rightarrow> ret (Error (rewrap e))
       | Success _ \<Rightarrow> if watchdog then on_pImpl (startWatchdog K) else ret (Success ())))
      (on_success (client_ready K watchdog)) t"
    if "quiescent t" "pImpl t = Some j" "configured_post i0 (Success u) j" for t j i0 u
    unfolding wp_bind
  proof (rule wp_weaken [OF wp_client_connect [OF that]], goal_cases)
    case (1 r v)
    then show ?case by (cases r; cases watchdog) (simp_all add: wp_ret watch)
  qed
  show ?thesis
    unfolding bring_up_def wp_bind [of _ "on_pImpl _"] wp_on_pImpl
  proof (simp only: i option.case, rule wp_weaken [OF wp_configured], goal_cases)
    case (1 r j)
    show ?case
    proof (cases r)
      case (Success u)
      show ?thesis
        unfolding Success result.case
        by (rule connect [OF _ _ 1 [unfolded Success]]) (use assms(1) in \<open>simp_all add: quiescent_def\<close>)
    qed (simp add: wp_ret)
  qed
qed

lemma wp_create:
  "wp no_throw (create K n url cfg useDefault)
     (\<lambda>r w. case r of Success c \<Rightarrow> client_ready K True c \<and> c_world c = w | Error _ \<Rightarrow> True) w \<and>
   wp no_throw (createWithSdk (Some K) n url cfg useDefault watchdog)
     (\<lambda>r w. case r of Success c \<Rightarrow> client_ready K watchdog c \<and> c_world c = w | Error _ \<Rightarrow> True) w"
proof -
  have build: "wp UNIV (guarded sys (build_client K n url cfg useDefault wd))
      (\<lambda>r w. case r of Success c \<Rightarrow> client_ready K wd c \<and> c_world c = w | Error _ \<Rightarrow> True) w" for sys wd
  proof -
    have "wp UNIV (build_client K n url cfg useDefault wd)
        (\<lambda>r w. case r of Success c \<Rightarrow> client_ready K wd c \<and> c_world c = w | Error _ \<Rightarrow> True) w"
      unfolding build_client_def wp_bind
    proof (rule wpI)
      fix c w'
      assume "construct K url cfg w = (Ret c, w')"
      then have "quiescent c" "pImpl c \<noteq> None"
        by (auto simp: construct_def quiescent_def split: prod.splits sum.splits option.splits)
      note up = wpD [OF wp_bring_up [OF this]]
      obtain q c' where run: "bring_up K n useDefault wd c = (q, c')" by (metis prod.exhaust)
      show "wp UNIV (\<lambda>_. case bring_up K n useDefault wd c of
             (Ret (Success _), c') \<Rightarrow> (Ret (Success c'), c_world c')
           | (Ret (Error e), c') \<Rightarrow> (Ret (Error e), discard K c')
           | (Throw x, c') \<Rightarrow> (Throw x, discard K c')
           | (Diverge, c') \<Rightarrow> (Diverge, c_world c')
           | (Fault, c') \<Rightarrow> (Fault, c_world c'))
          (\<lambda>r w. case r of Success c \<Rightarrow> client_ready K wd c \<and> c_world c = w | Error _ \<Rightarrow> True) w'"
      proof (cases q)
        case (Ret x)
        with up [OF run [unfolded this]] show ?thesis by (cases x) (simp_all add: wp_def run)
      qed (simp_all add: wp_def run)
    qed simp_all
    then show ?thesis
      unfolding guarded_def by (rule wp_catch) (simp_all add: wp_ret)
  qed
  show ?thesis
    unfolding create_def createWithSdk_def option.case
    by (intro conjI wp_exits [OF exits_guarded] build)
qed

end
