(* ===== verification/Batch_Facts.thy ===== *)
theory Batch_Facts
  imports Impl_Batch Connect_Facts
begin

text \<open>
  What \<open>Impl::batchRead\<close> and \<open>Impl::batchWrite\<close> promise: the gates in front of the
  SDK, the number of service calls, the shape and meaning of the results, and the
  absence of undefined behaviour for every response a server can cause.
\<close>

section \<open>Gates\<close>

definition gate_code :: "'w sdk \<Rightarrow> 'a list \<Rightarrow> 'w impl \<Rightarrow> error_code option" where
  "gate_code K xs s =
     (if getEffectiveStopSignal s then Some EC_ALREADY_TERMINATED
      else if m_lifeState s = RECOVERING then Some EC_NOT_CONNECTED
      else if m_connState s \<noteq> IDLE then Some EC_THREAD_BUSY
      else if xs = [] then Some EC_INVALID_ARGUMENT
      else if \<not> isHealthyCached K s then Some EC_NOT_CONNECTED
      else None)"

lemma task_frame [simp]:
  "task_end (task_begin s) = s" "m_lifeState (task_begin s) = m_lifeState s"
  "isHealthyCached K (task_begin s) = isHealthyCached K s"
  by (simp_all add: task_begin_def task_end_def isHealthyCached_def)

lemma gateE_run: "gateE g k s = (case g s of Some e \<Rightarrow> (Ret (Error e), s) | None \<Rightarrow> k s)"
  by (simp add: gateE_def bindE_readE split: option.splits)

lemma in_flight_run: "in_flight m s = (fst (m (task_begin s)), task_end (snd (m (task_begin s))))"
  by (simp add: in_flight_def thenE_modifyE finallyE_def split: prod.splits)

text \<open>
  C24: a stopped, given-up or recovering client, one that another thread is
  connecting, an empty list and an unhealthy cache are all turned away with the error
  code of \<open>gate_code\<close>, in that order, before anything reaches the SDK: the state of
  the client is exactly what it was.
\<close>

theorem batch_gates:
  assumes "gate_code K xs s = Some code" and "length xs = length nodes" and "length xs = length items"
  shows "(\<exists>msg. impl_batchRead K nodes s = (Ret (Error (RichError code msg)), s)) \<and>
    (\<exists>msg. impl_batchWrite K items s = (Ret (Error (RichError code msg)), s))"
proof -
  have len: "(xs = []) = (nodes = [])" "(xs = []) = (items = [])"
    using assms(2,3) by (metis length_0_conv)+
  show ?thesis
  proof (cases "getEffectiveStopSignal s")
    case True
    with assms(1) show ?thesis
      by (simp add: gate_code_def impl_batchRead_def impl_batchWrite_def gateE_run stop_gate_def)
  next
    case False
    then have "m_lifeState s \<noteq> GIVEN_UP" by (auto simp: getEffectiveStopSignal_def)
    with False assms(1) len show ?thesis
      by (auto simp: gate_code_def impl_batchRead_def impl_batchWrite_def gateE_run stop_gate_def
          in_flight_run state_gate_def empty_gate_def health_gate_def split: if_splits)
  qed
qed

section \<open>Counting service calls\<close>

text \<open>A counter of the read and write services issued, whatever else the world does.\<close>

definition service_counter :: "'w sdk \<Rightarrow> ('w \<Rightarrow> nat) \<Rightarrow> bool" where
  "service_counter K cnt \<longleftrightarrow>
     (\<forall>c n w. cnt (snd (snd (sdk_runIterate K c n w))) = cnt w) \<and>
     (\<forall>c w. cnt (snd (snd (sdk_getState K c w))) = cnt w) \<and>
     (\<forall>c url w. cnt (snd (snd (sdk_connectAsync K c url w))) = cnt w) \<and>
     (\<forall>c w. cnt (snd (snd (sdk_disconnectAsync K c w))) = cnt w) \<and>
     (\<forall>w. cnt (snd (snd (sdk_nowMs K w))) = cnt w) \<and>
     (\<forall>w. cnt (snd (snd (wall_now K w))) = cnt w) \<and>
     (\<forall>n w. cnt (snd (snd (wait_ms K n w))) = cnt w) \<and>
     (\<forall>n w. cnt (snd (sdk_array_new K n w)) = cnt w) \<and>
     (\<forall>ns x w. cnt (snd (sdk_nodeid_string_alloc K ns x w)) = cnt w) \<and>
     (\<forall>c ty w. cnt (snd (sdk_set_scalar_copy K c ty w)) = cnt w) \<and>
     (\<forall>c q w. cnt (snd (snd (sdk_serviceRead K c q w))) = cnt w + 1) \<and>
     (\<forall>c q w. cnt (snd (snd (sdk_serviceWrite K c q w))) = cnt w + 1)"

definition counts_same :: "'w sdk \<Rightarrow> ('w \<Rightarrow> nat) \<Rightarrow> 'w impl \<Rightarrow> 'w impl \<Rightarrow> bool" where
  "counts_same K cnt s t \<longleftrightarrow> (service_counter K cnt \<longrightarrow> cnt (world t) = cnt (world s))"

interpretation quiet: impl_contract "counts_same K cnt" K
  by unfold_locales
    (auto simp: counts_same_def service_counter_def apply_event_keeps transition_defs)

definition adds :: "'w sdk \<Rightarrow> ('w \<Rightarrow> nat) \<Rightarrow> nat \<Rightarrow> 'w impl \<Rightarrow> 'w impl \<Rightarrow> bool" where
  "adds K cnt n s t \<longleftrightarrow> (service_counter K cnt \<longrightarrow>
     cnt (world s) \<le> cnt (world t) \<and> cnt (world t) \<le> cnt (world s) + n)"

lemma adds_quiet: "guar (counts_same K cnt) m \<Longrightarrow> guar (adds K cnt n) m"
  by (auto simp: guar_def counts_same_def adds_def)

lemma adds_mono: "guar (adds K cnt a) m \<Longrightarrow> a \<le> b \<Longrightarrow> guar (adds K cnt b) m"
  by (auto simp: guar_def adds_def intro: le_trans)

lemma adds_trans: "adds K cnt a s t \<Longrightarrow> adds K cnt b t u \<Longrightarrow> adds K cnt (a + b) s u"
  by (auto simp: adds_def)

lemma adds_more: "adds K cnt a s t \<Longrightarrow> adds K cnt (a + b) s t"
  by (auto simp: adds_def)

lemma adds_bind:
  assumes "guar (adds K cnt a) m" and "\<And>x. guar (adds K cnt b) (f x)"
  shows "guar (adds K cnt (a + b)) (bindE m f)"
proof (rule guarI)
  fix s
  obtain r s' where m: "m s = (r, s')" by (cases "m s")
  with guarD [OF assms(1), of s] have "adds K cnt a s s'" by simp
  moreover have "adds K cnt b s' (snd (f x s'))" for x using assms(2) by (rule guarD)
  ultimately show "adds K cnt (a + b) s (snd (bindE m f s))"
    by (cases r) (simp_all add: bindE_def m adds_more adds_trans)
qed

lemma adds_then_quiet:
  "guar (counts_same K cnt) m \<Longrightarrow> (\<And>x. guar (adds K cnt n) (f x)) \<Longrightarrow> guar (adds K cnt n) (bindE m f)"
  using adds_bind [OF adds_quiet, of K cnt m n f 0] by simp

lemma adds_gate: "guar (adds K cnt n) k \<Longrightarrow> guar (adds K cnt n) (gateE g k)"
  unfolding gateE_def
  by (rule adds_then_quiet [OF quiet.g_read]) (auto intro: adds_quiet quiet.g_ret split: option.split)

lemma adds_if: "guar (adds K cnt n) a \<Longrightarrow> guar (adds K cnt n) b \<Longrightarrow> guar (adds K cnt n) (if c then a else b)"
  by simp

lemma adds_result:
  "(\<And>v. guar (adds K cnt n) (f v)) \<Longrightarrow> (\<And>e. guar (adds K cnt n) (g e)) \<Longrightarrow>
     guar (adds K cnt n) (case r of Success v \<Rightarrow> f v | Error e \<Rightarrow> g e)"
  by (cases r) simp_all

lemma adds_option:
  "guar (adds K cnt n) m \<Longrightarrow> (\<And>x. guar (adds K cnt n) (f x)) \<Longrightarrow>
     guar (adds K cnt n) (case z of None \<Rightarrow> m | Some x \<Rightarrow> f x)"
  by (cases z) simp_all

lemma adds_in_flight: "guar (adds K cnt n) m \<Longrightarrow> guar (adds K cnt n) (in_flight m)"
  unfolding guar_def adds_def in_flight_run snd_conv transition_world by (metis transition_world(4))

lemma adds_read: "guar (adds K cnt 1) (sdkCall (sdk_serviceRead K c q))"
  by (auto simp: guar_def adds_def sdkCall_def service_counter_def events_world split: prod.splits)
    (metis snd_conv le_SucI order_refl)+

lemma adds_write: "guar (adds K cnt 1) (sdkCall (sdk_serviceWrite K c q))"
  by (auto simp: guar_def adds_def sdkCall_def service_counter_def events_world split: prod.splits)
    (metis snd_conv le_SucI order_refl)+

text \<open>Building a request touches the SDK's heap only.\<close>

definition world_quiet :: "'w sdk \<Rightarrow> ('w \<Rightarrow> nat) \<Rightarrow> 'w \<Rightarrow> 'w \<Rightarrow> bool" where
  "world_quiet K cnt v w \<longleftrightarrow> (service_counter K cnt \<longrightarrow> cnt w = cnt v)"

interpretation heap: heap_contract "world_quiet K cnt" K
  by unfold_locales (auto simp: world_quiet_def service_counter_def)

lemma quiet_onWorld: "guar (world_quiet K cnt) m \<Longrightarrow> guar (counts_same K cnt) (onWorld m)"
  by (auto simp: guar_def onWorld_def counts_same_def world_quiet_def split: prod.splits) (metis snd_conv)

lemma quiet_array:
  "guar (counts_same K cnt) (onWorld (\<lambda>w. case sdk_array_new K n w of (ok, w') \<Rightarrow> (Ret ok, w')))"
  by (rule quiet_onWorld) (rule heap.h_array)

lemma quiet_outcomeE: "guar (counts_same K cnt) (outcomeE x)"
  by (simp add: guar_def outcomeE_def counts_same_def)

lemma quiet_outcome: "guar (counts_same K cnt) (read_outcome K nodes r resp)"
  unfolding read_outcome_def by (intro quiet.c_intros quiet.g_delay quiet_outcomeE)

lemma adds_read_loop: "guar (adds K cnt (unat a - unat r)) (read_loop K nodes q c t a r)"
proof (induction "unat a - unat r" arbitrary: r rule: less_induct)
  case less
  show ?case
  proof (cases "r < a")
    case True
    have next_r: "guar (adds K cnt (unat a - unat (r + 1))) (read_loop K nodes q c t a (r + 1))"
      using True by (intro less next_progress)
    have "guar (adds K cnt (unat a - unat (r + 1))) (bindE (read_outcome K nodes r resp) (\<lambda>x.
        case x of Some res \<Rightarrow> ret res | None \<Rightarrow> read_loop K nodes q c t a (r + 1)))" for resp
      by (rule adds_then_quiet [OF quiet_outcome])
        (auto intro: next_r adds_quiet [OF quiet.g_ret] split: option.split)
    then have "guar (adds K cnt (1 + (unat a - unat (r + 1))))
        (bindE (sdkCall (sdk_serviceRead K c q)) (\<lambda>resp. bindE (read_outcome K nodes r resp) (\<lambda>x.
        case x of Some res \<Rightarrow> ret res | None \<Rightarrow> read_loop K nodes q c t a (r + 1))))"
      by (rule adds_bind [OF adds_read])
    moreover have "1 + (unat a - unat (r + 1)) = unat a - unat r"
      using True by (simp add: unat_next word_less_nat_alt)
    ultimately have "guar (adds K cnt (unat a - unat r)) (read_attempt K nodes q c t r (read_loop K nodes q c t a (r + 1)))"
      unfolding read_attempt_def response_scope_id by (intro adds_gate adds_then_quiet [OF quiet.g_nowMs]) simp
    with True show ?thesis by (subst read_loop.simps) simp
  next
    case False
    then show ?thesis by (subst read_loop.simps) (simp add: adds_quiet [OF quiet.g_ret])
  qed
qed

text \<open>
  Bounded service calls, for a computation started in \<open>s\<close>: the bound of \<open>batchRead\<close>
  comes from the configuration in force, which nothing changes meanwhile.
\<close>

definition bounded :: "'w sdk \<Rightarrow> ('w \<Rightarrow> nat) \<Rightarrow> nat \<Rightarrow> ('w impl, 'a) cpp \<Rightarrow> 'w impl \<Rightarrow> bool" where
  "bounded K cnt n m s \<longleftrightarrow> adds K cnt n s (snd (m s))"

lemma bounded_guar: "guar (adds K cnt n) m \<Longrightarrow> bounded K cnt n m s"
  by (simp add: bounded_def guar_def)

lemma bounded_quiet: "guar (counts_same K cnt) m \<Longrightarrow> bounded K cnt n m s"
  by (intro bounded_guar adds_quiet)

lemma bounded_bind:
  assumes "guar (counts_same K cnt) m" and "guar keeps_identity m"
    and "\<And>x t. m_config t = m_config s \<Longrightarrow> bounded K cnt n (f x) t"
  shows "bounded K cnt n (bindE m f) s"
proof -
  obtain r s' where m: "m s = (r, s')" by (cases "m s")
  have "adds K cnt 0 s s'" using guarD [OF adds_quiet [OF assms(1), where n = 0], of s] by (simp add: m)
  moreover have "bounded K cnt n (f x) s'" for x
    using assms(3) guarD [OF assms(2), of s] by (simp add: m keeps_identity_def)
  ultimately show ?thesis
    unfolding bounded_def
    using adds_trans [of K cnt 0 s s' n] adds_more [of K cnt 0 s s' n]
    by (cases r) (simp_all add: bindE_def m)
qed

lemma bounded_gate: "bounded K cnt n k s \<Longrightarrow> bounded K cnt n (gateE g k) s"
  by (auto simp: bounded_def gateE_run adds_def split: option.split)

lemma bounded_in_flight: "bounded K cnt n m (task_begin s) \<Longrightarrow> bounded K cnt n (in_flight m) s"
  by (simp add: bounded_def in_flight_run adds_def)

lemma bounded_ret: "bounded K cnt n (ret x) s"
  by (simp add: bounded_def adds_def)

lemma bounded_read_loop:
  assumes "m_config s = cfg" and "N = unat (maxRetries cfg) + 1"
  shows "bounded K cnt N
      (bindE (readE (\<lambda>s. (m_impl s, maxRetries (m_config s)))) (\<lambda>(i, maxr).
          case i of None \<Rightarrow> faultE
          | Some client \<Rightarrow> bindE (nowMsImpl K) (\<lambda>startTime.
              read_loop K nodes (q client) client startTime (maxr + 1) 0))) s"
proof (cases "m_impl s")
  case None
  then show ?thesis by (simp add: bounded_def bindE_readE adds_def)
next
  case (Some c)
  have one: "unat (m + 1) - unat (0::u32) \<le> unat m + 1" for m :: u32
    by (simp add: unat_word_ariths)
  have "bounded K cnt N (bindE (nowMsImpl K) (\<lambda>startTime.
      read_loop K nodes (q c) c startTime (maxRetries cfg + 1) 0)) s"
    by (rule bounded_bind [OF quiet.g_nowMs identity.g_nowMs], rule bounded_guar)
      (unfold assms(2), rule adds_mono [OF adds_read_loop one])
  then show ?thesis using assms(1) Some by (simp add: bounded_def bindE_readE)
qed

lemma bounded_request:
  assumes "m_config s = cfg" and "N = unat (maxRetries cfg) + 1"
  shows "bounded K cnt N (read_request_and_loop K nodes) s"
  unfolding read_request_and_loop_def
proof (rule bounded_bind [OF quiet_array identity.g_anyWorld], goal_cases)
  case (1 ok u)
  have items: "bounded K cnt N (bindE (onWorld (read_items K nodes)) f) u"
    if "\<And>x v. m_config v = cfg \<Longrightarrow> bounded K cnt N (f x) v" for f
    by (rule bounded_bind [OF quiet_onWorld [OF heap.h_read_items] identity.g_anyWorld])
      (rule that, use 1 assms(1) in simp)
  show ?case
    by (cases ok) (auto intro!: items bounded_ret bounded_gate
        bounded_read_loop [OF _ assms(2), where q = "\<lambda>c. _"] split: result.split)
qed

text \<open>
  \<open>batchRead\<close> issues at most \<open>maxRetries + 1\<close> read services, on every way out.
\<close>

theorem batchRead_attempts:
  assumes "service_counter K cnt"
  shows "cnt (world (snd (impl_batchRead K nodes s))) \<le>
    cnt (world s) + unat (maxRetries (m_config s)) + 1"
proof -
  have "bounded K cnt (unat (maxRetries (m_config s)) + 1) (impl_batchRead K nodes) s"
    unfolding impl_batchRead_def
    by (intro bounded_gate bounded_in_flight bounded_request) (simp_all add: task_begin_def)
  with assms show ?thesis by (simp add: bounded_def adds_def)
qed

text \<open>
  \<open>batchWrite\<close> issues at most one write service, on every way out: a write is
  never repeated.
\<close>

theorem batchWrite_once:
  assumes "service_counter K cnt"
  shows "cnt (world (snd (impl_batchWrite K items s))) \<le> cnt (world s) + 1"
proof -
  have outcome: "guar (counts_same K cnt) (write_outcome K items resp)" for resp
    unfolding write_outcome_def by (intro quiet.c_intros quiet_outcomeE)
  have call: "guar (adds K cnt 1) (bindE (sdkCall (sdk_serviceWrite K c q)) (\<lambda>resp. write_outcome K items resp))"
    for c q
    using adds_bind [OF adds_write adds_quiet [OF outcome, where n = 0], of c q] by simp
  have "guar (adds K cnt 1) (impl_batchWrite K items)"
    unfolding impl_batchWrite_def write_request_and_call_def response_scope_id
    by (intro adds_gate adds_in_flight adds_then_quiet [OF quiet_array] adds_quiet [OF quiet.g_ret]
        adds_then_quiet [OF quiet_onWorld [OF heap.h_write_items]] adds_then_quiet [OF quiet.g_read] call
        adds_if adds_result adds_option adds_quiet [OF quiet.g_fault])
  from guarD [OF this, of s] assms show ?thesis by (simp add: adds_def)
qed

text \<open>
  C10: on every way out \<open>batchRead\<close> has issued at most \<open>maxRetries + 1\<close> read services and
  \<open>batchWrite\<close> at most one write service: a read is retried as configured, a write never.
\<close>

theorem batch_services_bounded:
  assumes "service_counter K cnt"
  shows "cnt (world (snd (impl_batchRead K nodes s))) \<le> cnt (world s) + unat (maxRetries (m_config s)) + 1 \<and>
    cnt (world (snd (impl_batchWrite K items s))) \<le> cnt (world s) + 1"
  by (intro conjI batchRead_attempts batchWrite_once assms)

section \<open>Rejected batches\<close>

text \<open>Building the request always returns.\<close>

lemma exits_nodeid: "exits {} (uaNodeIDAlloc K nid out)"
  by (auto simp: exits_def wp_def uaNodeIDAlloc_def split: node_key.splits prod.splits)

lemma exits_copy: "exits {} (copy_into K c ty dst)"
  by (auto simp: exits_def wp_def copy_into_def Let_def split: prod.splits)

lemma exits_dispatch: "exits {} (write_dispatch K t dst v)"
  unfolding write_dispatch_def write_convert_def write_convert_scalar_def write_convert_string_def
  by (auto intro!: exits_intros exits_copy split: option.split value_type.split)

lemma exits_write_items: "exits {} (write_items K items)"
proof (induction items)
  case (Cons i items)
  then show ?case
    unfolding write_items.simps by (intro exits_intros exits_result exits_nodeid exits_dispatch)
qed (unfold write_items.simps, rule exits_ret)

lemma exits_read_items: "exits {} (read_items K ns)"
proof (induction ns)
  case (Cons n ns)
  then show ?case
    unfolding read_items.simps by (intro exits_intros exits_result exits_nodeid)
qed (unfold read_items.simps, rule exits_ret)

definition failed :: "('a, rich_error) result \<Rightarrow> 's \<Rightarrow> bool" where
  "failed r s \<longleftrightarrow> (\<exists>e. r = Error e)"

lemma failed_simps [simp]: "failed (Error e) s" "\<not> failed (Success v) s"
  by (simp_all add: failed_def)

lemma failed_step:
  assumes "\<And>n u. wp UNIV (k n) failed u"
  shows "wp UNIV (bindE m (\<lambda>(r, n). case r of Success _ \<Rightarrow> k n | Error e \<Rightarrow> ret (Error (g e)))) failed s"
proof (rule wp_skip)
  fix x t
  show "wp UNIV (case x of (r, n) \<Rightarrow> (case r of Success _ \<Rightarrow> k n | Error e \<Rightarrow> ret (Error (g e)))) failed t"
    using assms by (cases x; cases "fst x") (simp_all add: wp_ret)
qed

lemma failed_tail:
  assumes "\<And>u. wp UNIV m failed u"
  shows "wp UNIV (bindE m (\<lambda>r. case r of Success v \<Rightarrow> ret (Success (g v)) | Error e \<Rightarrow> ret (Error e))) failed s"
  unfolding wp_bind by (rule wp_weaken [OF assms]) (auto simp: failed_def wp_ret)

lemma write_items_reject:
  assumes "i \<in> set items" and "write_reject_code (nd_dataType (wi_node i)) (wi_value i) = Some code"
  shows "wp {} (write_items K items) failed w"
proof -
  have "wp UNIV (write_items K items) failed w"
    using assms(1)
  proof (induction items arbitrary: w)
    case (Cons j items)
    show ?case
    proof (cases "i = j")
      case True
      have "wp UNIV (bindE (write_dispatch K (nd_dataType (wi_node j)) dst (wi_value j)) (\<lambda>(r, node).
          case r of Success _ \<Rightarrow> k node | Error e \<Rightarrow> ret (Error (RichError (err_code e) (err_context e))))) failed u"
        for dst k u
      proof -
        obtain msg where "write_dispatch K (nd_dataType (wi_node j)) dst (wi_value j) u =
            (Ret (Error (RichError code msg), dst), u)"
          using write_dispatch_rejected [OF assms(2), of K dst u] True by blast
        then show ?thesis by (simp add: wp_def)
      qed
      then show ?thesis unfolding write_items.simps by (rule failed_step)
    next
      case False
      with Cons.prems have "wp UNIV (write_items K items) failed u" for u by (intro Cons.IH) simp
      then show ?thesis unfolding write_items.simps by (intro failed_step failed_tail)
    qed
  qed simp
  then show ?thesis by (rule wp_exits [OF exits_write_items])
qed

lemma wp_gate:
  "(g s = None \<Longrightarrow> wp A k failed s) \<Longrightarrow> wp A (gateE g k) failed s"
  by (simp add: gateE_def wp_simps split: option.split)

lemma wp_onWorld: "wp A (onWorld m) Q s = wp A m (\<lambda>x w. Q x (s\<lparr>world := w\<rparr>)) (world s)"
  by (auto simp: wp_def onWorld_def split: prod.splits outcome.splits)

text \<open>
  C22: a batch with one item that cannot be written (wrong alternative, unsupported
  type, embedded NUL) is rejected as a whole, whatever its position, and without a
  single write service.
\<close>

theorem batchWrite_all_or_nothing:
  assumes "service_counter K cnt" and "i \<in> set items"
    and "write_reject_code (nd_dataType (wi_node i)) (wi_value i) = Some code"
  shows "\<exists>e t. impl_batchWrite K items s = (Ret (Error e), t) \<and> cnt (world t) = cnt (world s)"
proof -
  have items: "wp {} (onWorld (write_items K items)) (\<lambda>r t. failed r t \<and> counts_same K cnt u t) u" for u
  proof (rule wp_conj)
    show "wp {} (onWorld (write_items K items)) failed u"
      unfolding wp_onWorld
      by (rule wp_weaken [OF write_items_reject [OF assms(2,3)]]) (simp add: failed_def)
    then have "exits {} (onWorld (write_items K items))"
      by (auto simp: exits_def wp_onWorld intro: exitsD [OF exits_write_items])
    then show "wp {} (onWorld (write_items K items)) (\<lambda>r t. counts_same K cnt u t) u"
      by (rule wp_exits) (rule wp_guar, rule quiet_onWorld, rule heap.h_write_items)
  qed
  have array: "wp {} (onWorld (\<lambda>w. case sdk_array_new K n w of (ok, w') \<Rightarrow> (Ret ok, w')))
      (\<lambda>_ t. counts_same K cnt u t) u" for n u
    using wp_guar [OF quiet_array] by (rule wp_exits [rotated])
      (unfold exits_def wp_onWorld, auto simp: wp_def split: prod.splits)
  have step: "wp {} (bindE (onWorld (write_items K items)) (\<lambda>r. case r of
      Success nodes \<Rightarrow> k nodes | Error e \<Rightarrow> ret (Error e))) (\<lambda>r t. failed r t \<and> counts_same K cnt u t) u"
    for k :: "write_value list \<Rightarrow> ('a impl, (write_result list, rich_error) result) cpp" and u
    unfolding wp_bind by (rule wp_weaken [OF items]) (auto simp: failed_def wp_ret)
  have call: "wp {} (write_request_and_call K items) (\<lambda>r t. failed r t \<and> counts_same K cnt u t) u" for u
    unfolding write_request_and_call_def wp_bind [of _ "onWorld (\<lambda>w. _ w)"]
  proof (rule wp_weaken [OF array], goal_cases)
    case (1 ok t)
    then show ?case
      by (cases ok) (auto simp: wp_ret counts_same_def intro!: wp_weaken [OF step])
  qed
  have "wp {} (impl_batchWrite K items) (\<lambda>r t. failed r t \<and> counts_same K cnt s t) s"
    using wp_weaken [OF call [of "task_begin s"], of "\<lambda>r t. failed r t \<and> counts_same K cnt s t"]
    by (auto simp: impl_batchWrite_def gateE_def in_flight_def wp_simps counts_same_def failed_def
        split: option.split intro!: wp_weaken [OF call])
  then show ?thesis
    using assms(1) by (auto simp: wp_def failed_def counts_same_def split: prod.splits outcome.splits)
qed

section \<open>What a read returns\<close>

text \<open>
  A server's response as the SDK hands it over: an array that is there has the
  advertised length and its variants are well formed.  A null array may come with any
  advertised size.
\<close>

definition reads_documented :: "'w sdk \<Rightarrow> bool" where
  "reads_documented K \<longleftrightarrow> scalar_documented K \<and>
     (\<forall>c q w resp items. fst (sdk_serviceRead K c q w) = Inr resp \<longrightarrow> rs_results resp = Some items \<longrightarrow>
        length items = rs_resultsSize resp \<and> (\<forall>i \<in> set items. variant_wf (dv_value i)))"

definition writes_documented :: "'w sdk \<Rightarrow> bool" where
  "writes_documented K \<longleftrightarrow>
     (\<forall>c q w resp sts. fst (sdk_serviceWrite K c q w) = Inr resp \<longrightarrow> rs_results resp = Some sts \<longrightarrow>
        length sts = rs_resultsSize resp)"

definition value_ua_type :: "value_type \<Rightarrow> ua_type" where
  "value_ua_type v = (case value_cell v of Some c \<Rightarrow> cell_type c | None \<Rightarrow> UA_STRING)"

text \<open>
  One result as the caller may rely on it: a value comes exactly with error code OK,
  only for a good status, and has the alternative of the requested type; without a
  value the code says why.
\<close>

definition read_result_ok :: "'w sdk \<Rightarrow> s7_type \<Rightarrow> read_result \<Rightarrow> bool" where
  "read_result_ok K t r \<longleftrightarrow> (case rr_value r of
       Some v \<Rightarrow> rr_errorCode r = EC_OK \<and> sdk_isGood K (rr_rawStatus r) \<and>
         S7TypeToUATraits t = Some (value_ua_type v)
     | None \<Rightarrow> rr_errorCode r \<in> {EC_SDK_ERROR, EC_TYPE_MISMATCH, EC_TYPE_NOTSUPPORT} \<and>
         (rr_errorCode r = EC_SDK_ERROR) = (\<not> sdk_isGood K (rr_rawStatus r)))"

lemma value_type_of_cell: "cell_value c = Some v \<Longrightarrow> value_ua_type v = cell_type c"
  by (cases c) (auto simp: value_ua_type_def)

lemma read_spec_ok:
  assumes "read_spec K t var None = (r, v)" and "variant_wf var"
  shows "case v of
     Some x \<Rightarrow> r = Success () \<and> S7TypeToUATraits t = Some (value_ua_type x)
   | None \<Rightarrow> \<exists>e. r = Error e \<and> err_code e \<in> {EC_TYPE_MISMATCH, EC_TYPE_NOTSUPPORT}"
proof (cases "S7TypeToUATraits t")
  case None
  with assms(1) show ?thesis by (auto simp: read_spec_def)
next
  case (Some ty)
  show ?thesis
  proof (cases "v_data var")
    case (D_Cell c)
    show ?thesis
    proof (cases "v_type var \<noteq> Some ty \<or> v_arrayLength var \<noteq> 0")
      case True
      with assms(1) Some D_Cell show ?thesis by (auto simp: read_spec_def)
    next
      case False
      with assms(2) D_Cell have ty: "ty = cell_type c" by (simp add: variant_wf_def)
      have "ty \<noteq> UA_OTHER n" for n using Some traits_not_other by metis
      with False assms(1) Some D_Cell ty show ?thesis
        by (cases c) (auto simp: read_spec_def value_ua_type_def split: option.splits)
    qed
  qed (use assms(1) Some in \<open>auto simp: read_spec_def\<close>)
qed

lemma read_one_ok:
  assumes "scalar_documented K" and "variant_wf (dv_value i)"
  shows "\<exists>r. read_one K t i = Ret r \<and> rr_rawStatus r = dv_status i \<and> read_result_ok K t r"
proof (cases "sdk_isGood K (dv_status i)")
  case True
  obtain r v where rv: "read_spec K t (dv_value i) None = (r, v)" by (cases "read_spec K t (dv_value i) None")
  with read_dispatch_spec [OF assms, of t None]
  have "read_one K t i = Ret \<lparr>rr_rawStatus = dv_status i,
      rr_errorCode = (case r of Error e \<Rightarrow> err_code e | Success _ \<Rightarrow> EC_OK), rr_value = v\<rparr>"
    using True by (simp add: read_one_def)
  with read_spec_ok [OF rv assms(2)] True show ?thesis
    by (cases v) (auto simp: read_result_ok_def)
qed (simp add: read_one_def read_result_ok_def)

lemma read_results_ok:
  assumes "scalar_documented K" and "\<forall>i \<in> set items. variant_wf (dv_value i)"
    and "length items = length nodes"
  shows "\<exists>rs. read_results K nodes items = Ret rs \<and> list_all2 (\<lambda>n r. read_result_ok K (nd_dataType n) r) nodes rs \<and>
    map rr_rawStatus rs = map dv_status items"
  using assms(2,3)
proof (induction nodes arbitrary: items)
  case (Cons n nodes)
  then obtain i rest where items: "items = i # rest" by (cases items) auto
  with Cons obtain rs where rs: "read_results K nodes rest = Ret rs"
    "list_all2 (\<lambda>n r. read_result_ok K (nd_dataType n) r) nodes rs" "map rr_rawStatus rs = map dv_status rest"
    by fastforce
  have "variant_wf (dv_value i)" using Cons.prems items by simp
  from read_one_ok [OF assms(1) this, of "nd_dataType n"] rs show ?case
    by (auto simp: items)
qed simp

text \<open>
  The reading of one server item that the caller relies on: the specification of the value, the
  code of its rejection, and the status as it came.
\<close>

definition reading :: "'w sdk \<Rightarrow> s7_type \<Rightarrow> data_value \<Rightarrow> read_result" where
  "reading K t i = (if sdk_isGood K (dv_status i)
     then (case read_spec K t (dv_value i) None of (r, v) \<Rightarrow> \<lparr>rr_rawStatus = dv_status i,
       rr_errorCode = (case r of Error e \<Rightarrow> err_code e | Success _ \<Rightarrow> EC_OK), rr_value = v\<rparr>)
     else \<lparr>rr_rawStatus = dv_status i, rr_errorCode = EC_SDK_ERROR, rr_value = None\<rparr>)"

lemma read_results_reading:
  assumes "scalar_documented K" and "\<forall>i \<in> set items. variant_wf (dv_value i)"
    and "length items = length nodes"
  shows "read_results K nodes items = Ret (map2 (\<lambda>n i. reading K (nd_dataType n) i) nodes items)"
  using assms(2,3)
proof (induction nodes arbitrary: items)
  case (Cons n nodes)
  then obtain i rest where items: "items = i # rest" by (cases items) auto
  with Cons have "read_results K nodes rest = Ret (map2 (\<lambda>n i. reading K (nd_dataType n) i) nodes rest)" by simp
  moreover have "read_one K (nd_dataType n) i = Ret (reading K (nd_dataType n) i)"
    using Cons.prems(1) items read_dispatch_spec [OF assms(1), of "dv_value i"]
    by (auto simp: read_one_def reading_def split: prod.split)
  ultimately show ?case by (simp add: items)
qed simp

text \<open>
  The node id of a request that stands for a node: numeric, or an allocated string that is
  neither empty nor cut by an embedded NUL.
\<close>

definition node_named :: "'w sdk \<Rightarrow> node_id \<Rightarrow> ua_nodeid \<Rightarrow> bool" where
  "node_named K n nid \<longleftrightarrow> (case nd_id n of
       K_numeric k \<Rightarrow> nid = sdk_nodeid_numeric K (nd_ns n) k
     | K_string str \<Rightarrow> str \<noteq> [] \<and> \<not> containsEmbeddedNul str \<and>
         (\<exists>w. nid = fst (sdk_nodeid_string_alloc K (nd_ns n) str w)))"

definition asks :: "'w sdk \<Rightarrow> node_id list \<Rightarrow> read_request \<Rightarrow> bool" where
  "asks K nodes q \<longleftrightarrow> rq_nodesToReadSize q = length nodes \<and>
     list_all2 (\<lambda>n rv. node_named K n (rv_nodeId rv) \<and> rv_attributeId rv = ATTR_VALUE) nodes (rq_nodesToRead q)"

text \<open>The results are the readings of the items of one good response to a request.\<close>

definition answered_read :: "'w sdk \<Rightarrow> node_id list \<Rightarrow> read_request \<Rightarrow> read_result list \<Rightarrow> bool" where
  "answered_read K nodes q rs \<longleftrightarrow> (\<exists>c w resp items. fst (sdk_serviceRead K c q w) = Inr resp \<and>
     sdk_isGood K (rs_serviceResult resp) \<and> rs_results resp = Some items \<and> length items = length nodes \<and>
     rs = map2 (\<lambda>n i. reading K (nd_dataType n) i) nodes items)"

lemma wp_nodeid: "wp {} (uaNodeIDAlloc K n out) (\<lambda>(r, nid) _. is_success r \<longrightarrow> node_named K n nid) w"
  by (auto simp: uaNodeIDAlloc_def node_named_def wp_def split: node_key.splits prod.splits) (metis fst_conv)+

lemma wp_read_items:
  "wp {} (read_items K nodes) (\<lambda>r _. \<forall>items. r = Success items \<longrightarrow>
     list_all2 (\<lambda>n rv. node_named K n (rv_nodeId rv) \<and> rv_attributeId rv = ATTR_VALUE) nodes items) w"
proof (induction nodes arbitrary: w)
  case (Cons n nodes)
  have rest: "wp {} (bindE (read_items K nodes) (\<lambda>rest. case rest of Error e \<Rightarrow> ret (Error e)
      | Success items \<Rightarrow> ret (Success (\<lparr>rv_nodeId = nid, rv_attributeId = ATTR_VALUE\<rparr> # items))))
    (\<lambda>r _. \<forall>items. r = Success items \<longrightarrow>
      list_all2 (\<lambda>n rv. node_named K n (rv_nodeId rv) \<and> rv_attributeId rv = ATTR_VALUE) (n # nodes) items) v"
    if "node_named K n nid" for nid v
    unfolding wp_bind by (rule wp_weaken [OF Cons.IH]) (use that in \<open>auto simp: wp_ret split: result.split\<close>)
  show ?case
    unfolding read_items.simps wp_bind [of _ "uaNodeIDAlloc _ _ _"]
    by (rule wp_weaken [OF wp_nodeid]) (auto simp: wp_ret intro: rest split: result.split)
qed (simp add: wp_ret)

abbreviation "no_fault \<equiv> - {Faulted}"
abbreviation "no_diverge \<equiv> - {Diverged}"

definition read_post :: "'w sdk \<Rightarrow> node_id list \<Rightarrow> (read_result list, rich_error) result \<Rightarrow> 's \<Rightarrow> bool" where
  "read_post K nodes r t = (case r of
       Success rs \<Rightarrow> list_all2 (\<lambda>n r. read_result_ok K (nd_dataType n) r) nodes rs \<and>
         (\<exists>q. asks K nodes q \<and> answered_read K nodes q rs)
     | Error _ \<Rightarrow> True)"

lemma read_post_simps [simp]: "read_post K nodes (Error e) t"
  by (simp add: read_post_def)

lemma read_post_answer:
  assumes "scalar_documented K" and "asks K nodes q" and "fst (sdk_serviceRead K c q w) = Inr resp"
    and "sdk_isGood K (rs_serviceResult resp)" and "rs_results resp = Some items"
    and "length items = length nodes" and "\<forall>i \<in> set items. variant_wf (dv_value i)"
  shows "\<exists>rs. read_results K nodes items = Ret rs \<and> read_post K nodes (Success rs) t"
proof -
  from read_results_reading [OF assms(1,7,6)] read_results_ok [OF assms(1,7,6)] assms
  show ?thesis unfolding read_post_def answered_read_def by fastforce
qed

lemma exits_delayFunction:
  assumes "range Threw \<subseteq> A"
  shows "exits A (delayFunction K n)"
proof -
  have seg: "exits A (wait_unless_stopped K n)" for n
    unfolding wait_unless_stopped_def by (intro exits_intros exits_sdkCall assms)
  have "exits A (delay_loop K b e)" for b e
  proof (induction "unat b - unat e" arbitrary: e rule: less_induct)
    case less
    show ?case
      by (subst delay_loop.simps, unfold Let_def) (intro exits_intros seg less segment_progress)
  qed
  then show ?thesis unfolding delayFunction_def Let_def by (intro exits_intros)
qed

lemma exits_delay_fault: "exits no_fault (delayFunction K n)"
  by (rule exits_delayFunction) auto

lemma wp_read_outcome:
  assumes "scalar_documented K" and "asks K nodes q" and "fst (sdk_serviceRead K c q w) = Inr resp"
    and "\<And>items. rs_results resp = Some items \<Longrightarrow>
      length items = rs_resultsSize resp \<and> (\<forall>i \<in> set items. variant_wf (dv_value i))"
  shows "wp no_fault (read_outcome K nodes retry resp)
    (\<lambda>r t. case r of None \<Rightarrow> True | Some res \<Rightarrow> read_post K nodes res t) s"
proof (cases "rs_results resp")
  case None
  then show ?thesis
    by (auto simp: read_outcome_def wp_simps intro!: exitsD [OF exits_delay_fault, THEN wp_weaken])
next
  case (Some items)
  show ?thesis
  proof (cases "rs_resultsSize resp = length nodes")
    case True
    with Some assms(4) have "length items = length nodes" "\<forall>i \<in> set items. variant_wf (dv_value i)" by auto
    from read_post_answer [OF assms(1-3) _ Some this]
    have "sdk_isGood K (rs_serviceResult resp) \<Longrightarrow>
        \<exists>rs. read_results K nodes items = Ret rs \<and> read_post K nodes (Success rs) t" for t .
    then show ?thesis
      using Some by (fastforce simp: read_outcome_def wp_simps outcomeE_def wp_def [of _ "Pair _"]
          intro!: exitsD [OF exits_delay_fault, THEN wp_weaken])
  next
    case False
    then show ?thesis
      by (auto simp: read_outcome_def wp_simps intro!: exitsD [OF exits_delay_fault, THEN wp_weaken])
  qed
qed

lemma wp_gate_post:
  "(g s = None \<Longrightarrow> wp A k Q s) \<Longrightarrow> (\<And>e. Q (Error e) s) \<Longrightarrow> wp A (gateE g k) Q s"
  by (simp add: gateE_def wp_simps split: option.split)

lemma wp_forget: "exits A m \<Longrightarrow> (\<And>x t. wp A (f x) Q t) \<Longrightarrow> wp A (bindE m f) Q s"
  unfolding wp_bind by (rule wp_weaken [OF exitsD])

lemma exits_clock_fault: "exits no_fault (nowMsImpl K)"
  unfolding nowMsImpl_def by (intro exits_sdkCall) auto

text \<open>Neither batch loops: the retries are counted.\<close>

lemma read_results_ends: "read_results K ns items \<noteq> Diverge"
  by (induction ns arbitrary: items) (auto split: list.split outcome.split)

lemma exits_gate: "exits A k \<Longrightarrow> exits A (gateE g k)"
  unfolding gateE_def by (intro exits_intros)

lemma exits_outcomeE: "r \<noteq> Diverge \<Longrightarrow> (\<And>e. r \<noteq> Throw e) \<Longrightarrow> exits no_diverge (outcomeE r)"
  by (cases r) (auto simp: exits_def wp_def outcomeE_def)

lemma exits_onWorld: "exits A m \<Longrightarrow> exits A (onWorld m)"
  by (simp add: exits_def wp_onWorld)

lemma exits_array: "exits A (onWorld (\<lambda>w. case sdk_array_new K n w of (ok, w') \<Rightarrow> (Ret ok, w')))"
  by (rule exits_onWorld) (auto simp: exits_def wp_def split: prod.split)

lemma read_results_no_throw: "read_results K ns items \<noteq> Throw e"
  by (induction ns arbitrary: items) (auto split: list.split outcome.split)

lemma exits_read_outcome: "exits no_diverge (read_outcome K nodes retry resp)"
  unfolding read_outcome_def
  by (intro exits_intros exits_outcomeE exits_delayFunction)
    (auto simp: read_results_ends read_results_no_throw split: option.split)

lemma exits_read_loop: "exits no_diverge (read_loop K nodes q c st a r)"
proof (induction "unat a - unat r" arbitrary: r rule: less_induct)
  case less
  then show ?case
    by (subst read_loop.simps, unfold read_attempt_def response_scope_id nowMsImpl_def)
      (intro exits_intros exits_gate exits_sdkCall exits_read_outcome less next_progress, auto)
qed

lemma batchRead_ends: "exits no_diverge (impl_batchRead K nodes)"
  unfolding impl_batchRead_def read_request_and_loop_def nowMsImpl_def
  by (intro exits_in_flight exits_gate exits_intros exits_array exits_onWorld exits_mono [OF exits_read_items]
      exits_result exits_read_loop exits_sdkCall exits_fault) auto

lemma wp_read_attempt:
  assumes "reads_documented K" and "asks K nodes q" and "\<And>t. wp no_fault again (read_post K nodes) t"
  shows "wp no_fault (read_attempt K nodes q c st retry again) (read_post K nodes) s"
proof -
  have service: "wp no_fault (sdkCall (sdk_serviceRead K c q)) (\<lambda>resp _. (\<exists>w. fst (sdk_serviceRead K c q w) = Inr resp) \<and>
      (\<forall>items. rs_results resp = Some items \<longrightarrow>
        length items = rs_resultsSize resp \<and> (\<forall>i \<in> set items. variant_wf (dv_value i)))) t" for t
    using assms(1) unfolding wp_sdkCall reads_documented_def
    by (auto split: prod.splits sum.splits) (metis fst_conv)+
  have "wp no_fault (bindE (sdkCall (sdk_serviceRead K c q)) (\<lambda>resp.
      bindE (read_outcome K nodes retry resp) (\<lambda>r. case r of Some res \<Rightarrow> ret res | None \<Rightarrow> again))) (read_post K nodes) t" for t
    unfolding wp_bind [of _ "sdkCall _"] wp_bind [of _ "read_outcome K nodes retry _"]
    by (rule wp_weaken [OF service], erule conjE, erule exE, rule wp_weaken [OF wp_read_outcome [OF _ assms(2)]])
      (use assms in \<open>auto simp: reads_documented_def wp_ret split: option.splits\<close>)
  then show ?thesis
    unfolding read_attempt_def response_scope_id
    by (intro wp_gate_post wp_forget [OF exits_clock_fault] read_post_simps(1))
qed

lemma wp_read_loop:
  assumes "reads_documented K" and "asks K nodes q"
  shows "wp no_fault (read_loop K nodes q c st a r) (read_post K nodes) s"
proof (induction "unat a - unat r" arbitrary: r s rule: less_induct)
  case less
  show ?case
    by (subst read_loop.simps)
      (auto simp: wp_if wp_ret intro!: wp_read_attempt [OF assms] less next_progress)
qed

lemma wp_impl_batchRead:
  assumes "reads_documented K"
  shows "wp (range Threw) (impl_batchRead K nodes) (read_post K nodes) s"
proof -
  have request: "wp no_fault (read_request_and_loop K nodes) (read_post K nodes) t" for t
  proof -
    have 1: "exits no_fault (onWorld (\<lambda>w. case sdk_array_new K (length nodes) w of (ok, w') \<Rightarrow> (Ret ok, w')))"
      by (unfold exits_def wp_onWorld) (auto simp: wp_def split: prod.splits)
    have 2: "wp no_fault (onWorld (read_items K nodes)) (\<lambda>r _. \<forall>items. r = Success items \<longrightarrow>
        list_all2 (\<lambda>n rv. node_named K n (rv_nodeId rv) \<and> rv_attributeId rv = ATTR_VALUE) nodes items) u" for u
      unfolding wp_onWorld by (rule wp_mono [OF wp_read_items]) simp_all
    have 3: "wp no_fault (gateE (client_gate m1 m2)
         (bindE (readE (\<lambda>s. (m_impl s, maxRetries (m_config s)))) (\<lambda>(i, maxr).
          case i of None \<Rightarrow> faultE
          | Some client \<Rightarrow> bindE (nowMsImpl K) (\<lambda>startTime.
              read_loop K nodes (q client) client startTime (maxr + 1) 0)))) (read_post K nodes) u"
      if "\<And>c. asks K nodes (q c)" for m1 m2 q u
      by (rule wp_gate_post)
        (auto simp: client_gate_def wp_bind [of _ "readE _"] wp_read split: if_splits
          intro!: wp_forget [OF exits_clock_fault] wp_read_loop [OF assms that])
    show ?thesis
      unfolding read_request_and_loop_def
      by (rule wp_forget [OF 1])
        (auto simp: wp_if wp_ret asks_def wp_bind [of _ "onWorld _"] intro!: wp_weaken [OF 2] 3 [where q = "\<lambda>c. _"] split: result.split)
  qed
  have "wp no_fault (impl_batchRead K nodes) (read_post K nodes) s"
    unfolding impl_batchRead_def in_flight_def
    by (intro wp_gate_post read_post_simps(1))
      (auto simp: wp_simps read_post_def intro!: wp_gate_post request [unfolded read_post_def])
  from wp_meet_exits [OF this batchRead_ends] show ?thesis by (simp only: only_throws)
qed

text \<open>
  C8: a successful \<open>batchRead\<close> returns, in order, the documented reading of what the server
  answered: there was one read service whose request names exactly the nodes, with one good
  response, and result \<open>i\<close> is the value of its item \<open>i\<close> under the type of node \<open>i\<close>, or the code
  that says why there is none.  Each result is meaningful by itself (a value exactly with code
  OK, a good status and the requested type), and no response, malformed null arrays included,
  makes the call dereference a null pointer or read outside an array.
\<close>

theorem batchRead_results:
  assumes "reads_documented K"
  shows "wp (range Threw) (impl_batchRead K nodes)
    (\<lambda>r t. case r of
       Success rs \<Rightarrow> list_all2 (\<lambda>n r. read_result_ok K (nd_dataType n) r) nodes rs \<and>
         (\<exists>q. asks K nodes q \<and> answered_read K nodes q rs)
     | Error _ \<Rightarrow> True) s"
  using wp_impl_batchRead [OF assms] by (rule wp_weaken) (simp add: read_post_def)

section \<open>What a write returns\<close>

definition write_result_ok :: "'w sdk \<Rightarrow> write_result \<Rightarrow> bool" where
  "write_result_ok K r \<longleftrightarrow>
     (wr_status r = Good) = sdk_isGood K (wr_rawStatus r) \<and>
     wr_errorCode r = (if wr_status r = Good then EC_OK else EC_SDK_ERROR)"

text \<open>
  An item of the request is what the conversion made of the caller's item, under its node id;
  \<open>carries\<close> says what that means: it reads back as the caller's value.
\<close>

definition carried :: "'w sdk \<Rightarrow> write_item \<Rightarrow> write_value \<Rightarrow> bool" where
  "carried K i n \<longleftrightarrow> (\<exists>nid w w'. node_named K (wi_node i) nid \<and>
     write_dispatch K (nd_dataType (wi_node i)) (init_write_value\<lparr>wv_nodeId := nid, wv_attributeId := ATTR_VALUE\<rparr>)
       (wi_value i) w = (Ret (Success (), n), w'))"

definition carries :: "'w sdk \<Rightarrow> write_item \<Rightarrow> write_value \<Rightarrow> bool" where
  "carries K i n \<longleftrightarrow> node_named K (wi_node i) (wv_nodeId n) \<and> wv_attributeId n = ATTR_VALUE \<and> wv_hasValue n \<and>
     (\<forall>old. read_dispatch K (nd_dataType (wi_node i)) (wv_value n) old = Ret (Success (), Some (wi_value i)))"

lemma carried_carries:
  assumes "copy_documented K" and "scalar_documented K" and "strings_documented K" and "carried K i n"
  shows "carries K i n"
proof -
  from assms(4) obtain nid w w' where nid: "node_named K (wi_node i) nid"
    and run: "write_dispatch K (nd_dataType (wi_node i)) (init_write_value\<lparr>wv_nodeId := nid, wv_attributeId := ATTR_VALUE\<rparr>)
      (wi_value i) w = (Ret (Success (), n), w')" by (auto simp: carried_def)
  from run have "wv_nodeId n = nid \<and> wv_attributeId n = ATTR_VALUE"
    by (rule write_dispatch_success) (drule copy_into_success [OF assms(1)], simp)
  with nid write_reads_back [OF assms(1-3) run] show ?thesis by (simp add: carries_def)
qed

definition orders :: "('i \<Rightarrow> write_value \<Rightarrow> bool) \<Rightarrow> 'i list \<Rightarrow> write_request \<Rightarrow> bool" where
  "orders P items q \<longleftrightarrow> wq_nodesToWriteSize q = length items \<and> list_all2 P items (wq_nodesToWrite q)"

lemma orders_mono: "orders P items q \<Longrightarrow> (\<And>i n. P i n \<Longrightarrow> R i n) \<Longrightarrow> orders R items q"
  by (auto simp: orders_def elim: list_all2_mono)

text \<open>The verdicts are those of one good response to the request, item by item.\<close>

definition answered_write :: "'w sdk \<Rightarrow> write_request \<Rightarrow> write_result list \<Rightarrow> bool" where
  "answered_write K q rs \<longleftrightarrow> (\<exists>c w resp sts. fst (sdk_serviceWrite K c q w) = Inr resp \<and>
     sdk_isGood K (rs_serviceResult resp) \<and> rs_results resp = Some sts \<and>
     length sts = wq_nodesToWriteSize q \<and> rs = map (write_one K) sts)"

lemma wp_write_items:
  "wp {} (write_items K items) (\<lambda>r _. \<forall>ns. r = Success ns \<longrightarrow> list_all2 (carried K) items ns) w"
proof (induction items arbitrary: w)
  case (Cons i items)
  have rest: "wp {} (bindE (write_items K items) (\<lambda>rest. case rest of Error e \<Rightarrow> ret (Error e)
      | Success nodes \<Rightarrow> ret (Success (node # nodes))))
    (\<lambda>r _. \<forall>ns. r = Success ns \<longrightarrow> list_all2 (carried K) (i # items) ns) v"
    if "carried K i node" for node v
    unfolding wp_bind by (rule wp_weaken [OF Cons.IH]) (use that in \<open>auto simp: wp_ret split: result.split\<close>)
  have dispatch: "wp {} (write_dispatch K (nd_dataType (wi_node i))
      (init_write_value\<lparr>wv_nodeId := nid, wv_attributeId := ATTR_VALUE\<rparr>) (wi_value i))
    (\<lambda>(r, node) _. is_success r \<longrightarrow> carried K i node) v" if "node_named K (wi_node i) nid" for nid v
  proof -
    let ?run = "write_dispatch K (nd_dataType (wi_node i))
      (init_write_value\<lparr>wv_nodeId := nid, wv_attributeId := ATTR_VALUE\<rparr>) (wi_value i)"
    have "wp {} ?run (\<lambda>_ _. True) v" by (rule exitsD [OF exits_dispatch])
    then obtain r n v' where run: "?run v = (Ret (r, n), v')"
      by (auto simp: wp_def split: prod.splits outcome.splits)
    have "carried K i n" if "r = Success ()"
      unfolding carried_def using run that \<open>node_named K (wi_node i) nid\<close> by blast
    with run show ?thesis by (cases r) (auto simp: wp_def)
  qed
  show ?case
    unfolding write_items.simps wp_bind [of _ "uaNodeIDAlloc _ _ _"]
    by (rule wp_weaken [OF wp_nodeid])
      (auto simp: wp_ret wp_bind [of _ "write_dispatch _ _ _ _"] intro!: rest wp_weaken [OF dispatch] split: result.split)
qed (simp add: wp_ret)

definition write_post :: "'w sdk \<Rightarrow> write_item list \<Rightarrow> (write_result list, rich_error) result \<Rightarrow> 's \<Rightarrow> bool" where
  "write_post K items r t = (case r of
       Success rs \<Rightarrow> length rs = length items \<and> list_all (write_result_ok K) rs \<and>
         (\<exists>q. orders (carried K) items q \<and> answered_write K q rs)
     | Error _ \<Rightarrow> True)"

lemma write_post_simps [simp]: "write_post K items (Error e) t"
  by (simp add: write_post_def)

lemma write_one_ok: "write_result_ok K (write_one K st)"
  by (simp add: write_result_ok_def write_one_def)

lemma wp_write_outcome:
  assumes "orders (carried K) items q" and "fst (sdk_serviceWrite K c q w) = Inr resp"
    and "\<And>sts. rs_results resp = Some sts \<Longrightarrow> length sts = rs_resultsSize resp"
  shows "wp no_fault (write_outcome K items resp) (write_post K items) s"
proof -
  have "answered_write K q (map (write_one K) sts)"
    if "rs_results resp = Some sts" "sdk_isGood K (rs_serviceResult resp)" "rs_resultsSize resp = length items" for sts
    using that assms unfolding answered_write_def orders_def by fastforce
  with assms show ?thesis
    by (auto simp: write_outcome_def wp_simps outcomeE_def wp_def [of _ "Pair _"] write_post_def
        write_one_ok list_all_iff split: option.splits)
qed

lemma wp_service_write:
  assumes "writes_documented K" and "orders (carried K) items q"
  shows "wp no_fault (bindE (sdkCall (sdk_serviceWrite K c q)) (\<lambda>resp. write_outcome K items resp))
    (write_post K items) s"
proof -
  have "wp no_fault (sdkCall (sdk_serviceWrite K c q)) (\<lambda>resp _. (\<exists>w. fst (sdk_serviceWrite K c q w) = Inr resp) \<and>
      (\<forall>sts. rs_results resp = Some sts \<longrightarrow> length sts = rs_resultsSize resp)) s"
    using assms(1) unfolding wp_sdkCall writes_documented_def
    by (auto split: prod.splits sum.splits) (metis fst_conv)+
  then show ?thesis
    unfolding wp_bind by (rule wp_weaken) (auto intro: wp_write_outcome [OF assms(2)])
qed

lemma exits_write_outcome: "exits no_diverge (write_outcome K items resp)"
  unfolding write_outcome_def
  by (intro exits_intros exits_outcomeE) (auto split: option.split)

lemma batchWrite_ends: "exits no_diverge (impl_batchWrite K items)"
  unfolding impl_batchWrite_def write_request_and_call_def response_scope_id
  by (intro exits_in_flight exits_gate exits_intros exits_array exits_onWorld exits_mono [OF exits_write_items]
      exits_result exits_write_outcome exits_sdkCall exits_fault) auto

lemma wp_impl_batchWrite:
  assumes "writes_documented K"
  shows "wp (range Threw) (impl_batchWrite K items) (write_post K items) s"
proof -
  have request: "wp no_fault (write_request_and_call K items) (write_post K items) t" for t
  proof -
    have 1: "exits no_fault (onWorld (\<lambda>w. case sdk_array_new K (length items) w of (ok, w') \<Rightarrow> (Ret ok, w')))"
      by (unfold exits_def wp_onWorld) (auto simp: wp_def split: prod.splits)
    have 2: "wp no_fault (onWorld (write_items K items))
        (\<lambda>r _. \<forall>ns. r = Success ns \<longrightarrow> list_all2 (carried K) items ns) u" for u
      unfolding wp_onWorld by (rule wp_mono [OF wp_write_items]) simp_all
    have 3: "wp no_fault (gateE (client_gate m1 m2)
         (bindE (readE m_impl) (\<lambda>i. case i of None \<Rightarrow> faultE
          | Some client \<Rightarrow> gateE g1 (gateE g2 (bindE (sdkCall (sdk_serviceWrite K client q)) (\<lambda>resp.
              write_outcome K items resp)))))) (write_post K items) u"
      if "orders (carried K) items q" for m1 m2 g1 g2 q u
      by (rule wp_gate_post)
        (auto simp: client_gate_def wp_bind [of _ "readE _"] wp_read split: if_splits
          intro!: wp_gate_post wp_service_write [OF assms that])
    show ?thesis
      unfolding write_request_and_call_def response_scope_id
      by (rule wp_forget [OF 1])
        (auto simp: wp_if wp_ret wp_bind [of _ "onWorld _"] orders_def
          intro!: wp_weaken [OF 2] 3 split: result.split)
  qed
  have "wp no_fault (impl_batchWrite K items) (write_post K items) s"
    unfolding impl_batchWrite_def in_flight_def
    by (intro wp_gate_post write_post_simps(1))
      (auto simp: wp_simps write_post_def intro!: wp_gate_post request [unfolded write_post_def])
  from wp_meet_exits [OF this batchWrite_ends] show ?thesis by (simp only: only_throws)
qed

text \<open>
  C23: a successful \<open>batchWrite\<close> returns the verdicts of one good response, in order, to one
  write service whose item \<open>i\<close> names node \<open>i\<close> and carries value \<open>i\<close>: read under the node's
  type it is exactly the caller's value.  A verdict is Good with code OK exactly for a good
  status.  Every other service outcome is one error for the whole batch, never a partial
  result, and no response makes the call dereference a null pointer or read outside an array.
\<close>

theorem batchWrite_results:
  assumes "writes_documented K" and "copy_documented K" and "scalar_documented K" and "strings_documented K"
  shows "wp (range Threw) (impl_batchWrite K items)
    (\<lambda>r t. case r of
       Success rs \<Rightarrow> length rs = length items \<and> list_all (write_result_ok K) rs \<and>
         (\<exists>q. orders (carries K) items q \<and> answered_write K q rs)
     | Error _ \<Rightarrow> True) s"
  using wp_impl_batchWrite [OF assms(1)]
  by (rule wp_weaken) (auto simp: write_post_def intro: orders_mono carried_carries [OF assms(2-4)] split: result.splits)

section \<open>When the retries are exhausted\<close>

definition exhausted :: "('a, rich_error) result \<Rightarrow> bool" where
  "exhausted r \<longleftrightarrow> (case r of Error e \<Rightarrow> err_code e = EC_SERVICE_RETRY_EXHAUSTED | Success _ \<Rightarrow> False)"

lemma exhausted_simps [simp]:
  "exhausted (Error e) \<longleftrightarrow> err_code e = EC_SERVICE_RETRY_EXHAUSTED" "\<not> exhausted (Success v)"
  by (simp_all add: exhausted_def)

text \<open>If the retries are reported exhausted, the counter is at \<open>n\<close>.\<close>

definition exhausted_at :: "('w \<Rightarrow> nat) \<Rightarrow> nat \<Rightarrow> ('a, rich_error) result \<Rightarrow> 'w impl \<Rightarrow> bool" where
  "exhausted_at cnt n r t \<longleftrightarrow> (exhausted r \<longrightarrow> cnt (world t) = n)"

lemma exhausted_at_simps [simp]:
  "err_code e \<noteq> EC_SERVICE_RETRY_EXHAUSTED \<Longrightarrow> exhausted_at cnt n (Error e) t"
  "exhausted_at cnt n (Success v) t"
  by (simp_all add: exhausted_at_def)

lemma wp_exh_gate:
  assumes "\<And>e. g s = Some e \<Longrightarrow> err_code e \<noteq> EC_SERVICE_RETRY_EXHAUSTED"
    and "wp A k (exhausted_at cnt n) s"
  shows "wp A (gateE g k) (exhausted_at cnt n) s"
  using assms by (simp add: gateE_def wp_simps split: option.split)

lemma wp_exh_quiet:
  assumes "service_counter K cnt" and "guar (counts_same K cnt) m" and "guar keeps_identity m"
    and "\<And>x t. cnt (world t) = cnt (world s) \<Longrightarrow> m_config t = m_config s \<Longrightarrow> wp UNIV (f x) Q t"
  shows "wp UNIV (bindE m f) Q s"
  unfolding wp_bind
  by (rule wp_weaken [OF wp_conj [OF wp_guar [OF assms(2)] wp_guar [OF assms(3)]]])
    (use assms(1,4) in \<open>auto simp: counts_same_def keeps_identity_def\<close>)

lemma gates_not_exhausted:
  "stop_gate m s = Some e \<Longrightarrow> err_code e \<noteq> EC_SERVICE_RETRY_EXHAUSTED"
  "state_gate m1 m2 m3 s = Some e \<Longrightarrow> err_code e \<noteq> EC_SERVICE_RETRY_EXHAUSTED"
  "client_gate m1 m2 s = Some e \<Longrightarrow> err_code e \<noteq> EC_SERVICE_RETRY_EXHAUSTED"
  "empty_gate m xs s = Some e \<Longrightarrow> err_code e \<noteq> EC_SERVICE_RETRY_EXHAUSTED"
  "health_gate K m s = Some e \<Longrightarrow> err_code e \<noteq> EC_SERVICE_RETRY_EXHAUSTED"
  by (auto simp: stop_gate_def state_gate_def client_gate_def empty_gate_def health_gate_def split: if_splits)

lemma wp_outcome_exhausted:
  assumes cnt: "service_counter K cnt"
    and again: "\<And>t. retry \<noteq> maxRetries (m_config s) \<Longrightarrow> cnt (world t) = cnt (world s) \<Longrightarrow>
      m_config t = m_config s \<Longrightarrow> wp UNIV again (exhausted_at cnt n) t"
    and last: "retry = maxRetries (m_config s) \<Longrightarrow> cnt (world s) = n"
  shows "wp UNIV (bindE (read_outcome K nodes retry resp) (\<lambda>x. case x of
      Some res \<Rightarrow> ret res | None \<Rightarrow> again)) (exhausted_at cnt n) s"
proof -
  have delayed: "wp UNIV (delayFunction K retry) (\<lambda>_ t. wp UNIV again (exhausted_at cnt n) t) s"
    if "retry \<noteq> maxRetries (m_config s)"
    by (rule wp_weaken [OF wp_conj [OF wp_guar [OF quiet.g_delay [where cnt = cnt]] wp_guar [OF identity.g_delay]]])
      (use again [OF that] cnt in \<open>auto simp: counts_same_def keeps_identity_def\<close>)
  have ret_fun: "wp UNIV (ret x) Q = Q x" for x :: "'x" and Q :: "'x \<Rightarrow> 'a impl \<Rightarrow> bool"
    by (simp add: fun_eq_iff wp_ret)
  show ?thesis
    using delayed last by (simp add: read_outcome_def wp_simps ret_fun exhausted_at_def wp_any)
qed

lemma wp_service_read:
  assumes "service_counter K cnt"
  shows "wp UNIV (sdkCall (sdk_serviceRead K c q))
    (\<lambda>_ t. cnt (world t) = cnt (world s) + 1 \<and> m_config t = m_config s) s"
proof (rule wp_conj)
  have "cnt (snd (snd (sdk_serviceRead K c q (world s)))) = cnt (world s) + 1"
    using assms by (simp add: service_counter_def)
  then show "wp UNIV (sdkCall (sdk_serviceRead K c q)) (\<lambda>_ t. cnt (world t) = cnt (world s) + 1) s"
    by (auto simp: wp_sdkCall split: prod.splits sum.splits)
qed (rule wp_weaken [OF wp_guar [OF identity.g_sdkCall]], simp add: keeps_identity_def)

lemma wp_loop_exhausted:
  assumes cnt: "service_counter K cnt" and "a = maxRetries (m_config s) + 1"
    and "r < a \<Longrightarrow> n = cnt (world s) + (unat a - unat r)"
  shows "wp UNIV (read_loop K nodes q c st a r) (exhausted_at cnt n) s"
  using assms(2,3)
proof (induction "unat a - unat r" arbitrary: r s rule: less_induct)
  case less
  show ?case
  proof (cases "r < a")
    case True
    have again: "wp UNIV (read_loop K nodes q c st a (r + 1)) (exhausted_at cnt n) t"
      if "m_config t = m_config s" "cnt (world t) = cnt (world s) + 1" for t
    proof (rule less.hyps [OF next_progress [OF True]])
      show "a = maxRetries (m_config t) + 1" using that less.prems by simp
      have "unat r < unat a" "unat (r + 1) = Suc (unat r)"
        using True by (simp_all add: unat_next word_less_nat_alt)
      with less.prems(2) [OF True] show "n = cnt (world t) + (unat a - unat (r + 1))"
        unfolding that by linarith
    qed
    have one: "unat a - unat r = 1" if "r = maxRetries (m_config s)"
      using True that less.prems unat_next [of r a] by simp
    have service: "wp UNIV (bindE (sdkCall (sdk_serviceRead K c q)) (\<lambda>resp. bindE (read_outcome K nodes r resp) (\<lambda>x.
        case x of Some res \<Rightarrow> ret res | None \<Rightarrow> read_loop K nodes q c st a (r + 1)))) (exhausted_at cnt n) t"
      if "cnt (world t) = cnt (world s)" "m_config t = m_config s" for t
      unfolding wp_bind [of _ "sdkCall _"]
    proof (rule wp_weaken [OF wp_service_read [OF cnt]], goal_cases)
      case (1 resp u)
      with that show ?case
      proof (intro wp_outcome_exhausted [OF cnt] again, simp_all)
        assume "r = maxRetries (m_config s)"
        with one less.prems(2) [OF True] show "Suc (cnt (world s)) = n" by simp
      qed
    qed
    then have "wp UNIV (read_attempt K nodes q c st r (read_loop K nodes q c st a (r + 1))) (exhausted_at cnt n) s"
      unfolding read_attempt_def response_scope_id
      by (intro wp_exh_gate wp_exh_quiet [OF cnt quiet.g_nowMs identity.g_nowMs])
        (auto simp: gates_not_exhausted split: if_splits)
    then show ?thesis using True by (subst read_loop.simps) simp
  qed (subst read_loop.simps, simp add: wp_ret)
qed

text \<open>Error codes of request building never claim exhausted retries.\<close>

lemma wp_items_codes: "wp UNIV (read_items K ns) (\<lambda>r _. \<not> exhausted r) w"
proof (induction ns arbitrary: w)
  case (Cons n ns)
  have node: "wp UNIV (uaNodeIDAlloc K n empty_nodeid) (\<lambda>(r, _) _. \<not> exhausted r) w"
    by (auto simp: wp_def uaNodeIDAlloc_def split: node_key.splits prod.splits)
  have rest: "wp UNIV (bindE (read_items K ns) (\<lambda>rest. case rest of Error e \<Rightarrow> ret (Error e)
      | Success items \<Rightarrow> ret (Success (x # items)))) (\<lambda>r _. \<not> exhausted r) u" for x u
    unfolding wp_bind by (rule wp_weaken [OF Cons.IH]) (auto simp: wp_ret split: result.splits)
  show ?case
    unfolding read_items.simps wp_bind [of _ "uaNodeIDAlloc K n _"]
    by (rule wp_weaken [OF node]) (auto simp: wp_ret rest split: result.splits)
qed (simp add: wp_def)

lemma wp_enter_loop:
  assumes cnt: "service_counter K cnt" and n: "n = cnt (world s) + unat (maxRetries (m_config s)) + 1"
  shows "wp UNIV (bindE (readE (\<lambda>s. (m_impl s, maxRetries (m_config s)))) (\<lambda>(i, maxr).
      case i of None \<Rightarrow> faultE
      | Some client \<Rightarrow> bindE (nowMsImpl K) (\<lambda>startTime.
          read_loop K nodes (q client) client startTime (maxr + 1) 0))) (exhausted_at cnt n) s"
proof (cases "m_impl s")
  case (Some c)
  have "unat (m + 1) = unat m + 1" if "0 < m + 1" for m :: u32
    using that by (metis Suc_eq_plus1 add.commute unatSuc word_neq_0_conv)
  then have "wp UNIV (bindE (nowMsImpl K) (\<lambda>startTime.
      read_loop K nodes (q c) c startTime (maxRetries (m_config s) + 1) 0)) (exhausted_at cnt n) s"
    by (intro wp_exh_quiet [OF cnt quiet.g_nowMs identity.g_nowMs] wp_loop_exhausted [OF cnt])
      (simp_all add: n)
  then show ?thesis using Some by (simp add: wp_bind [of _ "readE _"] wp_read)
qed (simp add: wp_simps)

lemma wp_request_exhausted:
  assumes cnt: "service_counter K cnt" and n: "n = cnt (world s) + unat (maxRetries (m_config s)) + 1"
  shows "wp UNIV (read_request_and_loop K nodes) (exhausted_at cnt n) s"
proof -
  have items: "wp UNIV (bindE (onWorld (read_items K nodes)) (\<lambda>r. case r of
      Error e \<Rightarrow> ret (Error e) | Success v \<Rightarrow> f v)) (exhausted_at cnt n) t"
    if "cnt (world t) = cnt (world s)" "m_config t = m_config s"
      and f: "\<And>v u. cnt (world u) = cnt (world t) \<Longrightarrow> m_config u = m_config t \<Longrightarrow>
        wp UNIV (f v) (exhausted_at cnt n) u" for f t
  proof -
    have codes: "wp UNIV (onWorld (read_items K nodes)) (\<lambda>r _. \<not> exhausted r) t"
      unfolding wp_onWorld by (rule wp_items_codes)
    show ?thesis
      unfolding wp_bind
      by (rule wp_weaken [OF wp_conj [OF codes wp_conj [OF
            wp_guar [OF quiet_onWorld [where cnt = cnt, OF heap.h_read_items]] wp_guar [OF identity.g_anyWorld]]]])
        (use cnt that f in \<open>auto simp: counts_same_def keeps_identity_def wp_ret split: result.splits\<close>)
  qed
  have enter: "wp UNIV (gateE (client_gate m1 m2)
      (bindE (readE (\<lambda>s. (m_impl s, maxRetries (m_config s)))) (\<lambda>(i, maxr).
       case i of None \<Rightarrow> faultE
       | Some client \<Rightarrow> bindE (nowMsImpl K) (\<lambda>startTime.
           read_loop K nodes (q client) client startTime (maxr + 1) 0)))) (exhausted_at cnt n) u"
    if "cnt (world u) = cnt (world s)" "m_config u = m_config s" for m1 m2 q u
    using that by (intro wp_exh_gate wp_enter_loop [OF cnt]) (simp_all add: gates_not_exhausted n)
  show ?thesis
    unfolding read_request_and_loop_def
  proof (rule wp_exh_quiet [OF cnt quiet_array identity.g_anyWorld], goal_cases)
    case (1 ok t)
    show ?case
    proof (cases ok)
      case True
      have "wp UNIV (bindE (onWorld (read_items K nodes)) (\<lambda>r. case r of Error e \<Rightarrow> ret (Error e)
        | Success items \<Rightarrow> gateE (client_gate ''batchRead: client is nullptr'' ''batchRead: client is shutting down'')
            (bindE (readE (\<lambda>s. (m_impl s, maxRetries (m_config s)))) (\<lambda>(i, maxr).
             case i of None \<Rightarrow> faultE
             | Some client \<Rightarrow> bindE (nowMsImpl K) (\<lambda>startTime.
                 read_loop K nodes \<lparr>rq_nodesToRead = items, rq_nodesToReadSize = length nodes,
                   rq_timestamps = TS_NEITHER\<rparr> client startTime (maxr + 1) 0))))) (exhausted_at cnt n) t"
        by (rule items [OF 1]) (use 1 in \<open>auto intro: enter\<close>)
      with True show ?thesis by simp
    qed (simp add: wp_ret)
  qed
qed


end
