(* ===== verification/Returns.thy ===== *)
theory Returns
  imports Client_Facts Batch_Facts
begin

text \<open>
  Every operation comes back.  The two polling loops end because the wall clock passes
  their deadline, everything else by its own counters; no operation follows a null pointer
  or reads past an array; and the handlers of the public class take whatever is thrown.
  Together with the partial facts of the other theories this gives total correctness.
\<close>

section \<open>Operations of Impl\<close>

lemma throws_call: "exits (range Threw) (sdkCall c)"
  by (rule exits_sdkCall) simp

lemma throws_now: "exits (range Threw) (nowMsImpl K)"
  unfolding nowMsImpl_def by (rule throws_call)

lemma throws_bad: "exits (range Threw) (updateBadStatusTime K)"
  unfolding updateBadStatusTime_def by (intro exits_intros throws_now)

lemma throws_iterate: "exits (range Threw) (callRunIterate K c n)"
  unfolding callRunIterate_def by (intro exits_intros throws_call)

lemma throws_probe: "exits (range Threw) (isConnected K tmo)"
  unfolding isConnected_def by (intro exits_intros throws_call throws_bad throws_iterate)

lemmas throws_calls = throws_call throws_now throws_bad throws_iterate throws_probe

lemmas fault_free_calls = throws_calls [THEN exits_mono, of no_fault]

lemma exits_disconnect_fault: "exits no_fault (impl_disconnect K n)"
proof -
  have time_out: "exits no_fault (disconnect_timeout K c)" for c
    unfolding disconnect_timeout_def by (intro exits_intros fault_free_calls) auto
  have loop: "exits no_fault (disconnect_loop K c st dl m)" for c st dl m
  proof (induction m)
    case 0
    show ?case unfolding disconnect_loop.simps by (rule exits_diverge) simp
  next
    case (Suc m)
    then show ?case
      unfolding disconnect_loop.simps disconnect_iter_def disconnect_rest_def
      by (intro exits_intros exits_result fault_free_calls time_out) auto
  qed
  show ?thesis
    unfolding impl_disconnect_def disconnect_body_def disconnect_busy_def
    by (intro exits_in_flight exits_cas_guard exits_intros fault_free_calls loop) auto
qed

text \<open>
  C7: \<open>Impl::connect()\<close> always comes back, and keeps its promises on every exit.  With one
  poll per nanosecond of the wall budget \<open>2 * timeoutMs + 500\<close> ms the loop has ended, whatever
  the SDK reports or lets its own clock do.  Success means the cached triple is ready and the
  client is RUNNING, healthy and with its give-up timer cleared, unless it was given up meanwhile
  (which is never overwritten); a failed or timed-out attempt never leaves RUNNING beside a failing
  health check; the other errors are reported only for their reasons: a stop signal, a null
  client, another thread inside connect or disconnect.  The only other way out is an exception of
  the SDK.
\<close>

theorem connect_correct:
  assumes "wall_documented K clk" and "enough_polls (m_config s) \<le> n"
  shows "wp (range Threw) (impl_connect K n) (connect_post K s) s"
  using wp_meet [OF wp_exits [OF exits_connect_fault wp_impl_connect] connect_no_diverge [OF assms]]
  unfolding only_throws by (rule wp_weaken) simp

text \<open>
  C28: \<open>Impl::disconnect()\<close> always comes back, by the same bound, and never leaves the client
  RUNNING beside a failing health check, whether it succeeds, fails or times out; its other
  errors are reported only for their reasons.
\<close>

theorem disconnect_correct:
  assumes "wall_documented K clk" and "enough_polls (m_config s) \<le> n"
  shows "wp (range Threw) (impl_disconnect K n) (disconnect_post K s) s"
  using wp_meet [OF wp_exits [OF exits_disconnect_fault wp_impl_disconnect] disconnect_no_diverge [OF assms]]
  unfolding only_throws by (rule wp_weaken) simp

text \<open>Fuel for every configuration.\<close>

lemma throws_connect:
  assumes "wall_documented K clk" and "max_polls \<le> n"
  shows "exits (range Threw) (impl_connect K n)"
proof -
  have "exits no_diverge (impl_connect K n)"
    unfolding exits_def using assms enough_polls_max by (blast intro: connect_no_diverge order_trans)
  from exits_meet [OF exits_connect_fault this] show ?thesis by (simp only: only_throws)
qed

lemma throws_disconnect:
  assumes "wall_documented K clk" and "max_polls \<le> n"
  shows "exits (range Threw) (impl_disconnect K n)"
proof -
  have "exits no_diverge (impl_disconnect K n)"
    unfolding exits_def using assms enough_polls_max by (blast intro: disconnect_no_diverge order_trans)
  from exits_meet [OF exits_disconnect_fault this] show ?thesis by (simp only: only_throws)
qed

lemma throws_batchRead: "reads_documented K \<Longrightarrow> exits (range Threw) (impl_batchRead K nodes)"
  unfolding exits_def by (intro allI wp_weaken [OF wp_impl_batchRead]) simp_all

lemma throws_batchWrite: "writes_documented K \<Longrightarrow> exits (range Threw) (impl_batchWrite K items)"
  unfolding exits_def by (intro allI wp_weaken [OF wp_impl_batchWrite]) simp_all

lemma throws_giveup: "exits (range Threw) (TurnToGiveup K)"
  unfolding TurnToGiveup_def by (intro exits_intros throws_bad)

lemma throws_trigger: "exits (range Threw) (shouldTriggerGiveUp K)"
  unfolding shouldTriggerGiveUp_def by (intro exits_intros throws_now)

lemma throws_decision:
  assumes "wall_documented K clk" and "max_polls \<le> n"
  shows "exits (range Threw) (doWatchdogDecision K n)"
proof -
  note connect = throws_connect [OF assms] and disconnect = throws_disconnect [OF assms]
  have again: "exits (range Threw) (wd_iterate_then_connect K n c)" for c
    unfolding wd_iterate_then_connect_def wd_reconnect_def
    by (intro exits_intros exits_result throws_calls throws_giveup connect)
  have renew: "exits (range Threw) (wd_disconnect_then_connect K n c)" for c
    unfolding wd_disconnect_then_connect_def
    by (intro exits_intros exits_result throws_giveup disconnect again)
  have window: "exits (range Threw) (wd_window K k)" if "exits (range Threw) k" for k
    unfolding wd_window_def by (intro exits_intros throws_bad throws_trigger throws_giveup that)
  have branches: "exits (range Threw) (wd_branches K n c)" for c
    unfolding wd_branches_def by (intro exits_intros window again renew throws_calls)
  show ?thesis
    unfolding doWatchdogDecision_def
    by (intro exits_intros exits_result throws_calls branches)
qed


section \<open>The watchdog thread\<close>

lemma throws_wait: "exits (range Threw) (wait_unless_stopped K n)"
  unfolding wait_unless_stopped_def by (intro exits_intros throws_call)

lemma throws_try:
  assumes "wall_documented K clk" and "max_polls \<le> n"
  shows "exits (range Threw) (wd_try K n)"
  unfolding wd_try_def wd_after_decision_def wd_delay_next_def on_locals_def read_impl_def
  by (intro exits_intros exits_on_impl throws_calls throws_wait throws_decision [OF assms] exits_delayFunction)
    simp_all

lemma handler_returns:
  assumes "clocks_documented K"
  shows "exits {} (wd_handler K e)"
proof -
  have "exits (range Threw) (wd_handler K e)"
    unfolding wd_handler_def wd_delay_next_def on_locals_def
    by (cases e) (auto intro!: exits_intros exits_on_impl throws_giveup exits_delayFunction)
  from exits_meet [OF this exits_wd_handler [OF assms]] show ?thesis by simp
qed

lemma pass_returns:
  assumes "wall_documented K clk" and "max_polls \<le> n" and "clocks_documented K"
  shows "exits {} (catchE (wd_try K n) (wd_handler K))"
  by (rule exits_catch [OF throws_try [OF assms(1,2)]]) (auto intro: handler_returns [OF assms(3)])

lemma loop_diverges:
  assumes "exits {} (catchE (wd_try K m) (wd_handler K))"
  shows "exits {Diverged} (wd_loop K m n)"
proof (induction n)
  case (Suc n)
  then show ?case
    unfolding wd_loop.simps read_impl_def by (intro exits_intros exits_mono [OF assms]) simp_all
qed (unfold wd_loop.simps, rule exits_diverge, simp)

lemma watchdog_exits:
  assumes "clocks_documented K" and "exits {} (catchE (wd_try K m) (wd_handler K))"
  shows "exits {Diverged} (runWatchdog K m n)"
proof -
  have "exits no_throw (sdkCall (sdk_nowMs K))"
    using assms(1) by (intro exits_quiet) (simp add: clocks_documented_def)
  from exits_meet [OF throws_call this] have "exits {} (nowMsImpl K)" by (simp add: nowMsImpl_def)
  moreover have "exits {Diverged} (\<lambda>s. case wd_loop K m n (l, s) of (r, (l, s')) \<Rightarrow> (r, s'))" for l
    using loop_diverges [OF assms(2), of n] by (simp add: exits_def wp_drop_locals)
  ultimately show ?thesis
    unfolding runWatchdog_def by (intro exits_intros) (auto intro: exits_mono)
qed

text \<open>
  C30: the watchdog thread never abandons a live client, never ends the process and never gets
  stuck.  Every pass of its loop comes back, whatever is thrown in it, so that a stop signal is
  seen; the thread leaves the loop only for a stop signal (shutdown, or GIVEN_UP, to which it turns
  itself after an unrecoverable exception) or because there is no client to watch; and after any
  number of passes it has either left the loop that way or is still watching: no exception and no
  undefined behaviour.
\<close>

theorem watchdog_never_abandons:
  assumes "wall_documented K clk" and "max_polls \<le> m" and "clocks_documented K"
  shows "exits {} (catchE (wd_try K m) (wd_handler K)) \<and>
    wp {Diverged} (runWatchdog K m n) (\<lambda>_ t. getEffectiveStopSignal t \<or> m_impl t = None) s"
proof
  show pass: "exits {} (catchE (wd_try K m) (wd_handler K))" by (rule pass_returns [OF assms])
  show "wp {Diverged} (runWatchdog K m n) (\<lambda>_ t. getEffectiveStopSignal t \<or> m_impl t = None) s"
    by (rule wp_weaken [OF wp_exits [OF watchdog_exits [OF assms(3) pass] wp_runWatchdog]])
      (simp add: watch_over_def)
qed

section \<open>The public class\<close>

text \<open>A computation on a client that has an object, which it keeps.\<close>

definition on_object :: "exit set \<Rightarrow> ('w client, 'a) cpp \<Rightarrow> bool" where
  "on_object A m \<longleftrightarrow> (\<forall>s. pImpl s \<noteq> None \<longrightarrow> wp A m (\<lambda>_ _. True) s \<and> pImpl (snd (m s)) \<noteq> None)"

lemma object_impl: "exits A m \<Longrightarrow> on_object A (on_pImpl m)"
proof -
  have "pImpl (snd (on_pImpl m s)) \<noteq> None" if "pImpl s \<noteq> None" for s
    using that by (auto simp: on_pImpl_def split: prod.split)
  moreover assume "exits A m"
  ultimately show ?thesis
    unfolding on_object_def by (auto simp: wp_on_pImpl intro: exitsD)
qed

lemma object_ret: "on_object A (ret x)"
  by (simp add: on_object_def wp_def ret_def)

lemma object_fail: "on_object A (fail c msg)"
  by (simp add: fail_def object_ret)

lemma object_bind:
  fixes m :: "('w client, 'a) cpp"
  assumes "on_object A m" and "\<And>x. on_object A (f x)"
  shows "on_object A (bindE m f)"
  unfolding on_object_def
proof (intro allI impI)
  fix s :: "'w client"
  assume s: "pImpl s \<noteq> None"
  obtain r t where run: "m s = (r, t)" by fastforce
  with assms(1) s have "wp A m (\<lambda>_ _. True) s" "pImpl t \<noteq> None" unfolding on_object_def by fastforce+
  moreover have "wp A (f x) (\<lambda>_ _. True) t \<and> pImpl (snd (f x t)) \<noteq> None" for x
    using assms(2) calculation(2) unfolding on_object_def by blast
  ultimately show "wp A (bindE m f) (\<lambda>_ _. True) s \<and> pImpl (snd (bindE m f s)) \<noteq> None"
    using run by (cases r) (simp_all add: wp_def bindE_run)
qed

lemma object_if: "on_object A m \<Longrightarrow> on_object A k \<Longrightarrow> on_object A (if b then m else k)"
  by simp

lemma object_result:
  "(\<And>v. on_object A (f v)) \<Longrightarrow> (\<And>e. on_object A (g e)) \<Longrightarrow>
     on_object A (case r of Success v \<Rightarrow> f v | Error e \<Rightarrow> g e)"
  by (cases r) simp_all

lemma object_guarded: "on_object (range Threw) m \<Longrightarrow> on_object {} (guarded sys m)"
  unfolding on_object_def
proof (intro allI impI)
  fix s :: "'a client"
  assume m: "\<forall>s. pImpl s \<noteq> None \<longrightarrow> wp (range Threw) m (\<lambda>_ _. True) s \<and> pImpl (snd (m s)) \<noteq> None"
    and s: "pImpl s \<noteq> None"
  obtain r t where run: "m s = (r, t)" by fastforce
  from m s run have "wp (range Threw) m (\<lambda>_ _. True) s" "pImpl t \<noteq> None" by fastforce+
  with run show "wp {} (guarded sys m) (\<lambda>_ _. True) s \<and> pImpl (snd (guarded sys m s)) \<noteq> None"
    by (cases r) (auto simp: wp_def guarded_def catchE_run ret_def)
qed

lemmas object_intros = object_impl object_ret object_fail object_bind object_if object_result
  exits_read exits_mono [OF exits_read]

lemma object_with_pImpl:
  assumes "exits A null" and "on_object A body"
  shows "exits A (with_pImpl null body)"
proof -
  have "wp A body (\<lambda>_ _. True) s" if "pImpl s \<noteq> None" for s
    using assms(2) that unfolding on_object_def by blast
  then show ?thesis
    using exitsD [OF assms(1)]
    by (auto simp: exits_def with_pImpl_def wp_bind wp_read split: option.split)
qed

lemma object_api: "on_object A body \<Longrightarrow> exits A (api who body)"
  unfolding api_def by (intro exits_lease exits_fail object_with_pImpl)

text \<open>The leased calls.\<close>

lemma connect_returns:
  assumes "wall_documented K clk" and "max_polls \<le> n"
  shows "exits {} (client_connect K n)"
  unfolding client_connect_def
  by (intro object_api object_guarded object_intros throws_connect [OF assms])

lemma disconnect_returns:
  assumes "wall_documented K clk" and "max_polls \<le> n"
  shows "exits {} (client_disconnect K n)"
  unfolding client_disconnect_def
  by (intro object_api object_guarded object_intros throws_disconnect [OF assms])

lemma check_returns:
  "exits {} (checkConnected K)" "exits {} (isHealthy K)" "exits {} (checkLifeState :: ('w client, _) cpp)"
  unfolding checkConnected_def isHealthy_def checkLifeState_def
  by (intro object_api object_guarded object_intros throws_probe)+

lemma setGiveUp_returns: "exits {} (client_setGiveUpSignal :: ('w client, _) cpp)"
proof -
  have "exits {} (\<lambda>s. case setGiveUpSignal s of (r, t) \<Rightarrow> (Ret r, t))"
    by (auto simp: exits_def wp_def split: prod.split)
  then show ?thesis
    unfolding client_setGiveUpSignal_def
    by (intro exits_lease exits_fail object_with_pImpl object_guarded object_impl) (erule exits_mono, simp)
qed

lemma batch_returns:
  "reads_documented K \<Longrightarrow> exits {} (batchRead K nodes)"
  "writes_documented K \<Longrightarrow> exits {} (batchWrite K items)"
  unfolding batchRead_def batchWrite_def
  by (intro exits_total_guarded object_api object_impl throws_batchRead throws_batchWrite, assumption)+

text \<open>The rest of the class: shutdown, destructor, recreate and the factories.\<close>

lemma shutdown_returns: "exits {} (client_shutdown K)"
  unfolding client_shutdown_def
  by (intro exits_intros exits_pair exits_fail exits_total_guarded exits_shutdownInternal)

lemma destructor_returns: "exits {} (client_destructor K)"
  unfolding client_destructor_def by (intro exits_intros exits_swallow exits_shutdownInternal)

lemma throws_configure: "exits (range Threw) (configureClient K d)"
proof -
  have "exits no_fault (configureClient K d)"
    unfolding exits_def by (intro allI wp_weaken [OF wp_configureClient] TrueI)
  moreover have "exits no_diverge (configureClient K d)"
    unfolding configureClient_def validateConfiguration_def applyConfiguration_def
    by (intro exits_intros exits_result exits_fault throws_calls [THEN exits_mono]) auto
  ultimately show ?thesis using exits_meet only_throws by metis
qed

lemma throws_start: "exits (range Threw) (startWatchdog K)"
  unfolding startWatchdog_def by (intro exits_intros throws_call)

lemma throws_candidate:
  assumes "wall_documented K clk" and "max_polls \<le> n"
  shows "exits (range Threw) (candidate_start K n)"
  unfolding candidate_start_def
  by (intro exits_intros exits_result exits_fail throws_configure throws_connect [OF assms] throws_start)

lemma recreate_returns:
  assumes "wall_documented K clk" and "max_polls \<le> n" and "\<And>ms w. \<exists>x. fst (wait_ms K ms w) = Inr x"
  shows "exits {} (recreateGiveUpClient K n left dtor)"
  unfolding recreateGiveUpClient_def recreate_body_def
  by (intro exits_intros exits_fail exits_drain_leases [OF assms(3)] exits_total_guarded
      exits_recreate_try throws_candidate [OF assms(1,2)]) simp_all

lemma object_connect:
  assumes "wall_documented K clk" and "max_polls \<le> n"
  shows "on_object A (client_connect K n)"
  unfolding on_object_def
proof (intro allI impI conjI)
  fix s :: "'a client"
  show "wp A (client_connect K n) (\<lambda>_ _. True) s"
    by (rule exitsD [OF exits_mono [OF connect_returns [OF assms]]]) simp
  show "pImpl (snd (client_connect K n s)) \<noteq> None" if "pImpl s \<noteq> None"
    using marks.l_connect [THEN guarD, of s K n] that by (auto simp: keeps_marks_def split: option.splits)
qed

lemma throws_bring_up:
  assumes "wall_documented K clk" and "max_polls \<le> n"
  shows "on_object (range Threw) (bring_up K n d watchdog)"
  unfolding bring_up_def
  by (intro object_intros object_connect [OF assms] throws_configure throws_start)

lemma throws_build:
  assumes "wall_documented K clk" and "max_polls \<le> n"
  shows "exits (range Threw) (build_client K n url cfg d watchdog)"
  unfolding exits_def build_client_def wp_bind
proof (rule allI, rule wpI)
  fix w c w'
  assume "construct K url cfg w = (Ret c, w')"
  then have "pImpl c \<noteq> None"
    by (auto simp: construct_def split: prod.splits sum.splits option.splits)
  then have up: "wp (range Threw) (bring_up K n d watchdog) (\<lambda>_ _. True) c"
    using throws_bring_up [OF assms] unfolding on_object_def by blast
  obtain q c' where run: "bring_up K n d watchdog c = (q, c')" by fastforce
  show "wp (range Threw) (\<lambda>_. case bring_up K n d watchdog c of
         (Ret (Success _), c') \<Rightarrow> (Ret (Success c'), c_world c')
       | (Ret (Error e), c') \<Rightarrow> (Ret (Error e), discard K c')
       | (Throw x, c') \<Rightarrow> (Throw x, discard K c')
       | (Diverge, c') \<Rightarrow> (Diverge, c_world c')
       | (Fault, c') \<Rightarrow> (Fault, c_world c')) (\<lambda>_ _. True) w'"
  proof (cases q)
    case (Ret x)
    then show ?thesis by (cases x) (simp_all add: wp_def run)
  qed (use up run in \<open>auto simp: wp_def\<close>)
qed (auto simp: construct_def split: prod.splits sum.splits option.splits)

lemma create_returns:
  assumes "wall_documented K clk" and "max_polls \<le> n"
  shows "exits {} (create K n url cfg d)" "exits {} (createWithSdk (Some K) n url cfg d watchdog)"
    "exits {} (createWithSdk None n url cfg d watchdog :: ('w, ('w client, rich_error) result) cpp)"
  unfolding create_def createWithSdk_def option.case
  by (intro exits_total_guarded throws_build [OF assms] exits_fail)+




end
