(* ===== verification/Session.thy ===== *)
theory Session
  imports Returns
begin

text \<open>
  What the public class promises as a whole: a client is a session that is open from its
  creation to its first successful \<open>shutdown()\<close>.  The specification has two states; a
  sequence of public calls on the model refines it.
\<close>

section \<open>Calls\<close>

datatype call =
    Call_connect nat
  | Call_disconnect nat
  | Call_checkConnected
  | Call_isHealthy
  | Call_checkLifeState
  | Call_setGiveUpSignal
  | Call_batchRead "node_id list"
  | Call_batchWrite "write_item list"
  | Call_recreate nat
  | Call_shutdown

text \<open>
  One call that has returned a result.  Calls follow each other, so a recreate finds no
  lease held and no destructor running.
\<close>

inductive performs :: "'w sdk \<Rightarrow> call \<Rightarrow> 'w client \<Rightarrow> error_code option \<Rightarrow> 'w client \<Rightarrow> bool" for K where
  do_connect: "client_connect K n s = (Ret r, t) \<Longrightarrow>
     performs K (Call_connect n) s (map_option err_code (get_error r)) t"
| do_disconnect: "client_disconnect K n s = (Ret r, t) \<Longrightarrow>
     performs K (Call_disconnect n) s (map_option err_code (get_error r)) t"
| do_check: "checkConnected K s = (Ret r, t) \<Longrightarrow>
     performs K Call_checkConnected s (map_option err_code (get_error r)) t"
| do_healthy: "isHealthy K s = (Ret r, t) \<Longrightarrow>
     performs K Call_isHealthy s (map_option err_code (get_error r)) t"
| do_life: "checkLifeState s = (Ret r, t) \<Longrightarrow>
     performs K Call_checkLifeState s (map_option err_code (get_error r)) t"
| do_give_up: "client_setGiveUpSignal s = (Ret r, t) \<Longrightarrow>
     performs K Call_setGiveUpSignal s (map_option err_code (get_error r)) t"
| do_read: "batchRead K nodes s = (Ret r, t) \<Longrightarrow>
     performs K (Call_batchRead nodes) s (map_option err_code (get_error r)) t"
| do_write: "batchWrite K items s = (Ret r, t) \<Longrightarrow>
     performs K (Call_batchWrite items) s (map_option err_code (get_error r)) t"
| do_recreate: "recreateGiveUpClient K n 0 False s = (Ret r, t) \<Longrightarrow>
     performs K (Call_recreate n) s (map_option err_code (get_error r)) t"
| do_shutdown: "client_shutdown K s = (Ret r, t) \<Longrightarrow>
     performs K Call_shutdown s (map_option err_code (get_error r)) t"

text \<open>A run: the calls with the error each returned, \<open>None\<close> for success.\<close>

inductive run_calls :: "'w sdk \<Rightarrow> 'w client \<Rightarrow> (call \<times> error_code option) list \<Rightarrow> 'w client \<Rightarrow> bool" for K where
  run_nil: "run_calls K s [] s"
| run_cons: "performs K c s e t \<Longrightarrow> run_calls K t cs u \<Longrightarrow> run_calls K s ((c, e) # cs) u"

section \<open>The specification\<close>

datatype session = Open | Closed

text \<open>
  An open session ends with \<open>shutdown()\<close>, which succeeds; a closed one answers every call
  with ALREADY\_TERMINATED but \<open>shutdown()\<close>, which succeeds again.
\<close>

fun session_step :: "session \<Rightarrow> call \<Rightarrow> session" where
  "session_step _ Call_shutdown = Closed"
| "session_step s _ = s"

fun answer_ok :: "session \<Rightarrow> call \<Rightarrow> error_code option \<Rightarrow> bool" where
  "answer_ok _ Call_shutdown e = (e = None)"
| "answer_ok Closed _ e = (e = Some EC_ALREADY_TERMINATED)"
| "answer_ok Open _ e = True"

fun answers_ok :: "session \<Rightarrow> (call \<times> error_code option) list \<Rightarrow> bool" where
  "answers_ok s [] = True"
| "answers_ok s ((c, e) # cs) = (answer_ok s c e \<and> answers_ok (session_step s c) cs)"

fun session_after :: "session \<Rightarrow> (call \<times> error_code option) list \<Rightarrow> session" where
  "session_after s [] = s"
| "session_after s ((c, e) # cs) = session_after (session_step s c) cs"

section \<open>Refinement\<close>

definition session_of :: "'w client \<Rightarrow> session" where
  "session_of s = (if m_terminated s then Closed else Open)"

definition session_ok :: "'w client \<Rightarrow> bool" where
  "session_ok s \<longleftrightarrow> \<not> m_recreating s \<and> m_inFlight s = 0 \<and> m_shutdownInFlight s = 0 \<and>
     (m_terminated s \<longleftrightarrow> pImpl s = None)"

lemma marks_ok:
  assumes "keeps_marks s t" and "session_ok s"
  shows "session_ok t \<and> session_of t = session_of s"
  using assms by (auto simp: keeps_marks_def session_ok_def session_of_def split: option.splits)

text \<open>One call, from the facts about each operation.\<close>

lemma closed_reason: "session_ok s \<Longrightarrow> session_of s = Closed \<Longrightarrow> reason s \<noteq> Active \<and> m_terminated s \<and> \<not> m_recreating s"
  by (auto simp: session_of_def reason_def session_ok_def split: if_splits)

lemma rejected_answer:
  "rejected m s \<Longrightarrow> m_terminated s \<Longrightarrow> m s = (Ret r, t) \<Longrightarrow> map_option err_code (get_error r) = Some EC_ALREADY_TERMINATED"
  by (auto simp: rejected_def)

lemma leased_answer:
  assumes "session_ok s" and "keeps_marks s (snd (m s))" and "m s = (Ret r, t)"
    and "reason s \<noteq> Active \<Longrightarrow> rejected m s" and "session_step (session_of s) c = session_of s"
    and "\<And>e. answer_ok Open c e" and "answer_ok Closed c (Some EC_ALREADY_TERMINATED)"
  shows "session_ok t \<and> session_of t = session_step (session_of s) c \<and>
    answer_ok (session_of s) c (map_option err_code (get_error r))"
proof -
  have "session_ok t \<and> session_of t = session_of s"
    using marks_ok [of s t] assms(1-3) by simp
  moreover have "answer_ok (session_of s) c (map_option err_code (get_error r))"
  proof (cases "session_of s")
    case Closed
    with closed_reason [OF assms(1)] have "reason s \<noteq> Active" "m_terminated s" by simp_all
    then have "map_option err_code (get_error r) = Some EC_ALREADY_TERMINATED"
      by (intro rejected_answer [OF assms(4) _ assms(3)])
    then show ?thesis by (simp only: Closed assms(7))
  qed (simp add: assms(6))
  ultimately show ?thesis using assms(5) by simp
qed

lemma leased_rejected:
  assumes "reason s \<noteq> Active"
  shows "rejected (client_connect K n) s" "rejected (client_disconnect K n) s" "rejected (checkConnected K) s"
    "rejected (isHealthy K) s" "rejected checkLifeState s" "rejected client_setGiveUpSignal s"
    "rejected (batchRead K nodes) s" "rejected (batchWrite K items) s"
  using calls_rejected [OF assms, of K n nodes items] by blast+

lemmas leased_marks = marks.l_connect [THEN guarD] marks.l_disconnect [THEN guarD]
  marks.l_checkConnected [THEN guarD] marks.l_isHealthy [THEN guarD] marks.l_checkLifeState [THEN guarD]
  marks.l_setGiveUp [THEN guarD] marks.l_batchRead [THEN guarD] marks.l_batchWrite [THEN guarD]

lemma performs_ok:
  assumes "performs K c s e t" and "session_ok s" and waits: "\<And>ms w. \<exists>x. fst (wait_ms K ms w) = Inr x"
  shows "session_ok t \<and> session_of t = session_step (session_of s) c \<and> answer_ok (session_of s) c e"
  using assms(1)
proof (cases rule: performs.cases)
  case (do_recreate n r)
  have post: "recreate_post False s r t"
    by (rule wpD [OF wp_recreate [OF waits] do_recreate(3)]) (use assms(2) in \<open>simp add: session_ok_def\<close>)
  have "session_ok t \<and> session_of t = session_of s"
    using post assms(2)
    by (cases r) (auto simp: recreate_post_def session_ok_def session_of_def)
  moreover have "answer_ok (session_of s) c e"
  proof (cases "session_of s")
    case Closed
    with closed_reason [OF assms(2)] have "m_terminated s" "\<not> m_recreating s" by simp_all
    with do_recreate show ?thesis
      by (auto simp: session_of_def recreateGiveUpClient_def bindE_readE fail_def)
  qed (simp add: do_recreate)
  ultimately show ?thesis using do_recreate(1) by simp
next
  case (do_shutdown r)
  have "shutdown_post s r t"
    by (rule wpD [OF wp_client_shutdown do_shutdown(3)]) (use assms(2) in \<open>simp add: session_ok_def\<close>)
  with assms(2) do_shutdown show ?thesis
    by (auto simp: shutdown_post_def session_ok_def session_of_def split: if_splits)
qed (simp only:, rule leased_answer [OF assms(2)], rule leased_marks, assumption, erule leased_rejected, simp, simp, simp)+

lemma run_ok:
  assumes "run_calls K s cs t" and "\<And>ms w. \<exists>x. fst (wait_ms K ms w) = Inr x" and "session_ok s"
  shows "session_ok t \<and> session_of t = session_after (session_of s) cs \<and> answers_ok (session_of s) cs"
  using assms(1,3)
proof (induction rule: run_calls.induct)
  case (run_cons c s e t cs u)
  then show ?case using performs_ok [OF run_cons.hyps(1) run_cons.prems assms(2)] by simp
qed simp

lemma ready_session: "client_ready K b c \<Longrightarrow> session_ok c \<and> session_of c = Open"
  by (auto simp: client_ready_def quiescent_def session_ok_def session_of_def)

lemma created_session:
  assumes "create K n url cfg d w = (Ret (Success c), w')"
  shows "session_ok c \<and> session_of c = Open"
  using wpD [OF wp_create [THEN conjunct1] assms] ready_session [of K True c] by simp

text \<open>Every call has an outcome, the ones that poll given enough passes.\<close>

fun enough_fuel :: "call \<Rightarrow> bool" where
  "enough_fuel (Call_connect n) \<longleftrightarrow> max_polls \<le> n"
| "enough_fuel (Call_disconnect n) \<longleftrightarrow> max_polls \<le> n"
| "enough_fuel (Call_recreate n) \<longleftrightarrow> max_polls \<le> n"
| "enough_fuel _ \<longleftrightarrow> True"

lemma returns_value: "exits {} m \<Longrightarrow> \<exists>r t. m s = (Ret r, t)"
  by (cases "m s"; cases "fst (m s)") (auto simp: exits_def wp_def dest!: spec [of _ s])

lemma call_performs:
  assumes "wall_documented K clk" and "reads_documented K" and "writes_documented K"
    and "\<And>ms w. \<exists>x. fst (wait_ms K ms w) = Inr x" and "enough_fuel c"
  shows "\<exists>e t. performs K c s e t"
proof (cases c)
  case (Call_connect n)
  with assms(5) returns_value [OF connect_returns [OF assms(1)], of n s] show ?thesis by (auto intro: do_connect)
next
  case (Call_disconnect n)
  with assms(5) returns_value [OF disconnect_returns [OF assms(1)], of n s] show ?thesis by (auto intro: do_disconnect)
next
  case (Call_recreate n)
  with assms(5) returns_value [OF recreate_returns [OF assms(1) _ assms(4)], of n 0 False s] show ?thesis
    by (auto intro: do_recreate)
next
  case (Call_batchRead nodes)
  with returns_value [OF batch_returns(1) [OF assms(2)], of nodes s] show ?thesis by (auto intro: do_read)
next
  case (Call_batchWrite items)
  with returns_value [OF batch_returns(2) [OF assms(3)], of items s] show ?thesis by (auto intro: do_write)
next
  case Call_checkConnected
  with returns_value [OF check_returns(1), of K s] show ?thesis by (auto intro: do_check)
next
  case Call_isHealthy
  with returns_value [OF check_returns(2), of K s] show ?thesis by (auto intro: do_healthy)
next
  case Call_checkLifeState
  with returns_value [OF check_returns(3), of s] show ?thesis by (auto intro: do_life)
next
  case Call_setGiveUpSignal
  with returns_value [OF setGiveUp_returns, of s] show ?thesis by (auto intro: do_give_up)
next
  case Call_shutdown
  with returns_value [OF shutdown_returns, of K s] show ?thesis by (auto intro: do_shutdown)
qed

text \<open>
  C1: the public class refines its specification.  A client that \<open>create()\<close> has returned is
  an open session; whatever calls follow, in any order and with any outcome, the session is
  closed exactly by \<open>shutdown()\<close>, which always succeeds, and from then on every other call
  answers ALREADY_TERMINATED; between calls no lease and no mark is left behind and the
  object is gone exactly when the session is closed; and no call gets stuck: each has an
  outcome, given enough passes of its polling loop.
\<close>

theorem session_refines:
  assumes "create K n url cfg d w = (Ret (Success c), w')" and "run_calls K c cs t"
    and "wall_documented K clk" and "reads_documented K" and "writes_documented K"
    and "\<And>ms w. \<exists>x. fst (wait_ms K ms w) = Inr x"
  shows "session_ok t \<and> session_of t = session_after Open cs \<and> answers_ok Open cs \<and>
    (enough_fuel next_call \<longrightarrow> (\<exists>e u. performs K next_call t e u))"
  using run_ok [OF assms(2,6)] created_session [OF assms(1)] call_performs [OF assms(3-6)] by simp

end
