(* ===== verification/Ownership.thy ===== *)
theory Ownership
  imports Session
begin

text \<open>
  Clients of the SDK are not leaked and not deleted twice.  Every \<open>Impl\<close> owns the SDK
  client it was made with; \<open>UA_ClientDeleter\<close>, the guard of the candidate and the destructors
  have to give back exactly the clients that \<open>clientNew\<close> has handed out.
\<close>

section \<open>Counting clients\<close>

text \<open>
  \<open>live\<close> counts the clients that exist in a world: one more after a successful \<open>clientNew\<close>, one
  less after \<open>clientDelete\<close>; no other call makes or deletes one.
\<close>

definition live_documented :: "'w sdk \<Rightarrow> ('w \<Rightarrow> int) \<Rightarrow> bool" where
  "live_documented K live \<longleftrightarrow>
     (\<forall>w. live (snd (snd (sdk_clientNew K w))) =
        live w + (case fst (sdk_clientNew K w) of Inr (Some _) \<Rightarrow> 1 | _ \<Rightarrow> 0)) \<and>
     (\<forall>c w. live (snd (snd (sdk_clientDelete K c w))) = live w - 1) \<and>
     (\<forall>c n w. live (snd (snd (sdk_runIterate K c n w))) = live w) \<and>
     (\<forall>c w. live (snd (snd (sdk_getState K c w))) = live w) \<and>
     (\<forall>c w. live (snd (snd (sdk_getConfig K c w))) = live w) \<and>
     (\<forall>c url w. live (snd (snd (sdk_connectAsync K c url w))) = live w) \<and>
     (\<forall>c w. live (snd (snd (sdk_disconnectAsync K c w))) = live w) \<and>
     (\<forall>c q w. live (snd (snd (sdk_serviceRead K c q w))) = live w) \<and>
     (\<forall>c q w. live (snd (snd (sdk_serviceWrite K c q w))) = live w) \<and>
     (\<forall>w. live (snd (snd (sdk_nowMs K w))) = live w) \<and>
     (\<forall>w. live (snd (snd (wall_now K w))) = live w) \<and>
     (\<forall>n w. live (snd (snd (wait_ms K n w))) = live w) \<and>
     (\<forall>w. live (snd (snd (spawn_thread K w))) = live w) \<and>
     (\<forall>w. live (snd (snd (join_thread K w))) = live w) \<and>
     (\<forall>n w. live (snd (sdk_array_new K n w)) = live w) \<and>
     (\<forall>ns x w. live (snd (sdk_nodeid_string_alloc K ns x w)) = live w) \<and>
     (\<forall>c ty w. live (snd (sdk_set_scalar_copy K c ty w)) = live w)"

definition keeps_live :: "'w sdk \<Rightarrow> ('w \<Rightarrow> int) \<Rightarrow> 'w impl \<Rightarrow> 'w impl \<Rightarrow> bool" where
  "keeps_live K live s t \<longleftrightarrow>
     (live_documented K live \<longrightarrow> m_impl t = m_impl s \<and> live (world t) = live (world s))"

definition heap_live :: "'w sdk \<Rightarrow> ('w \<Rightarrow> int) \<Rightarrow> 'w \<Rightarrow> 'w \<Rightarrow> bool" where
  "heap_live K live v w \<longleftrightarrow> (live_documented K live \<longrightarrow> live w = live v)"

interpretation own: batch_contract "keeps_live K live" K "heap_live K live"
  by unfold_locales
    (auto simp: keeps_live_def heap_live_def live_documented_def apply_event_keeps transition_defs)

text \<open>The clients an object, and a client of the library, own.\<close>

definition owned_by :: "'w impl \<Rightarrow> int" where
  "owned_by i = (if m_impl i = None then 0 else 1)"

definition held :: "'w client \<Rightarrow> int" where
  "held s = (case pImpl s of None \<Rightarrow> 0 | Some i \<Rightarrow> owned_by i)"

text \<open>
  The balance of an operation: clients that nobody owns are neither created nor destroyed.
  It is claimed where no other call holds the object, so that dropping it destroys it.
\<close>

definition balanced :: "'w sdk \<Rightarrow> ('w \<Rightarrow> int) \<Rightarrow> 'w client \<Rightarrow> 'w client \<Rightarrow> bool" where
  "balanced K live s t \<longleftrightarrow> borrowed t = borrowed s \<and> (live_documented K live \<longrightarrow> \<not> borrowed s \<longrightarrow>
     live (c_world t) - held t = live (c_world s) - held s)"

interpretation balance: client_contract "balanced K live" "keeps_live K live" K "heap_live K live"
  by unfold_locales
    (auto simp: balanced_def keeps_live_def held_def owned_by_def api_enter_def api_leave_def)

section \<open>Start and teardown of an object\<close>

lemma own_calls:
  "guar (keeps_live K live) (sdkCall (sdk_getConfig K c))" "guar (keeps_live K live) (sdkCall (spawn_thread K))"
  "guar (keeps_live K live) (sdkCall (join_thread K))"
  by (rule own.g_call, simp add: keeps_live_def live_documented_def)+

lemma own_modify: "(\<And>s. m_impl (f s) = m_impl s \<and> world (f s) = world s) \<Longrightarrow> guar (keeps_live K live) (modifyE f)"
  by (rule own.g_modify) (simp add: keeps_live_def)

lemma own_configure: "guar (keeps_live K live) (configureClient K d)"
  unfolding configureClient_def validateConfiguration_def applyConfiguration_def
  by (intro own.b_intros own.g_result own.g_pair own_calls own_modify own.g_isConnected)
    (simp_all add: store_configuration_def)

lemma own_start: "guar (keeps_live K live) (startWatchdog K)"
  unfolding startWatchdog_def by (intro own.b_intros own_calls own_modify) simp_all

lemma own_candidate: "guar (keeps_live K live) (candidate_start K n)"
  unfolding candidate_start_def fail_def
  by (intro own.b_intros own.g_result own_configure own.g_connect own_start)

lemma own_shutdown: "guar (keeps_live K live) (impl_shutdown K self)"
  unfolding impl_shutdown_def swallow_def joinWatchdog_def drain_tasks_def
  by (intro own.b_intros own.g_pair own_calls own_modify) (simp_all add: transition_defs)

lemma own_guard: "guar (keeps_live K live) (threadGuard K self)"
  unfolding threadGuard_def by (intro own.b_intros own_calls own_modify) simp_all

text \<open>The destructor gives the client of the object back, once.\<close>

definition released :: "'w sdk \<Rightarrow> ('w \<Rightarrow> int) \<Rightarrow> 'w impl \<Rightarrow> 'w impl \<Rightarrow> bool" where
  "released K live s t \<longleftrightarrow>
     (live_documented K live \<longrightarrow> m_impl t = None \<and> live (world t) = live (world s) - owned_by s)"

lemma released_after: "keeps_live K live s t \<Longrightarrow> released K live t u \<Longrightarrow> released K live s u"
  by (simp add: keeps_live_def released_def owned_by_def)

lemma cleanup_releases: "wp {} (doCleanup K) (\<lambda>_ t. released K live s t) s"
proof (cases "m_impl s")
  case (Some c)
  obtain r evs w where del: "sdk_clientDelete K c (world s) = (r, evs, w)" by (metis prod.exhaust)
  then have "live_documented K live \<Longrightarrow> live w = live (world s) - 1"
    unfolding live_documented_def by (metis snd_conv)
  with Some del show ?thesis
    by (simp add: doCleanup_def wp_simps) (simp add: wp_def deleteClient_def released_def owned_by_def)
qed (simp add: doCleanup_def wp_simps released_def owned_by_def)

lemma wp_own: "exits {} m \<Longrightarrow> guar (keeps_live K live) m \<Longrightarrow> wp {} m (\<lambda>_ t. keeps_live K live s t) s"
  by (rule wp_exits [OF _ wp_guar])

lemma destructor_releases: "wp {} (impl_destructor K self) (\<lambda>_ t. released K live s t) s"
proof -
  have guard: "wp {} (thenE (threadGuard K self) (doCleanup K)) (\<lambda>_ t. released K live u t) u" for u
    unfolding wp_then
    by (rule wp_weaken [OF wp_own [OF exits_threadGuard own_guard]], rule wp_weaken [OF cleanup_releases])
      (rule released_after)
  have first: "wp {} (if \<not> m_stop s then impl_shutdown K self else ret ()) (\<lambda>_ t. keeps_live K live s t) s"
    by (intro wp_own exits_if exits_impl_shutdown exits_ret own.g_if own_shutdown own.g_ret)
  show ?thesis
    unfolding impl_destructor_def wp_bind [of _ "readE _"] wp_read wp_then [of _ "if _ then _ else _"]
  proof (rule wp_weaken [OF first], goal_cases)
    case (1 x t)
    have "released K live t v" if "released K live (t\<lparr>m_shutdown := True, m_running := False\<rparr>) v" for v
      using that by (simp add: released_def owned_by_def)
    with 1 guard [of "t\<lparr>m_shutdown := True, m_running := False\<rparr>"] show ?case
      unfolding wp_then [of _ "modifyE _"] wp_modify by (elim wp_weaken) (blast intro: released_after)
  qed
qed

text \<open>Dropping the last pointer to an object gives its client back, dropping another one does not.\<close>

definition disposed :: "'w sdk \<Rightarrow> ('w \<Rightarrow> int) \<Rightarrow> bool \<Rightarrow> 'w impl \<Rightarrow> 'w client \<Rightarrow> 'w client \<Rightarrow> bool" where
  "disposed K live unique i s t \<longleftrightarrow> pImpl t = pImpl s \<and> borrowed t = borrowed s \<and> (live_documented K live \<longrightarrow>
     live (c_world t) = live (c_world s) - (if unique then owned_by i else 0))"

lemma dispose_gives_back: "wp {} (dispose K b i) (\<lambda>_ t. disposed K live b i s t) s"
proof -
  let ?i = "i\<lparr>world := c_world s\<rparr>"
  have last: "wp {} (if b then impl_destructor K False else ret ())
      (\<lambda>_ j. live_documented K live \<longrightarrow> live (world j) = live (world u) - (if b then owned_by u else 0)) u" for u
    using destructor_releases [of K False live u]
    by (cases b) (auto simp: wp_ret elim: wp_weaken simp: released_def)
  have "wp {} (thenE (impl_shutdown K False) (if b then impl_destructor K False else ret ()))
      (\<lambda>_ j. live_documented K live \<longrightarrow> live (world j) = live (c_world s) - (if b then owned_by i else 0)) ?i"
    unfolding wp_then
    by (rule wp_weaken [OF wp_own [where live = live, OF exits_impl_shutdown own_shutdown]], rule wp_weaken [OF last])
      (auto simp: keeps_live_def owned_by_def)
  then show ?thesis
    unfolding wp_dispose by (rule wp_weaken) (simp add: disposed_def)
qed

lemma dispose_runs: obtains t where "dispose K b i s = (Ret (), t)" "disposed K live b i s t"
  using dispose_gives_back [of K b i live s] by (auto simp: wp_def split: prod.splits outcome.splits)

lemma balance_modify:
  "(\<And>s. borrowed (f s) = borrowed s \<and> pImpl (f s) = pImpl s \<and> c_world (f s) = c_world s) \<Longrightarrow>
     guar (balanced K live) (modifyE f)"
  by (rule balance.g_modify) (simp add: balanced_def held_def)

lemma wp_shutdown_balance: "wp {} (shutdownInternal K) (\<lambda>_ t. balanced K live s t \<and> pImpl t = None) s"
proof (cases "pImpl s")
  case (Some i)
  obtain t where t: "dispose K (\<not> borrowed s) i (s\<lparr>pImpl := None\<rparr>) = (Ret (), t)"
    and d: "disposed K live (\<not> borrowed s) i (s\<lparr>pImpl := None\<rparr>) t"
    by (rule dispose_runs)
  then have "shutdownInternal K s = (Ret (Success ()), t)"
    using Some by (simp add: shutdownInternal_def bindE_readE thenE_run bindE_run)
  moreover have "balanced K live s t \<and> pImpl t = None"
    using d Some by (simp add: balanced_def held_def disposed_def)
  ultimately show ?thesis by (simp add: wp_def)
qed (simp add: shutdownInternal_def wp_simps balanced_def)

section \<open>Shutdown, destruction and recreation\<close>

lemma shutdown_balance: "wp {} (client_shutdown K) (\<lambda>_ t. balanced K live s t) s"
proof -
  have "wp {} (guarded ''System error:'' (shutdownInternal K)) (\<lambda>_ t. balanced K live s (shutdown_end t)) (shutdown_begin s)"
    by (intro wp_guarded wp_weaken [OF wp_shutdown_balance [where live = live]])
      (auto simp: balanced_def held_def shutdown_begin_def shutdown_end_def)
  moreover have "balanced K live s s" by (simp add: balanced_def)
  ultimately show ?thesis
    unfolding client_shutdown_def fail_def
    by (simp add: wp_bind [of _ "readE _"] wp_read wp_if wp_ret wp_then wp_modify wp_finally)
qed

lemma destructor_balance: "wp {} (client_destructor K) (\<lambda>_ t. balanced K live s t \<and> held t = 0) s"
proof -
  have "wp {} (swallow (bindE (shutdownInternal K) (\<lambda>_. ret ()))) (\<lambda>_ t. balanced K live u t \<and> held t = 0) u" for u
    unfolding swallow_def
    by (rule wp_catch [where B = "{}"]) (auto simp: wp_bind wp_ret held_def intro: wp_weaken [OF wp_shutdown_balance])
  from this [of "wait_for_others (s\<lparr>m_terminated := True\<rparr>)"] show ?thesis
    unfolding client_destructor_def wp_then wp_modify
    by (rule wp_weaken) (auto simp: balanced_def held_def wait_for_others_def)
qed

text \<open>
  A candidate takes a client of the SDK before any object of the library owns it, so the balance
  holds again only when the scope is left, by a value or by an exception.
\<close>

definition settles :: "('s \<Rightarrow> 's \<Rightarrow> bool) \<Rightarrow> ('s, 'a) cpp \<Rightarrow> bool" where
  "settles R m \<longleftrightarrow> (\<forall>s r t. m s = (r, t) \<longrightarrow> r \<noteq> Diverge \<longrightarrow> r \<noteq> Fault \<longrightarrow> R s t)"

lemma settlesI: "(\<And>s r t. m s = (r, t) \<Longrightarrow> r \<noteq> Diverge \<Longrightarrow> r \<noteq> Fault \<Longrightarrow> R s t) \<Longrightarrow> settles R m"
  by (auto simp: settles_def)

lemma settlesD: "settles R m \<Longrightarrow> m s = (r, t) \<Longrightarrow> r \<noteq> Diverge \<Longrightarrow> r \<noteq> Fault \<Longrightarrow> R s t"
  by (auto simp: settles_def)

lemma settles_guar: "guar R m \<Longrightarrow> settles R m"
  by (rule settlesI) (metis guarD snd_conv)

context guarantee
begin

lemma settles_bind:
  assumes "settles R m" and "\<And>x. settles R (f x)"
  shows "settles R (bindE m f)"
proof (rule settlesI)
  fix s r t
  assume run: "bindE m f s = (r, t)" "r \<noteq> Diverge" "r \<noteq> Fault"
  obtain q u where m: "m s = (q, u)" by (cases "m s")
  show "R s t"
  proof (cases q)
    case (Ret x)
    with m run have "R s u" "f x u = (r, t)" using settlesD [OF assms(1) m] by (simp_all add: bindE_def)
    with run settlesD [OF assms(2)] show ?thesis by (blast intro: R_trans)
  qed (use m run settlesD [OF assms(1) m] in \<open>auto simp: bindE_def\<close>)
qed

lemma settles_handled: "settles R m \<Longrightarrow> settles R (guarded sys m)"
  by (auto simp: settles_def guarded_def catchE_run split: prod.splits outcome.splits)

lemma settles_option:
  "settles R m \<Longrightarrow> (\<And>x. settles R (f x)) \<Longrightarrow> settles R (case z of None \<Rightarrow> m | Some x \<Rightarrow> f x)"
  by (cases z) simp_all

lemma settles_if: "settles R m \<Longrightarrow> settles R k \<Longrightarrow> settles R (if b then m else k)"
  by simp

lemmas settles_intros = settles_bind settles_handled settles_option settles_if
  settles_guar [OF g_read] settles_guar [OF g_ret]

end

text \<open>What becomes of a candidate: installed or destroyed, its client is accounted for.\<close>

definition absorbs :: "'w sdk \<Rightarrow> ('w \<Rightarrow> int) \<Rightarrow> 'w impl \<Rightarrow> 'w client \<Rightarrow> 'w client \<Rightarrow> bool" where
  "absorbs K live new s t \<longleftrightarrow> borrowed t = borrowed s \<and> (live_documented K live \<longrightarrow>
     live (c_world t) - held t = live (c_world s) - held s - owned_by new)"

lemma adopt_absorbs: "wp {} (adopt_candidate K dtor new) (\<lambda>_ t. absorbs K live new s t) s"
proof -
  let ?u = "if dtor then s\<lparr>m_terminated := True\<rparr> else s"
  have u: "pImpl ?u = pImpl s" "borrowed ?u = borrowed s" "c_world ?u = c_world s" by simp_all
  have discard: "wp {} (dispose K True new) (\<lambda>_. absorbs K live new s) ?u"
    by (rule wp_weaken [OF dispose_gives_back [where live = live]])
      (use u in \<open>auto simp: disposed_def absorbs_def held_def\<close>)
  have install: "wp {} (case pImpl s of None \<Rightarrow> ret () | Some i \<Rightarrow> dispose K True i)
      (\<lambda>_. absorbs K live new s) (?u\<lparr>pImpl := Some new\<rparr>)"
  proof (cases "pImpl s")
    case None
    then show ?thesis using u by (simp add: wp_ret absorbs_def held_def)
  next
    case (Some i)
    have "wp {} (dispose K True i) (\<lambda>_. absorbs K live new s) (?u\<lparr>pImpl := Some new\<rparr>)"
      by (rule wp_weaken [OF dispose_gives_back [where live = live]])
        (use u Some in \<open>auto simp: disposed_def absorbs_def held_def\<close>)
    with Some show ?thesis by simp
  qed
  show ?thesis
    unfolding adopt_candidate_def fail_def
    using discard install by (cases dtor) (simp_all add: wp_then wp_modify wp_bind wp_read wp_if wp_ret_fun)
qed

lemma after_candidate_absorbs:
  assumes "after_candidate K dtor q new s = (r, t)" and "r \<noteq> Diverge" and "r \<noteq> Fault"
  shows "absorbs K live new s t"
proof -
  obtain d where d: "dispose K True new s = (Ret (), d)" "disposed K live True new s d"
    by (rule dispose_runs)
  have gone: "absorbs K live new s d" using d(2) by (auto simp: disposed_def absorbs_def held_def)
  obtain x a where a: "adopt_candidate K dtor new s = (Ret x, a)" "absorbs K live new s a"
    using adopt_absorbs [of K dtor new live s] by (auto simp: wp_def split: prod.splits outcome.splits)
  show ?thesis
  proof (cases q)
    case (Ret y)
    with assms(1) a d(1) gone show ?thesis
      by (cases y) (auto simp: after_candidate_def thenE_run bindE_run)
  qed (use assms d(1) gone in \<open>auto simp: after_candidate_def thenE_run bindE_run\<close>)
qed

lemma live_new:
  assumes "live_documented K live" and "sdk_clientNew K w = (x, evs, w')"
  shows "live w' = live w + (case x of Inr (Some _) \<Rightarrow> 1 | _ \<Rightarrow> 0)"
  using assms unfolding live_documented_def by (metis fst_conv snd_conv)

lemma recreate_try_settles: "settles (balanced K live) (recreate_try K n dtor cfg)"
proof (rule settlesI)
  fix s r t
  assume run: "recreate_try K n dtor cfg s = (r, t)" "r \<noteq> Diverge" "r \<noteq> Fault"
  obtain x evs w where new: "sdk_clientNew K (c_world s) = (x, evs, w)" by (metis prod.exhaust)
  note count = live_new [OF _ new]
  consider (none) "\<forall>c. x \<noteq> Inr (Some c)" | (some) c where "x = Inr (Some c)" by blast
  then show "balanced K live s t"
  proof cases
    case none
    then have "t = s\<lparr>c_world := w\<rparr>"
      using run new by (cases x) (auto simp: recreate_try_def bindE_run worldCall_def fail_def split: option.splits)
    moreover have "live_documented K live \<Longrightarrow> live w = live (c_world s)"
      using none count [of live] by (auto split: sum.splits option.splits)
    ultimately show ?thesis by (auto simp: balanced_def held_def)
  next
    case some
    let ?new = "new_impl K cfg (m_endpointUrl s) c w"
    obtain q j where up: "candidate_start K n (?new\<lparr>world := w\<rparr>) = (q, j)" by (metis prod.exhaust)
    have "keeps_live K live (?new\<lparr>world := w\<rparr>) j"
      using guarD [OF own_candidate [of K live n], of "?new\<lparr>world := w\<rparr>"] up by simp
    then have j: "live_documented K live \<Longrightarrow> owned_by j = 1 \<and> live (world j) = live (c_world s) + 1"
      using some count by (simp add: keeps_live_def owned_by_def new_impl_def)
    have "after_candidate K dtor q j (s\<lparr>c_world := world j\<rparr>) = (r, t)"
      using run(1) new some up by (simp add: recreate_try_def bindE_run worldCall_def with_local_def)
    from after_candidate_absorbs [OF this run(2,3), of live] j show ?thesis
      by (auto simp: absorbs_def balanced_def held_def)
  qed
qed

lemma recreate_balance:
  assumes "recreateGiveUpClient K n left dtor s = (Ret r, t)"
  shows "balanced K live s t"
proof -
  have wait: "guar (balanced K live) (worldCall (wait_ms K ms))" for ms
  proof (rule guarI)
    fix u :: "'a client"
    have "live_documented K live \<Longrightarrow> live (snd (snd (wait_ms K ms (c_world u)))) = live (c_world u)"
      by (simp add: live_documented_def)
    then show "balanced K live u (snd (worldCall (wait_ms K ms) u))"
      by (simp add: worldCall_def balanced_def held_def case_prod_unfold)
  qed
  have drain: "settles (balanced K live) (drain_leases K left)"
    unfolding drain_leases_def by (rule settles_guar) (intro balance.g_intros wait balance_modify; simp)
  have body: "settles (balanced K live) (recreate_body K n left dtor)"
    unfolding recreate_body_def fail_def by (intro balance.settles_intros drain recreate_try_settles)
  show ?thesis
  proof (cases "m_recreating s \<or> m_terminated s")
    case True
    with assms show ?thesis
      by (auto simp: recreateGiveUpClient_def bindE_readE fail_def balanced_def split: if_splits)
  next
    case False
    obtain q u where run: "recreate_body K n left dtor (set_recreating True s) = (q, u)" by (metis prod.exhaust)
    with False assms have "q = Ret r" "t = set_recreating False u"
      by (simp_all add: recreateGiveUpClient_def bindE_readE thenE_modifyE finallyE_def)
    with settlesD [OF body run] show ?thesis
      by (simp add: balanced_def held_def set_recreating_def)
  qed
qed

section \<open>Construction\<close>

text \<open>A client built from nothing owns what was created for it; one that is thrown away leaves nothing.\<close>

definition stocked :: "'w sdk \<Rightarrow> ('w \<Rightarrow> int) \<Rightarrow> 'w \<Rightarrow> 'w client \<Rightarrow> bool" where
  "stocked K live w c \<longleftrightarrow>
     \<not> borrowed c \<and> (live_documented K live \<longrightarrow> live (c_world c) - held c = live w)"

lemma stocked_balanced: "stocked K live w s \<Longrightarrow> balanced K live s t \<Longrightarrow> stocked K live w t"
  by (auto simp: stocked_def balanced_def)

lemma construct_stocks:
  assumes "construct K url cfg w = (r, w')"
  shows "case r of Ret c \<Rightarrow> stocked K live w c \<and> c_world c = w' | _ \<Rightarrow> live_documented K live \<longrightarrow> live w' = live w"
proof -
  obtain x evs v where new: "sdk_clientNew K w = (x, evs, v)" by (metis prod.exhaust)
  with assms live_new [OF _ new, of live] show ?thesis
    by (auto simp: construct_def stocked_def held_def owned_by_def new_impl_def split: sum.splits option.splits)
qed

lemma bring_up_balance: "guar (balanced K live) (bring_up K n d watchdog)"
  unfolding bring_up_def
  by (intro balance.l_intros balance.l_connect own_configure own_start)

lemma discard_empties: "stocked K live w c \<Longrightarrow> live_documented K live \<Longrightarrow> live (discard K c) = live w"
  using destructor_balance [of K live c]
  by (auto simp: discard_def stocked_def balanced_def wp_def split: prod.splits outcome.splits)

definition build_post :: "'w sdk \<Rightarrow> ('w \<Rightarrow> int) \<Rightarrow> 'w \<Rightarrow> ('w client, rich_error) result outcome \<times> 'w \<Rightarrow> bool" where
  "build_post K live w p = (case p of (r, w') \<Rightarrow> (case r of
       Ret (Success c) \<Rightarrow> stocked K live w c
     | Ret (Error _) \<Rightarrow> live_documented K live \<longrightarrow> live w' = live w
     | Throw _ \<Rightarrow> live_documented K live \<longrightarrow> live w' = live w
     | _ \<Rightarrow> True))"

lemma build_balance: "build_post K live w (build_client K n url cfg d wd w)"
proof -
  obtain r w' where made: "construct K url cfg w = (r, w')" by (metis prod.exhaust)
  note post = construct_stocks [OF made, of live]
  show ?thesis
  proof (cases r)
    case (Ret c)
    obtain q c' where up: "bring_up K n d wd c = (q, c')" by (metis prod.exhaust)
    have c: "stocked K live w c" using post Ret by simp
    have "balanced K live c c'" using guarD [OF bring_up_balance [of K live n d wd], of c] up by simp
    with c have c': "stocked K live w c'" by (rule stocked_balanced)
    then show ?thesis
      using made up Ret
      by (cases q) (auto simp: build_client_def bindE_run build_post_def discard_empties split: result.split)
  qed (use made post in \<open>simp_all add: build_client_def bindE_run build_post_def\<close>)
qed

lemma create_balance: "build_post K live w (create K n url cfg d w)"
proof -
  have "build_post K live w p \<Longrightarrow> build_post K live w (case p of (Throw e, t) \<Rightarrow> (Ret (Error (f e)), t) | r \<Rightarrow> r)" for p f
    by (auto simp: build_post_def split: prod.splits outcome.splits)
  from this [OF build_balance] show ?thesis
    by (simp add: create_def guarded_def catchE_def cong: outcome.case_cong prod.case_cong)
qed

section \<open>Sessions\<close>

text \<open>An object that is still there owns its client.\<close>

definition stands :: "'w client \<Rightarrow> bool" where
  "stands s \<longleftrightarrow> (\<forall>i. pImpl s = Some i \<longrightarrow> m_impl i \<noteq> None)"

lemma marks_stand: "keeps_marks s t \<Longrightarrow> stands s \<Longrightarrow> stands t"
  by (auto simp: keeps_marks_def stands_def split: option.splits)

lemmas leased_balance = balance.l_connect [THEN guarD] balance.l_disconnect [THEN guarD]
  balance.l_checkConnected [THEN guarD] balance.l_isHealthy [THEN guarD] balance.l_checkLifeState [THEN guarD]
  balance.l_setGiveUp [THEN guarD] balance.l_batchRead [THEN guarD] balance.l_batchWrite [THEN guarD]

lemma run_snd: "m s = (r, t) \<Longrightarrow> P (snd (m s)) \<Longrightarrow> P t"
  by simp

lemma performs_balance: "performs K c s e t \<Longrightarrow> balanced K live s t"
proof (induction rule: performs.induct)
  case (do_recreate n s r t)
  then show ?case by (rule recreate_balance)
next
  case (do_shutdown s r t)
  then show ?case by (rule wpD [OF shutdown_balance])
qed (erule run_snd, rule leased_balance)+

lemma performs_stand:
  assumes "performs K c s e t" and "stands s" and "session_ok s"
    and waits: "\<And>ms w. \<exists>x. fst (wait_ms K ms w) = Inr x"
  shows "stands t"
  using assms(1,2,3)
proof (induction rule: performs.induct)
  case (do_recreate n s r t)
  have "recreate_post False s r t"
    by (rule wpD [OF wp_recreate [OF waits] do_recreate(1)]) (use do_recreate(3) in \<open>simp add: session_ok_def\<close>)
  with do_recreate(2) show ?case
    by (cases r) (auto simp: recreate_post_def stands_def brought_up_def)
next
  case (do_shutdown s r t)
  have "shutdown_post s r t"
    by (rule wpD [OF wp_client_shutdown do_shutdown(1)]) (use do_shutdown(3) in \<open>simp add: session_ok_def\<close>)
  with do_shutdown(2) show ?case by (auto simp: shutdown_post_def stands_def split: if_splits)
qed (erule marks_stand [rotated], erule run_snd, rule leased_marks)+

lemma run_balance:
  assumes "run_calls K s cs t" and waits: "\<And>ms w. \<exists>x. fst (wait_ms K ms w) = Inr x"
    and "session_ok s" and "stands s" and "stocked K live w s"
  shows "stands t \<and> stocked K live w t"
  using assms(1,3-5)
proof (induction rule: run_calls.induct)
  case (run_cons c s e t cs u)
  note call = run_cons.hyps(1)
  have "session_ok t" using performs_ok [OF call run_cons.prems(1) waits] by simp
  moreover have "stands t" by (rule performs_stand [OF call run_cons.prems(2,1) waits])
  moreover have "stocked K live w t"
    by (rule stocked_balanced [OF run_cons.prems(3) performs_balance [OF call]])
  ultimately show ?case by (rule run_cons.IH)
qed simp

lemma stands_held: "stands s \<Longrightarrow> session_ok s \<Longrightarrow> held s = (if session_of s = Open then 1 else 0)"
  by (auto simp: stands_def session_ok_def session_of_def held_def owned_by_def)

lemma created_client:
  assumes "create K n url cfg d w = (Ret (Success c), w')"
  shows "session_ok c \<and> session_of c = Open \<and> stands c \<and> stocked K live w c"
proof -
  have "client_ready K True c" using wpD [OF wp_create [THEN conjunct1] assms] by simp
  then have "stands c" by (auto simp: client_ready_def stands_def brought_up_def)
  moreover have "stocked K live w c"
    using create_balance [of K live w n url cfg d] assms by (simp add: build_post_def)
  ultimately show ?thesis using created_session [OF assms] by simp
qed

lemma created_run:
  assumes "create K n url cfg d w = (Ret (Success c), w')" and "run_calls K c cs t"
    and "live_documented K live" and waits: "\<And>ms w. \<exists>x. fst (wait_ms K ms w) = Inr x"
  shows "live (c_world t) = live w + (if session_after Open cs = Open then 1 else 0)"
    and "live (c_world (snd (client_destructor K t))) = live w"
proof -
  note c = created_client [OF assms(1), of live]
  from run_balance [OF assms(2) waits, of live w] c have t: "stands t" "stocked K live w t" by simp_all
  have ok: "session_ok t" "session_of t = session_after Open cs" using run_ok [OF assms(2) waits] c by simp_all
  show "live (c_world t) = live w + (if session_after Open cs = Open then 1 else 0)"
    using t(2) assms(3) stands_held [OF t(1) ok(1)] ok(2) by (simp add: stocked_def)
  show "live (c_world (snd (client_destructor K t))) = live w"
    using discard_empties [OF t(2) assms(3)] by (simp add: discard_def)
qed

text \<open>
  C4: a session owns exactly one client of the SDK.  A factory call that fails has given back every
  client it took.  A client that \<open>create()\<close> returns owns one, through any sequence of calls, recreates
  that succeed or fail among them, until it is shut down, and none from then on; whenever it is
  destroyed, the SDK has as many clients as before it was made: none is leaked and none deleted
  twice.
\<close>

theorem session_leaks_nothing:
  assumes "live_documented K live" and "wall_documented K clk" and "max_polls \<le> n"
    and "\<And>ms w. \<exists>x. fst (wait_ms K ms w) = Inr x"
  shows "\<exists>r w'. create K n url cfg d w = (Ret r, w') \<and> (case r of
      Error _ \<Rightarrow> live w' = live w
    | Success c \<Rightarrow> (\<forall>cs t. run_calls K c cs t \<longrightarrow>
        live (c_world t) = live w + (if session_after Open cs = Open then 1 else 0) \<and>
        live (c_world (snd (client_destructor K t))) = live w))"
proof -
  obtain r w' where made: "create K n url cfg d w = (Ret r, w')"
    using returns_value [OF create_returns(1) [OF assms(2,3)]] by blast
  show ?thesis
  proof (cases r)
    case (Error e)
    with made create_balance [of K live w n url cfg d] assms(1) show ?thesis by (simp add: build_post_def)
  next
    case (Success c)
    with made show ?thesis using created_run [OF made [unfolded Success] _ assms(1,4)] by simp
  qed
qed

end
