(* ===== verification/Real_Sdk.thy ===== *)
theory Real_Sdk
  imports Impl_Lifecycle
begin

text \<open>
  \<open>src/OPCUAPacking/detail/RealSdk.h\<close>: how a client of open62541 is made and deleted, and who
  owns the configuration meanwhile.  The other members of \<open>RealSdk\<close> pass their arguments on
  unchanged and need no definition; the functions of open62541 that \<open>clientNew\<close> calls are a
  parameter.
\<close>

section \<open>Loggers and configurations\<close>

text \<open>
  A logger is its function, its context and its \<open>clear\<close> callback, \<open>None\<close> for a null pointer; of
  a configuration \<open>clientNew\<close> sees the logger, the rest is what \<open>setDefault\<close> has allocated.
\<close>

datatype log_function = Custom_Log | Library_Log nat

record ua_logger =
  lg_log :: log_function
  lg_context :: "nat option"
  lg_clear :: "nat option"

record lib_config =
  lc_logging :: "ua_logger option"
  lc_plugins :: nat

text \<open>\<open>customLogger()\<close>: the static logger of the library.\<close>

definition customLogger :: ua_logger where
  "customLogger = \<lparr>lg_log = Custom_Log, lg_context = None, lg_clear = None\<rparr>"

text \<open>After \<open>memset(&cfg_, 0, sizeof(cfg_))\<close>.\<close>

definition zero_config :: lib_config where
  "zero_config = \<lparr>lc_logging = None, lc_plugins = 0\<rparr>"

record 'w ua_lib =
  lib_good :: u32
  lib_setDefault :: "lib_config \<Rightarrow> 'w \<Rightarrow> (u32 \<times> lib_config) \<times> 'w"
  lib_configClear :: "lib_config \<Rightarrow> 'w \<Rightarrow> 'w"
  lib_newWithConfig :: "lib_config \<Rightarrow> 'w \<Rightarrow> nat option \<times> 'w"
  lib_delete :: "nat \<Rightarrow> 'w \<Rightarrow> 'w"

section \<open>Making and deleting a client\<close>

text \<open>
  Without a default logger the static one is used, whose null \<open>clear\<close> means that there is nothing
  to free; a default logger is redirected in place and keeps its \<open>clear\<close>.
\<close>

definition redirect_logger :: "lib_config \<Rightarrow> lib_config" where
  "redirect_logger c = (case lc_logging c of
       None \<Rightarrow> c\<lparr>lc_logging := Some customLogger\<rparr>
     | Some l \<Rightarrow> c\<lparr>lc_logging := Some (l\<lparr>lg_log := lg_log customLogger, lg_context := lg_context customLogger\<rparr>)\<rparr>)"

definition clientNew :: "'w ua_lib \<Rightarrow> lib_config option \<Rightarrow> 'w \<Rightarrow> nat option \<times> 'w" where
  "clientNew L cfg w = (case cfg of
       Some c \<Rightarrow> lib_newWithConfig L c w
     | None \<Rightarrow> (case lib_setDefault L zero_config w of ((rc, c), w1) \<Rightarrow>
         if rc \<noteq> lib_good L then (None, lib_configClear L c w1)
         else (case lib_newWithConfig L (redirect_logger c) w1 of
             (None, w2) \<Rightarrow> (None, lib_configClear L (redirect_logger c) w2)
           | (Some client, w2) \<Rightarrow> (Some client, w2))))"

definition clientDelete :: "'w ua_lib \<Rightarrow> nat option \<Rightarrow> 'w \<Rightarrow> 'w" where
  "clientDelete L c w = (case c of Some client \<Rightarrow> lib_delete L client w | None \<Rightarrow> w)"

section \<open>Ownership\<close>

text \<open>
  What open62541 documents.  \<open>heap\<close> is the memory allocated for configurations, and \<open>cost\<close> the part
  of it that a configuration owns, which depends on its plugins and on the logger's \<open>clear\<close>: nothing
  for a zeroed configuration.  \<open>setDefault\<close> allocates, on failure too; \<open>clear\<close> frees;
  \<open>newWithConfig\<close> takes the configuration over exactly when it succeeds; \<open>delete\<close> frees the
  client with the configuration it has taken over.
\<close>

definition clear_of :: "lib_config \<Rightarrow> nat option" where
  "clear_of c = (case lc_logging c of None \<Rightarrow> None | Some l \<Rightarrow> lg_clear l)"

definition lib_documented ::
  "'w ua_lib \<Rightarrow> ('w \<Rightarrow> int) \<Rightarrow> (nat \<Rightarrow> nat option \<Rightarrow> int) \<Rightarrow> ('w \<Rightarrow> nat \<rightharpoonup> lib_config) \<Rightarrow> bool" where
  "lib_documented L heap cost clients \<longleftrightarrow>
     cost 0 None = 0 \<and>
     (\<forall>c w rc c' w'. lib_setDefault L c w = ((rc, c'), w') \<longrightarrow>
        heap w' - cost (lc_plugins c') (clear_of c') = heap w - cost (lc_plugins c) (clear_of c) \<and>
        clients w' = clients w) \<and>
     (\<forall>c w. heap (lib_configClear L c w) = heap w - cost (lc_plugins c) (clear_of c) \<and>
        clients (lib_configClear L c w) = clients w) \<and>
     (\<forall>c w r w'. lib_newWithConfig L c w = (r, w') \<longrightarrow> heap w' = heap w \<and>
        (case r of None \<Rightarrow> clients w' = clients w
         | Some k \<Rightarrow> clients w k = None \<and> clients w' = (clients w)(k \<mapsto> c))) \<and>
     (\<forall>k c w. clients w k = Some c \<longrightarrow>
        heap (lib_delete L k w) = heap w - cost (lc_plugins c) (clear_of c) \<and>
        clients (lib_delete L k w) = (clients w)(k := None))"

lemma lib_facts:
  assumes "lib_documented L heap cost clients"
  shows "cost 0 None = 0"
    and "lib_setDefault L c w = ((rc, c'), w') \<Longrightarrow>
      heap w' - cost (lc_plugins c') (clear_of c') = heap w - cost (lc_plugins c) (clear_of c) \<and> clients w' = clients w"
    and "heap (lib_configClear L c w) = heap w - cost (lc_plugins c) (clear_of c)"
    and "clients (lib_configClear L c w) = clients w"
    and "lib_newWithConfig L c w = (None, w') \<Longrightarrow> heap w' = heap w \<and> clients w' = clients w"
    and "lib_newWithConfig L c w = (Some k, w') \<Longrightarrow>
      heap w' = heap w \<and> clients w k = None \<and> clients w' = (clients w)(k \<mapsto> c)"
    and "clients w k = Some c \<Longrightarrow> heap (lib_delete L k w) = heap w - cost (lc_plugins c) (clear_of c) \<and>
      clients (lib_delete L k w) = (clients w)(k := None)"
  using assms unfolding lib_documented_def by fastforce+

lemma redirect_cost [simp]:
  "lc_plugins (redirect_logger c) = lc_plugins c" "clear_of (redirect_logger c) = clear_of c"
  by (simp_all add: redirect_logger_def clear_of_def customLogger_def split: option.split)

lemma redirect_logs: "\<exists>l. lc_logging (redirect_logger c) = Some l \<and> lg_log l = Custom_Log \<and> lg_context l = None"
  by (simp add: redirect_logger_def customLogger_def split: option.split)

lemma clientNew_cases:
  assumes "lib_documented L heap cost clients"
  shows "case clientNew L None w of
      (None, w') \<Rightarrow> heap w' = heap w \<and> clients w' = clients w
    | (Some k, w') \<Rightarrow> clients w k = None \<and>
        (\<exists>c l. clients w' = (clients w)(k \<mapsto> c) \<and> lc_logging c = Some l \<and> lg_log l = Custom_Log \<and>
          lg_context l = None) \<and>
        heap (clientDelete L (Some k) w') = heap w \<and> clients (clientDelete L (Some k) w') = clients w"
proof -
  note doc = lib_facts [OF assms]
  obtain rc c w1 where def: "lib_setDefault L zero_config w = ((rc, c), w1)" by (metis prod.exhaust)
  from doc(2) [OF def] have w1: "heap w1 = heap w + cost (lc_plugins c) (clear_of c)" "clients w1 = clients w"
    by (simp_all add: zero_config_def clear_of_def doc(1))
  obtain r w2 where new: "lib_newWithConfig L (redirect_logger c) w1 = (r, w2)" by (metis prod.exhaust)
  show ?thesis
  proof (cases "rc = lib_good L \<and> r \<noteq> None")
    case True
    then obtain k where k: "r = Some k" by auto
    note made = doc(6) [OF new [unfolded k]]
    then have "clients w2 k = Some (redirect_logger c)" by simp
    from doc(7) [OF this] made True k def new w1 redirect_logs [of c] show ?thesis
      by (auto simp: clientNew_def clientDelete_def fun_upd_idem)
  next
    case False
    with def new w1 doc(5) [of "redirect_logger c" w1 w2] show ?thesis
      by (auto simp: clientNew_def doc(3,4))
  qed
qed

text \<open>In the count of clients: one more exactly on success, one less after \<open>clientDelete\<close>.\<close>

lemma clientNew_counts:
  assumes "lib_documented L heap cost clients" and "finite (dom (clients w))"
  shows "card (dom (clients (snd (clientNew L None w)))) =
    card (dom (clients w)) + (case fst (clientNew L None w) of None \<Rightarrow> 0 | Some _ \<Rightarrow> 1)"
  using clientNew_cases [OF assms(1), of w] assms(2)
  by (auto split: prod.splits option.splits simp: domIff)

text \<open>
  C33: \<open>RealSdk::clientNew(nullptr)\<close> neither leaks a configuration nor frees one twice.  When it
  fails, at \<open>setDefault\<close> or at \<open>newWithConfig\<close>, everything that was allocated has been freed and no
  client exists; when it succeeds the one new client logs through \<open>customLog\<close> and owns its
  configuration, and deleting it frees exactly what had been allocated.
\<close>

theorem clientNew_owns_config:
  assumes "lib_documented L heap cost clients"
  shows "case clientNew L None w of
      (None, w') \<Rightarrow> heap w' = heap w \<and> clients w' = clients w
    | (Some k, w') \<Rightarrow> clients w k = None \<and>
        (\<exists>c l. clients w' = (clients w)(k \<mapsto> c) \<and> lc_logging c = Some l \<and> lg_log l = Custom_Log \<and>
          lg_context l = None) \<and>
        heap (clientDelete L (Some k) w') = heap w \<and> clients (clientDelete L (Some k) w') = clients w"
  using assms by (rule clientNew_cases)

end
