(* ===== verification/Life_Protocol.thy ===== *)
theory Life_Protocol
  imports Impl_State
begin

text \<open>
  The life state under concurrency.  \<open>Impl_State\<close> runs each transition of
  \<open>m_lifeState\<close> as one step; here \<open>TurnToRecovring\<close>, \<open>TurnToRunning\<close>, \<open>TurnToGiveup\<close>
  and \<open>setGiveUpSignal\<close> of \<open>src/OPCUAPacking/ua.cpp\<close> are split at every atomic access
  (load, compare-exchange, store) and interleaved by any number of threads, a weak
  compare-exchange failing whenever it likes.  A test of \<open>isHealthyCached()\<close> may see
  either answer, as the callbacks write the cache at any time.
\<close>

section \<open>Threads\<close>

text \<open>Where a thread stands; the argument is its local \<open>expected\<close>.\<close>

datatype life_pc =
    P_idle
  | P_recover life_state      \<comment> \<open>\<open>TurnToRecovring\<close>: head of the loop\<close>
  | P_recover_cas             \<comment> \<open>the cache was unhealthy, before the exchange\<close>
  | P_recover_check           \<comment> \<open>after the exchange, before the second test\<close>
  | P_recover_back            \<comment> \<open>healthy again, before the exchange back\<close>
  | P_run life_state          \<comment> \<open>\<open>TurnToRunning\<close>: head of the loop\<close>
  | P_run_clear               \<comment> \<open>before \<open>connectionLost.store(false)\<close>\<close>
  | P_run_reset               \<comment> \<open>before \<open>resetGiveUpTimer()\<close>\<close>
  | P_giveup life_state       \<comment> \<open>\<open>TurnToGiveup\<close>: head of the loop\<close>
  | P_signal life_state       \<comment> \<open>\<open>setGiveUpSignal\<close>: head of the loop\<close>

text \<open>
  \<open>granted\<close> counts the calls of \<open>setGiveUpSignal()\<close> that returned success; it is a
  history variable.
\<close>

record life_sys =
  life :: life_state
  lost :: bool
  timer_running :: bool
  pcs :: "nat \<Rightarrow> life_pc"
  granted :: nat

definition at :: "nat \<Rightarrow> life_pc \<Rightarrow> life_sys \<Rightarrow> life_sys" where
  "at i pc s = s\<lparr>pcs := (pcs s)(i := pc)\<rparr>"

inductive life_step :: "life_sys \<Rightarrow> life_sys \<Rightarrow> bool" where
  call_recover: "pcs s i = P_idle \<Longrightarrow> life_step s (at i (P_recover (life s)) s)"
| recover_leave: "pcs s i = P_recover e \<Longrightarrow> e \<noteq> RUNNING \<Longrightarrow> life_step s (at i P_idle s)"
| recover_healthy: "pcs s i = P_recover RUNNING \<Longrightarrow> life_step s (at i P_idle s)"
| recover_unhealthy: "pcs s i = P_recover RUNNING \<Longrightarrow> life_step s (at i P_recover_cas s)"
| recover_cas: "pcs s i = P_recover_cas \<Longrightarrow> life s = RUNNING \<Longrightarrow>
     life_step s (at i P_recover_check (s\<lparr>life := RECOVERING\<rparr>))"
| recover_retry: "pcs s i = P_recover_cas \<Longrightarrow> life_step s (at i (P_recover (life s)) s)"
| recover_still_bad: "pcs s i = P_recover_check \<Longrightarrow> life_step s (at i P_idle s)"
| recover_good_again: "pcs s i = P_recover_check \<Longrightarrow> life_step s (at i P_recover_back s)"
| recover_back: "pcs s i = P_recover_back \<Longrightarrow>
     life_step s (at i P_idle (if life s = RECOVERING then s\<lparr>life := RUNNING\<rparr> else s))"
| call_run: "pcs s i = P_idle \<Longrightarrow> life_step s (at i (P_run (life s)) s)"
| run_leave: "pcs s i = P_run GIVEN_UP \<Longrightarrow> life_step s (at i P_idle s)"
| run_cas: "pcs s i = P_run e \<Longrightarrow> e \<noteq> GIVEN_UP \<Longrightarrow> life s = e \<Longrightarrow>
     life_step s (at i P_run_clear (s\<lparr>life := RUNNING\<rparr>))"
| run_retry: "pcs s i = P_run e \<Longrightarrow> e \<noteq> GIVEN_UP \<Longrightarrow> life_step s (at i (P_run (life s)) s)"
| run_clear: "pcs s i = P_run_clear \<Longrightarrow> life_step s (at i P_run_reset (s\<lparr>lost := False\<rparr>))"
| run_reset: "pcs s i = P_run_reset \<Longrightarrow> life_step s (at i P_idle (s\<lparr>timer_running := False\<rparr>))"
| call_giveup: "pcs s i = P_idle \<Longrightarrow>
     life_step s (at i (P_giveup (life s)) (s\<lparr>timer_running := True\<rparr>))"
| giveup_leave: "pcs s i = P_giveup GIVEN_UP \<Longrightarrow> life_step s (at i P_idle s)"
| giveup_cas: "pcs s i = P_giveup e \<Longrightarrow> e \<noteq> GIVEN_UP \<Longrightarrow> life s = e \<Longrightarrow>
     life_step s (at i P_idle (s\<lparr>life := GIVEN_UP\<rparr>))"
| giveup_retry: "pcs s i = P_giveup e \<Longrightarrow> e \<noteq> GIVEN_UP \<Longrightarrow> life_step s (at i (P_giveup (life s)) s)"
| call_signal: "pcs s i = P_idle \<Longrightarrow> life_step s (at i (P_signal (life s)) s)"
| signal_refused: "pcs s i = P_signal GIVEN_UP \<Longrightarrow> life_step s (at i P_idle s)"
| signal_cas: "pcs s i = P_signal e \<Longrightarrow> e \<noteq> GIVEN_UP \<Longrightarrow> life s = e \<Longrightarrow>
     life_step s (at i P_idle (s\<lparr>life := GIVEN_UP, granted := granted s + 1\<rparr>))"
| signal_retry: "pcs s i = P_signal e \<Longrightarrow> e \<noteq> GIVEN_UP \<Longrightarrow> life_step s (at i (P_signal (life s)) s)"
| inactivity: "life s \<noteq> GIVEN_UP \<Longrightarrow> life_step s (s\<lparr>lost := True\<rparr>)"
| bad_status: "life_step s (s\<lparr>timer_running := True\<rparr>)"

definition life_init :: life_sys where
  "life_init = \<lparr>life = RUNNING, lost = False, timer_running = False, pcs = (\<lambda>_. P_idle), granted = 0\<rparr>"

inductive life_reach :: "life_sys \<Rightarrow> life_sys \<Rightarrow> bool" for s where
  lreach_refl: "life_reach s s"
| lreach_step: "life_reach s t \<Longrightarrow> life_step t u \<Longrightarrow> life_reach s u"

lemma at_simps [simp]:
  "life (at i pc s) = life s" "lost (at i pc s) = lost s" "granted (at i pc s) = granted s"
  "timer_running (at i pc s) = timer_running s" "pcs (at i pc s) = (pcs s)(i := pc)"
  by (simp_all add: at_def)

section \<open>GIVEN_UP is final\<close>

lemma given_up_step: "life_step s t \<Longrightarrow> life s = GIVEN_UP \<Longrightarrow> life t = GIVEN_UP"
  by (induction rule: life_step.induct) auto

lemma given_up_reach: "life_reach s t \<Longrightarrow> life s = GIVEN_UP \<Longrightarrow> life t = GIVEN_UP"
  by (induction rule: life_reach.induct) (auto intro: given_up_step)

text \<open>
  In every interleaving of the four transitions, of any number of threads and
  with any spurious failure of a weak exchange, GIVEN_UP is final: no recovery that
  was already under way overwrites it.
\<close>

theorem given_up_absorbing:
  assumes "life_reach s t" and "life s = GIVEN_UP"
  shows "life t = GIVEN_UP"
  using assms by (rule given_up_reach)

definition granted_inv :: "life_sys \<Rightarrow> bool" where
  "granted_inv s \<longleftrightarrow> granted s \<le> 1 \<and> (granted s = 1 \<longrightarrow> life s = GIVEN_UP)"

lemma granted_step: "life_step s t \<Longrightarrow> granted_inv s \<Longrightarrow> granted_inv t"
  by (induction rule: life_step.induct) (auto simp: granted_inv_def)

lemma granted_reach: "life_reach s t \<Longrightarrow> granted_inv s \<Longrightarrow> granted_inv t"
  by (induction rule: life_reach.induct) (auto intro: granted_step)

text \<open>
  C13: however many threads race to give the client up, \<open>setGiveUpSignal()\<close> succeeds
  for at most one of them, and a success stands: the client is GIVEN_UP from then on.
\<close>

theorem give_up_granted_once:
  assumes "life_reach life_init s"
  shows "granted s \<le> 1 \<and> (granted s = 1 \<longrightarrow> life s = GIVEN_UP)"
  using granted_reach [OF assms] by (simp add: granted_inv_def life_init_def)

section \<open>The sequential operations are runs of the protocol\<close>

text \<open>The part of an \<open>Impl\<close> object the protocol is about.\<close>

definition life_view :: "'w impl \<Rightarrow> (nat \<Rightarrow> life_pc) \<Rightarrow> nat \<Rightarrow> life_sys" where
  "life_view s ps g = \<lparr>life = m_lifeState s, lost = connectionLost s,
     timer_running = (m_lastBadStatusMs s \<noteq> 0), pcs = ps, granted = g\<rparr>"

lemma lreach_trans: "life_reach t u \<Longrightarrow> life_reach s t \<Longrightarrow> life_reach s u"
  by (induction rule: life_reach.induct) (auto intro: lreach_step)

lemma lreach_cons: "life_step s t \<Longrightarrow> life_reach t u \<Longrightarrow> life_reach s u"
  by (rule lreach_trans [OF _ lreach_step [OF lreach_refl]])

lemma at_at [simp]: "at i p (at i q s) = at i p s"
  by (simp add: at_def)

lemma at_commute [simp]:
  "(at i p s)\<lparr>life := l\<rparr> = at i p (s\<lparr>life := l\<rparr>)"
  "(at i p s)\<lparr>lost := b\<rparr> = at i p (s\<lparr>lost := b\<rparr>)"
  "(at i p s)\<lparr>timer_running := b\<rparr> = at i p (s\<lparr>timer_running := b\<rparr>)"
  "(at i p s)\<lparr>granted := n\<rparr> = at i p (s\<lparr>granted := n\<rparr>)"
  by (simp_all add: at_def)

lemma at_idle: "pcs s i = P_idle \<Longrightarrow> at i P_idle s = s"
  by (simp add: at_def fun_upd_idem)

lemma run_alone:
  assumes "pcs s i = P_idle"
  shows "life_reach s (if life s = GIVEN_UP then s
    else s\<lparr>life := RUNNING, lost := False, timer_running := False\<rparr>)"
proof (cases "life s = GIVEN_UP")
  case True
  have "life_step s (at i (P_run GIVEN_UP) s)" using call_run [OF assms] True by simp
  moreover have "life_step (at i (P_run GIVEN_UP) s) s"
    using run_leave [of "at i (P_run GIVEN_UP) s" i] assms by (simp add: at_idle)
  ultimately show ?thesis using True by (auto intro: lreach_step lreach_refl)
next
  case False
  let ?u = "s\<lparr>life := RUNNING, lost := False, timer_running := False\<rparr>"
  have "life_step s (at i (P_run (life s)) s)" by (rule call_run [OF assms])
  moreover have "life_step (at i (P_run (life s)) s) (at i P_run_clear (s\<lparr>life := RUNNING\<rparr>))"
    using run_cas [of "at i (P_run (life s)) s" i "life s"] False by simp
  moreover have "life_step (at i P_run_clear (s\<lparr>life := RUNNING\<rparr>))
      (at i P_run_reset (s\<lparr>life := RUNNING, lost := False\<rparr>))"
    using run_clear [of "at i P_run_clear (s\<lparr>life := RUNNING\<rparr>)" i] by simp
  moreover have "life_step (at i P_run_reset (s\<lparr>life := RUNNING, lost := False\<rparr>)) ?u"
    using run_reset [of "at i P_run_reset (s\<lparr>life := RUNNING, lost := False\<rparr>)" i] assms by (simp add: at_idle)
  ultimately have "life_reach s ?u" by (meson lreach_refl lreach_step)
  then show ?thesis using False by simp
qed

lemma recover_alone:
  assumes "pcs s i = P_idle"
  shows "life_reach s (if life s = RUNNING \<and> \<not> healthy then s\<lparr>life := RECOVERING\<rparr> else s)"
proof -
  have call: "life_reach s (at i (P_recover (life s)) s)"
    by (rule lreach_step [OF lreach_refl call_recover [OF assms]])
  show ?thesis
  proof (cases "life s = RUNNING \<and> \<not> healthy")
    case True
    let ?u = "s\<lparr>life := RECOVERING\<rparr>"
    have "life_step (at i (P_recover (life s)) s) (at i P_recover_cas s)"
      using recover_unhealthy [of "at i (P_recover (life s)) s" i] True by simp
    moreover have "life_step (at i P_recover_cas s) (at i P_recover_check ?u)"
      using recover_cas [of "at i P_recover_cas s" i] True by simp
    moreover have "life_step (at i P_recover_check ?u) ?u"
      using recover_still_bad [of "at i P_recover_check ?u" i] assms by (simp add: at_idle)
    ultimately have "life_reach s ?u" using call by (meson lreach_step)
    then show ?thesis using True by simp
  next
    case False
    have "life_step (at i (P_recover (life s)) s) s"
    proof (cases "life s = RUNNING")
      case True
      then show ?thesis using recover_healthy [of "at i (P_recover (life s)) s" i] assms by (simp add: at_idle)
    next
      case False
      then show ?thesis using recover_leave [of "at i (P_recover (life s)) s" i "life s"] assms by (simp add: at_idle)
    qed
    with call False show ?thesis by (auto intro: lreach_step)
  qed
qed

lemma signal_alone:
  assumes "pcs s i = P_idle"
  shows "life_reach s (if life s = GIVEN_UP then s
    else s\<lparr>life := GIVEN_UP, granted := granted s + 1\<rparr>)"
proof -
  have call: "life_reach s (at i (P_signal (life s)) s)"
    by (rule lreach_step [OF lreach_refl call_signal [OF assms]])
  show ?thesis
  proof (cases "life s = GIVEN_UP")
    case True
    then have "life_step (at i (P_signal (life s)) s) s"
      using signal_refused [of "at i (P_signal (life s)) s" i] assms by (simp add: at_idle)
    with call True show ?thesis by (auto intro: lreach_step)
  next
    case False
    then have "life_step (at i (P_signal (life s)) s) (s\<lparr>life := GIVEN_UP, granted := granted s + 1\<rparr>)"
      using signal_cas [of "at i (P_signal (life s)) s" i "life s"] assms by (simp add: at_idle)
    with call False show ?thesis by (auto intro: lreach_step)
  qed
qed

text \<open>
  The transitions of the sequential model are runs of the interleaved one: seen
  through \<open>life_view\<close>, each of \<open>TurnToRunning\<close>, \<open>TurnToRecovring\<close> and
  \<open>setGiveUpSignal\<close> is what its thread does when no other interferes, a successful
  signal being counted.
\<close>

theorem life_transitions_refine:
  assumes "ps i = P_idle"
  shows "life_reach (life_view s ps g) (life_view (TurnToRunning s) ps g) \<and>
    life_reach (life_view s ps g) (life_view (TurnToRecovring K s) ps g) \<and>
    life_reach (life_view s ps g) (life_view (snd (setGiveUpSignal s)) ps
      (if is_success (fst (setGiveUpSignal s)) then g + 1 else g))"
proof (intro conjI)
  let ?v = "life_view s ps g"
  have idle: "pcs ?v i = P_idle" using assms by (simp add: life_view_def)
  show "life_reach ?v (life_view (TurnToRunning s) ps g)"
    using run_alone [OF idle]
    by (cases "m_lifeState s"; cases "m_lastBadStatusMs s = 0") (simp_all add: life_view_def TurnToRunning_def resetGiveUpTimer_def)
  show "life_reach ?v (life_view (TurnToRecovring K s) ps g)"
    using recover_alone [OF idle, of "isHealthyCached K s"]
    by (cases "m_lifeState s = RUNNING \<and> \<not> isHealthyCached K s")
      (auto simp: life_view_def TurnToRecovring_def Let_def isHealthyCached_def)
  show "life_reach ?v (life_view (snd (setGiveUpSignal s)) ps
      (if is_success (fst (setGiveUpSignal s)) then g + 1 else g))"
    using signal_alone [OF idle]
    by (cases "m_lifeState s") (simp_all add: life_view_def setGiveUpSignal_def)
qed

section \<open>A notification that is lost\<close>

text \<open>
  C40: an inactivity notification can be erased.  \<open>TurnToRunning()\<close> clears
  \<open>connectionLost\<close> after its exchange; a callback that sets the flag in between, on a
  thread that is inside another SDK call, leaves no trace: the client is RUNNING and
  nothing is left for the next watchdog decision to act on.
\<close>

theorem inactivity_can_be_erased:
  "\<exists>s t u. life_reach life_init s \<and> pcs s 0 = P_run_clear \<and> \<not> lost s \<and>
     life_step s t \<and> lost t \<and> pcs t = pcs s \<and>
     life_step t u \<and> \<not> lost u \<and> life u = RUNNING"
proof -
  let ?s = "at 0 P_run_clear life_init"
  have "life_step life_init (at 0 (P_run RUNNING) life_init)"
    using call_run [of life_init 0] by (simp add: life_init_def)
  moreover have "life_step (at 0 (P_run RUNNING) life_init) ?s"
    using run_cas [of "at 0 (P_run RUNNING) life_init" 0 RUNNING] by (simp add: life_init_def at_def)
  ultimately have "life_reach life_init ?s" by (meson lreach_refl lreach_step)
  moreover have "life_step ?s (?s\<lparr>lost := True\<rparr>)" by (rule inactivity) (simp add: life_init_def)
  moreover have "life_step (?s\<lparr>lost := True\<rparr>) (at 0 P_run_reset (?s\<lparr>lost := True, lost := False\<rparr>))"
    by (rule run_clear) simp
  ultimately show ?thesis
    by (intro exI [of _ ?s] exI [of _ "?s\<lparr>lost := True\<rparr>"]
        exI [of _ "at 0 P_run_reset (?s\<lparr>lost := True, lost := False\<rparr>)"]) (simp add: life_init_def)
qed

end
