(* ===== verification/Threads.thy ===== *)
theory Threads
  imports Prelude
begin

text \<open>
  Counting the threads of an interleaving by the place they have reached.  A protocol
  gives every thread number a place; a counter of the code (\<open>m_taskCounter\<close>,
  \<open>m_inFlight\<close>, a reference count) is then the number of threads in a set of places,
  and a step moves one thread.
\<close>

definition tcount :: "('p \<Rightarrow> bool) \<Rightarrow> (nat \<Rightarrow> 'p) \<Rightarrow> nat" where
  "tcount P f = card {i. P (f i)}"

text \<open>Only finitely many threads are away from a place where nothing is counted.\<close>

definition finite_away :: "'p \<Rightarrow> (nat \<Rightarrow> 'p) \<Rightarrow> bool" where
  "finite_away idle f \<longleftrightarrow> finite {i. f i \<noteq> idle}"

lemma finite_away_in: "finite_away idle f \<Longrightarrow> \<not> P idle \<Longrightarrow> finite {i. P (f i)}"
  unfolding finite_away_def by (rule rev_finite_subset) auto

lemma finite_away_upd: "finite_away idle f \<Longrightarrow> finite_away idle (f(i := p))"
proof -
  assume "finite_away idle f"
  then have "finite (insert i {j. f j \<noteq> idle})" by (simp add: finite_away_def)
  then show ?thesis unfolding finite_away_def by (rule rev_finite_subset) auto
qed

lemma tcount_upd:
  assumes "finite_away idle f" and "\<not> P idle"
  shows "tcount P (f(i := p)) = (if P (f i) then tcount P f - 1 else tcount P f) + (if P p then 1 else 0)"
proof -
  let ?S = "{j. P (f j)}"
  have fin: "finite ?S" using assms by (rule finite_away_in)
  have "{j. P ((f(i := p)) j)} = (if P p then insert i (?S - {i}) else ?S - {i})" by auto
  then show ?thesis using fin card_gt_0_iff [of ?S] by (auto simp: tcount_def card_insert_if insert_absorb)
qed

lemma tcount_same: "finite_away idle f \<Longrightarrow> \<not> P idle \<Longrightarrow> P (f i) = P p \<Longrightarrow> tcount P (f(i := p)) = tcount P f"
  using tcount_upd [of idle f P i p] finite_away_in [of idle f P] card_gt_0_iff [of "{j. P (f j)}"]
  by (auto simp: tcount_def)

lemma tcount_more: "finite_away idle f \<Longrightarrow> \<not> P idle \<Longrightarrow> \<not> P (f i) \<Longrightarrow> P p \<Longrightarrow> tcount P (f(i := p)) = tcount P f + 1"
  using tcount_upd [of idle f P i p] by simp

lemma tcount_less: "finite_away idle f \<Longrightarrow> \<not> P idle \<Longrightarrow> P (f i) \<Longrightarrow> \<not> P p \<Longrightarrow> tcount P f = tcount P (f(i := p)) + 1"
  using tcount_upd [of idle f P i p] finite_away_in [of idle f P] card_gt_0_iff [of "{j. P (f j)}"]
  by (auto simp: tcount_def)

lemma tcount_zero: "finite_away idle f \<Longrightarrow> \<not> P idle \<Longrightarrow> tcount P f = 0 \<longleftrightarrow> (\<forall>i. \<not> P (f i))"
  using finite_away_in [of idle f P] by (simp add: tcount_def)

lemma tcount_pos: "finite_away idle f \<Longrightarrow> \<not> P idle \<Longrightarrow> P (f i) \<Longrightarrow> 0 < tcount P f"
  using tcount_zero [of idle f P] by auto

lemma tcount_unique:
  assumes "finite_away idle f" and "\<not> P idle" and "tcount P f \<le> 1" and "P (f i)" and "P (f j)"
  shows "i = j"
proof -
  have "finite {k. P (f k)}" using assms(1,2) by (rule finite_away_in)
  then show ?thesis
    using assms(3-5) card_le_Suc0_iff_eq [of "{k. P (f k)}"] by (auto simp: tcount_def)
qed

lemma tcount_none [simp]: "(\<And>i. \<not> P (f i)) \<Longrightarrow> tcount P f = 0"
  by (simp add: tcount_def)

lemma tcount_mono:
  assumes "finite_away idle f" and "\<not> Q idle" and "\<And>p. P p \<Longrightarrow> Q p"
  shows "tcount P f \<le> tcount Q f"
proof -
  have "finite {i. Q (f i)}" using assms(1,2) by (rule finite_away_in)
  then show ?thesis unfolding tcount_def by (rule card_mono) (use assms(3) in auto)
qed

end
