(* ===== verification/Recreate_Protocol.thy ===== *)
theory Recreate_Protocol
  imports Threads
begin

text \<open>
  \<open>detail/RecreateSync.h\<close> and its users in \<open>src/OPCUAPacking/ua.cpp\<close>: the API lease,
  \<open>recreateGiveUpClient()\<close>, the winner and the losers of \<open>shutdown()\<close> and the
  destructor of the client, as threads that interleave at every critical section of
  \<open>m_recreateLock\<close> and \<open>m_lock\<close>.  What an operation does between two of them (connect,
  join, drain) is one place of its thread, where it may stay as long as it likes.
\<close>

section \<open>Threads\<close>

datatype sync_pc =
    A_idle
  | A_leased        \<comment> \<open>lease held, before the copy of \<open>this->pImpl\<close>\<close>
  | A_running       \<comment> \<open>inside the \<open>Impl\<close> operation, holding the copy\<close>
  | R_wait          \<comment> \<open>recreate: waiting for the leases to drain\<close>
  | R_check         \<comment> \<open>drained, before reading \<open>this->pImpl\<close>'s life state\<close>
  | R_build         \<comment> \<open>building and connecting the candidate\<close>
  | R_swap          \<comment> \<open>the candidate is ready, before the test of \<open>m_terminated\<close>\<close>
  | R_adopt         \<comment> \<open>the test passed, before the exchange of \<open>pImpl\<close>\<close>
  | R_old           \<comment> \<open>shutting the old object down\<close>
  | R_exit          \<comment> \<open>before the guard clears \<open>m_recreating\<close>\<close>
  | S_take          \<comment> \<open>shutdown winner, before moving \<open>pImpl\<close> out\<close>
  | S_drain         \<comment> \<open>inside \<open>doomed->shutdown()\<close>\<close>
  | S_exit          \<comment> \<open>before the guard decrements \<open>m_shutdownInFlight\<close>\<close>
  | D_wait          \<comment> \<open>destructor, waiting on \<open>m_recreateCv\<close>\<close>
  | D_take          \<comment> \<open>destructor, before moving \<open>pImpl\<close> out\<close>
  | D_free          \<comment> \<open>destructor, before the memory of the object goes\<close>

fun in_api :: "sync_pc \<Rightarrow> bool" where
  "in_api A_leased = True"
| "in_api A_running = True"
| "in_api _ = False"

fun in_recreate :: "sync_pc \<Rightarrow> bool" where
  "in_recreate R_wait = True"
| "in_recreate R_check = True"
| "in_recreate R_build = True"
| "in_recreate R_swap = True"
| "in_recreate R_adopt = True"
| "in_recreate R_old = True"
| "in_recreate R_exit = True"
| "in_recreate _ = False"

fun in_shutdown :: "sync_pc \<Rightarrow> bool" where
  "in_shutdown S_take = True"
| "in_shutdown S_drain = True"
| "in_shutdown S_exit = True"
| "in_shutdown _ = False"

fun in_destructor :: "sync_pc \<Rightarrow> bool" where
  "in_destructor D_wait = True"
| "in_destructor D_take = True"
| "in_destructor D_free = True"
| "in_destructor _ = False"

text \<open>Recreating with no lease left, and a destructor that has stopped waiting.\<close>

fun past_drain :: "sync_pc \<Rightarrow> bool" where
  "past_drain R_check = True"
| "past_drain R_build = True"
| "past_drain R_swap = True"
| "past_drain R_adopt = True"
| "past_drain R_old = True"
| "past_drain _ = False"

fun past_wait :: "sync_pc \<Rightarrow> bool" where
  "past_wait D_take = True"
| "past_wait D_free = True"
| "past_wait _ = False"

text \<open>
  \<open>RecreateSync\<close> with the pointer it guards.  \<open>impl_gen\<close> numbers the object \<open>pImpl\<close>
  points to; \<open>alive\<close> says that the memory of the \<open>OPC_UA_Client\<close> is still there and
  \<open>destroying\<close> that its owner has begun to destroy it, which happens once.
\<close>

record sync_state =
  recreating :: bool
  terminated :: bool
  inFlight :: nat
  shutdownInFlight :: nat
  impl_gen :: "nat option"
  next_gen :: nat
  alive :: bool
  destroying :: bool
  thread :: "nat \<Rightarrow> sync_pc"

definition goto :: "nat \<Rightarrow> sync_pc \<Rightarrow> sync_state \<Rightarrow> sync_state" where
  "goto i pc s = s\<lparr>thread := (thread s)(i := pc)\<rparr>"

inductive sync_step :: "sync_state \<Rightarrow> sync_state \<Rightarrow> bool" where
  lease_enter: "thread s i = A_idle \<Longrightarrow> alive s \<Longrightarrow> \<not> terminated s \<Longrightarrow> \<not> recreating s \<Longrightarrow>
     sync_step s (goto i A_leased (s\<lparr>inFlight := inFlight s + 1\<rparr>))"
| lease_copy: "thread s i = A_leased \<Longrightarrow> impl_gen s \<noteq> None \<Longrightarrow> sync_step s (goto i A_running s)"
| lease_null: "thread s i = A_leased \<Longrightarrow> impl_gen s = None \<Longrightarrow>
     sync_step s (goto i A_idle (s\<lparr>inFlight := inFlight s - 1\<rparr>))"
| lease_leave: "thread s i = A_running \<Longrightarrow>
     sync_step s (goto i A_idle (s\<lparr>inFlight := inFlight s - 1\<rparr>))"
| recreate_begin: "thread s i = A_idle \<Longrightarrow> alive s \<Longrightarrow> \<not> recreating s \<Longrightarrow> \<not> terminated s \<Longrightarrow>
     sync_step s (goto i R_wait (s\<lparr>recreating := True\<rparr>))"
| drained: "thread s i = R_wait \<Longrightarrow> inFlight s = 0 \<Longrightarrow> sync_step s (goto i R_check s)"
| drain_timeout: "thread s i = R_wait \<Longrightarrow> sync_step s (goto i R_exit s)"
| not_given_up: "thread s i = R_check \<Longrightarrow> sync_step s (goto i R_exit s)"
| given_up_found: "thread s i = R_check \<Longrightarrow> impl_gen s \<noteq> None \<Longrightarrow> sync_step s (goto i R_build s)"
| build_failed: "thread s i = R_build \<Longrightarrow> sync_step s (goto i R_exit s)"
| build_ok: "thread s i = R_build \<Longrightarrow> sync_step s (goto i R_swap s)"
| swap_terminated: "thread s i = R_swap \<Longrightarrow> terminated s \<Longrightarrow> sync_step s (goto i R_exit s)"
| swap_test: "thread s i = R_swap \<Longrightarrow> \<not> terminated s \<Longrightarrow> sync_step s (goto i R_adopt s)"
| adopt: "thread s i = R_adopt \<Longrightarrow>
     sync_step s (goto i R_old (s\<lparr>impl_gen := Some (next_gen s), next_gen := next_gen s + 1\<rparr>))"
| old_down: "thread s i = R_old \<Longrightarrow> sync_step s (goto i R_exit s)"
| recreate_end: "thread s i = R_exit \<Longrightarrow> sync_step s (goto i A_idle (s\<lparr>recreating := False\<rparr>))"
| shutdown_win: "thread s i = A_idle \<Longrightarrow> alive s \<Longrightarrow> \<not> recreating s \<Longrightarrow> \<not> terminated s \<Longrightarrow>
     sync_step s (goto i S_take (s\<lparr>terminated := True, shutdownInFlight := shutdownInFlight s + 1\<rparr>))"
| shutdown_take: "thread s i = S_take \<Longrightarrow> sync_step s (goto i S_drain (s\<lparr>impl_gen := None\<rparr>))"
| shutdown_drained: "thread s i = S_drain \<Longrightarrow> sync_step s (goto i S_exit s)"
| shutdown_end: "thread s i = S_exit \<Longrightarrow>
     sync_step s (goto i A_idle (s\<lparr>shutdownInFlight := shutdownInFlight s - 1\<rparr>))"
| destroy_begin: "thread s i = A_idle \<Longrightarrow> alive s \<Longrightarrow> \<not> destroying s \<Longrightarrow>
     sync_step s (goto i D_wait (s\<lparr>terminated := True, destroying := True\<rparr>))"
| destroy_go: "thread s i = D_wait \<Longrightarrow> \<not> recreating s \<Longrightarrow> shutdownInFlight s = 0 \<Longrightarrow>
     sync_step s (goto i D_take s)"
| destroy_take: "thread s i = D_take \<Longrightarrow> sync_step s (goto i D_free (s\<lparr>impl_gen := None\<rparr>))"
| destroy_free: "thread s i = D_free \<Longrightarrow> sync_step s (goto i A_idle (s\<lparr>alive := False\<rparr>))"

definition sync_init :: sync_state where
  "sync_init = \<lparr>recreating = False, terminated = False, inFlight = 0, shutdownInFlight = 0,
     impl_gen = Some 0, next_gen = 1, alive = True, destroying = False, thread = (\<lambda>_. A_idle)\<rparr>"

inductive sync_reach :: "sync_state \<Rightarrow> bool" where
  sreach_init: "sync_reach sync_init"
| sreach_step: "sync_reach s \<Longrightarrow> sync_step s t \<Longrightarrow> sync_reach t"

section \<open>Counting threads\<close>

definition count_in :: "(sync_pc \<Rightarrow> bool) \<Rightarrow> sync_state \<Rightarrow> nat" where
  "count_in P s = tcount P (thread s)"

definition finite_threads :: "sync_state \<Rightarrow> bool" where
  "finite_threads s \<longleftrightarrow> finite_away A_idle (thread s)"

lemma goto_simps [simp]:
  "thread (goto i pc s) = (thread s)(i := pc)" "recreating (goto i pc s) = recreating s"
  "terminated (goto i pc s) = terminated s" "inFlight (goto i pc s) = inFlight s"
  "shutdownInFlight (goto i pc s) = shutdownInFlight s" "impl_gen (goto i pc s) = impl_gen s"
  "next_gen (goto i pc s) = next_gen s" "alive (goto i pc s) = alive s"
  "destroying (goto i pc s) = destroying s"
  by (simp_all add: goto_def)

lemma finite_goto: "finite_threads s \<Longrightarrow> thread t = (thread s)(i := pc) \<Longrightarrow> finite_threads t"
  by (simp add: finite_threads_def finite_away_upd)

lemma count_goto:
  assumes "finite_threads s" and "\<not> P A_idle" and "thread t = (thread s)(i := pc)"
  shows "count_in P t = (if P (thread s i) then count_in P s - 1 else count_in P s) + (if P pc then 1 else 0)"
  using assms tcount_upd [of A_idle "thread s" P i pc] by (simp add: count_in_def finite_threads_def)

lemma count_zero: "finite_threads s \<Longrightarrow> \<not> P A_idle \<Longrightarrow> count_in P s = 0 \<longleftrightarrow> (\<forall>i. \<not> P (thread s i))"
  using tcount_zero [of A_idle "thread s" P] by (simp add: count_in_def finite_threads_def)

section \<open>The invariant\<close>

definition counters_ok :: "sync_state \<Rightarrow> bool" where
  "counters_ok s \<longleftrightarrow> finite_threads s \<and>
     inFlight s = count_in in_api s \<and>
     shutdownInFlight s = count_in in_shutdown s \<and>
     count_in in_recreate s = (if recreating s then 1 else 0) \<and>
     count_in in_destructor s \<le> (if destroying s \<and> alive s then 1 else 0)"

definition exclusion_ok :: "sync_state \<Rightarrow> bool" where
  "exclusion_ok s \<longleftrightarrow>
     shutdownInFlight s \<le> 1 \<and> (0 < shutdownInFlight s \<longrightarrow> terminated s \<and> \<not> recreating s) \<and>
     (destroying s \<longrightarrow> terminated s) \<and> (\<not> alive s \<longrightarrow> destroying s) \<and>
     (\<not> alive s \<longrightarrow> \<not> recreating s \<and> shutdownInFlight s = 0) \<and>
     (\<forall>i. past_wait (thread s i) \<longrightarrow> \<not> recreating s \<and> shutdownInFlight s = 0) \<and>
     (\<forall>i. past_drain (thread s i) \<longrightarrow> inFlight s = 0) \<and>
     (impl_gen s = None \<longrightarrow> terminated s \<and> \<not> recreating s)"

definition sync_inv :: "sync_state \<Rightarrow> bool" where
  "sync_inv s \<longleftrightarrow> counters_ok s \<and> exclusion_ok s"

lemma step_moves: "sync_step s t \<Longrightarrow> \<exists>i pc. thread t = (thread s)(i := pc)"
  by (induction rule: sync_step.induct) auto

text \<open>What the place of one thread says about the counters.\<close>

lemma place:
  assumes "counters_ok s" and "thread s i = pc"
  shows "(in_api pc \<longrightarrow> 0 < inFlight s) \<and> (in_recreate pc \<longrightarrow> recreating s) \<and>
    (in_shutdown pc \<longrightarrow> 0 < shutdownInFlight s) \<and>
    (in_destructor pc \<longrightarrow> destroying s \<and> alive s \<and> count_in in_destructor s = 1) \<and>
    (pc = A_idle \<longrightarrow> True)"
proof -
  have fin: "finite_threads s" using assms(1) by (simp add: counters_ok_def)
  have pos: "P (thread s i) \<Longrightarrow> \<not> P A_idle \<Longrightarrow> 0 < count_in P s" for P
    using count_zero [OF fin, of P] by auto
  show ?thesis
    using assms pos [of in_api] pos [of in_recreate] pos [of in_shutdown] pos [of in_destructor]
    by (auto simp: counters_ok_def split: if_splits)
qed

lemma counters_step:
  assumes "sync_step s t" and "sync_inv s"
  shows "counters_ok t"
proof -
  have inv: "counters_ok s" "exclusion_ok s" using assms(2) by (simp_all add: sync_inv_def)
  have fin: "finite_threads s" using inv by (simp add: counters_ok_def)
  from step_moves [OF assms(1)] obtain j pc where j: "thread t = (thread s)(j := pc)" by blast
  have fin_t: "finite_threads t" by (rule finite_goto [OF fin j])
  have cnt: "count_in P (goto i q u) = (if P (thread s i) then count_in P s - 1 else count_in P s) + (if P q then 1 else 0)"
    if "thread u = thread s" "\<not> P A_idle" for P i q u
    using that by (intro count_goto [OF fin]) auto
  note cnts = cnt [of _ in_api] cnt [of _ in_recreate] cnt [of _ in_shutdown] cnt [of _ in_destructor]
  have inv': "inFlight s = count_in in_api s" "shutdownInFlight s = count_in in_shutdown s"
    "count_in in_recreate s = (if recreating s then 1 else 0)"
    "count_in in_destructor s \<le> (if destroying s \<and> alive s then 1 else 0)"
    "\<not> alive s \<longrightarrow> destroying s"
    using inv by (simp_all add: counters_ok_def exclusion_ok_def)
  show ?thesis
    using assms(1)
    apply (cases rule: sync_step.cases)
    apply (frule place [OF inv(1)], use fin_t inv' in \<open>simp add: counters_ok_def cnts split: if_splits\<close>)+
    done
qed

text \<open>What the place of one thread implies for the flags, under the whole invariant.\<close>

lemma place_inv:
  assumes "sync_inv s" and "thread s i = pc"
  shows "(in_api pc \<longrightarrow> 0 < inFlight s) \<and> (in_recreate pc \<longrightarrow> recreating s) \<and>
    (in_shutdown pc \<longrightarrow> 0 < shutdownInFlight s) \<and>
    (past_wait pc \<longrightarrow> \<not> recreating s \<and> shutdownInFlight s = 0 \<and> destroying s) \<and>
    (past_drain pc \<longrightarrow> inFlight s = 0 \<and> recreating s)"
proof -
  have "counters_ok s" and ex: "exclusion_ok s" using assms(1) by (simp_all add: sync_inv_def)
  note pl = place [OF this(1) assms(2)]
  have "past_wait pc \<longrightarrow> \<not> recreating s \<and> shutdownInFlight s = 0" "past_drain pc \<longrightarrow> inFlight s = 0"
    using ex assms(2) unfolding exclusion_ok_def by blast+
  with pl show ?thesis by (cases pc) simp_all
qed

definition flags_ok :: "sync_state \<Rightarrow> bool" where
  "flags_ok s \<longleftrightarrow>
     shutdownInFlight s \<le> 1 \<and> (0 < shutdownInFlight s \<longrightarrow> terminated s \<and> \<not> recreating s) \<and>
     (destroying s \<longrightarrow> terminated s) \<and> (\<not> alive s \<longrightarrow> destroying s) \<and>
     (\<not> alive s \<longrightarrow> \<not> recreating s \<and> shutdownInFlight s = 0) \<and>
     (impl_gen s = None \<longrightarrow> terminated s \<and> \<not> recreating s)"

lemma flags_step:
  assumes "sync_step s t" and "sync_inv s"
  shows "flags_ok t"
proof -
  have fl: "flags_ok s" using assms(2) by (simp add: sync_inv_def exclusion_ok_def flags_ok_def)
  have ds: "in_destructor pc \<Longrightarrow> thread s i = pc \<Longrightarrow> destroying s" for pc i
    using place [of s i pc] assms(2) by (simp add: sync_inv_def)
  show ?thesis
    using assms(1)
    apply (cases rule: sync_step.cases)
    apply (frule place_inv [OF assms(2)], use fl in \<open>auto simp: flags_ok_def\<close>)+
    done
qed

lemma places_step:
  assumes "sync_step s t" and "sync_inv s"
  shows "(past_wait (thread t j) \<longrightarrow> \<not> recreating t \<and> shutdownInFlight t = 0) \<and>
    (past_drain (thread t j) \<longrightarrow> inFlight t = 0)"
proof -
  have fl: "flags_ok s" using assms(2) by (simp add: sync_inv_def exclusion_ok_def flags_ok_def)
  note pl = place_inv [OF assms(2) refl, of j]
  show ?thesis
    using assms(1)
    apply (cases rule: sync_step.cases)
    apply (frule place_inv [OF assms(2)], use fl pl in \<open>auto simp: flags_ok_def\<close>)+
    done
qed

lemma sync_inv_step: "sync_step s t \<Longrightarrow> sync_inv s \<Longrightarrow> sync_inv t"
  using counters_step [of s t] flags_step [of s t] places_step [of s t]
  by (simp add: sync_inv_def exclusion_ok_def flags_ok_def)

lemma sync_inv_init: "sync_inv sync_init"
  by (simp add: sync_inv_def counters_ok_def exclusion_ok_def sync_init_def finite_threads_def
    finite_away_def count_in_def)

lemma sync_reach_inv: "sync_reach s \<Longrightarrow> sync_inv s"
  by (induction rule: sync_reach.induct) (auto intro: sync_inv_init sync_inv_step)

section \<open>Exclusion and lifetime\<close>

lemma unique_in:
  assumes "finite_threads s" and "\<not> P A_idle" and "count_in P s \<le> 1"
    and "P (thread s i)" and "P (thread s j)"
  shows "i = j"
  using assms tcount_unique [of A_idle "thread s" P i j] by (simp add: count_in_def finite_threads_def)

lemmas reach_place = place_inv [OF sync_reach_inv refl]

lemma reach_counters:
  assumes "sync_reach s"
  shows "finite_threads s" and "count_in in_recreate s \<le> 1" and "count_in in_shutdown s \<le> 1"
  using sync_reach_inv [OF assms] by (simp_all add: sync_inv_def counters_ok_def exclusion_ok_def)

text \<open>
  C14: at every reachable point at most one thread is inside \<open>recreateGiveUpClient()\<close> and at
  most one is the winner of \<open>shutdown()\<close>, never both at once, and once a recreate has
  drained the leases no thread is inside a leased call until it ends.
\<close>

theorem recreate_excludes:
  assumes "sync_reach s"
  shows "(in_recreate (thread s i) \<longrightarrow> in_recreate (thread s j) \<longrightarrow> i = j) \<and>
    (in_shutdown (thread s i) \<longrightarrow> in_shutdown (thread s j) \<longrightarrow> i = j) \<and>
    \<not> (in_recreate (thread s i) \<and> in_shutdown (thread s j)) \<and>
    \<not> (past_drain (thread s i) \<and> in_api (thread s j))"
proof -
  note c = reach_counters [OF assms]
  have "flags_ok s" using sync_reach_inv [OF assms] by (simp add: sync_inv_def exclusion_ok_def flags_ok_def)
  then show ?thesis
    using unique_in [OF c(1) _ c(2), of i j] unique_in [OF c(1) _ c(3), of i j]
      reach_place [OF assms, of i] reach_place [OF assms, of j]
    by (auto simp: flags_ok_def)
qed

text \<open>
  When the destructor has stopped waiting, and ever after the memory of the client is
  gone, no thread is inside \<open>recreateGiveUpClient()\<close> and none is a \<open>shutdown()\<close> winner:
  neither touches a destroyed client.
\<close>

theorem destructor_waits:
  assumes "sync_reach s" and "\<not> alive s \<or> past_wait (thread s i)"
  shows "\<not> in_recreate (thread s j) \<and> \<not> in_shutdown (thread s j)"
proof -
  have "flags_ok s" using sync_reach_inv [OF assms(1)] by (simp add: sync_inv_def exclusion_ok_def flags_ok_def)
  then show ?thesis
    using assms(2) reach_place [OF assms(1), of i] reach_place [OF assms(1), of j] by (auto simp: flags_ok_def)
qed

text \<open>A client whose object is gone stays so: no recreate in progress can put one back.\<close>

lemma gone_step:
  assumes "sync_step s t" and "sync_inv s" and "impl_gen s = None"
  shows "impl_gen t = None"
proof -
  have "\<not> recreating s" using assms(2,3) by (simp add: sync_inv_def exclusion_ok_def)
  with assms(1,3) show ?thesis
    apply (cases rule: sync_step.cases)
    apply (frule place_inv [OF assms(2)], simp)+
    done
qed

text \<open>
  Once \<open>shutdown()\<close> or the destructor has taken \<open>pImpl\<close>, the client is terminated and
  no later step of any thread, a recreate that was already under way included, installs an
  object again.
\<close>

theorem gone_for_good:
  assumes "sync_reach s" and "impl_gen s = None" and "sync_step\<^sup>*\<^sup>* s t"
  shows "impl_gen t = None \<and> terminated t \<and> \<not> recreating t"
proof -
  from assms(3) have "sync_inv t \<and> impl_gen t = None"
  proof (induction rule: rtranclp_induct)
    case base
    show ?case using assms(1,2) by (simp add: sync_reach_inv)
  next
    case (step u v)
    then show ?case by (blast intro: sync_inv_step gone_step)
  qed
  then show ?thesis by (simp add: sync_inv_def exclusion_ok_def)
qed

text \<open>
  C18: the life of a client under every interleaving: when the destructor has stopped waiting,
  and ever after the memory is gone, no thread is inside a recreate and none is a winner of
  \<open>shutdown()\<close>; and once \<open>pImpl\<close> has been taken no later step of any thread, a recreate that
  was under way included, installs an object again.
\<close>

theorem client_lifetime:
  assumes "sync_reach s"
  shows "(\<not> alive s \<or> past_wait (thread s i) \<longrightarrow> \<not> in_recreate (thread s j) \<and> \<not> in_shutdown (thread s j)) \<and>
    (impl_gen s = None \<longrightarrow> (\<forall>t. sync_step\<^sup>*\<^sup>* s t \<longrightarrow> impl_gen t = None \<and> terminated t \<and> \<not> recreating t))"
  using destructor_waits [OF assms] gone_for_good [OF assms] by blast

text \<open>
  The destructor does not wait for leased calls: a call that holds its lease and has
  not yet copied \<open>pImpl\<close> can find the memory of the client gone.
\<close>

theorem lease_may_outlive_client:
  "\<exists>s. sync_reach s \<and> \<not> alive s \<and> thread s 0 = A_leased \<and> inFlight s = 1"
proof -
  define a where "a = goto 0 A_leased (sync_init\<lparr>inFlight := inFlight sync_init + 1\<rparr>)"
  define b where "b = goto 1 D_wait (a\<lparr>terminated := True, destroying := True\<rparr>)"
  define c where "c = goto 1 D_take b"
  define d where "d = goto 1 D_free (c\<lparr>impl_gen := None\<rparr>)"
  define e where "e = goto 1 A_idle (d\<lparr>alive := False\<rparr>)"
  note defs = a_def b_def c_def d_def e_def sync_init_def
  have a: "sync_reach a"
    unfolding a_def by (intro sreach_step [OF sreach_init] lease_enter) (simp_all add: sync_init_def)
  have b: "sync_reach b"
    using a unfolding b_def by (rule sreach_step, intro destroy_begin) (simp_all add: defs)
  have c: "sync_reach c"
    using b unfolding c_def by (rule sreach_step, intro destroy_go) (simp_all add: defs)
  have d: "sync_reach d"
    using c unfolding d_def by (rule sreach_step, intro destroy_take) (simp_all add: defs)
  have e: "sync_reach e"
    using d unfolding e_def by (rule sreach_step, intro destroy_free) (simp_all add: defs)
  show ?thesis by (rule exI [of _ e]) (simp add: e, simp add: defs)
qed

end
