(* ===== verification/Session_Protocol.thy ===== *)
theory Session_Protocol
  imports Session Recreate_Protocol
begin

text \<open>
  The two models of the public class meet: a sequence of calls of \<open>Client_Api\<close> is one of the
  executions of \<open>Recreate_Protocol\<close>, so what holds of every interleaving holds of it.
\<close>

section \<open>The client as a state of the protocol\<close>

text \<open>\<open>g\<close> numbers the object \<open>pImpl\<close> points to; between two calls every thread is idle.\<close>

definition sync_of :: "'w client \<Rightarrow> nat \<Rightarrow> sync_state" where
  "sync_of s g = \<lparr>recreating = m_recreating s, terminated = m_terminated s, inFlight = nat (m_inFlight s),
     shutdownInFlight = nat (m_shutdownInFlight s), impl_gen = (if pImpl s = None then None else Some g),
     next_gen = g + 1, alive = True, destroying = False, thread = (\<lambda>_. A_idle)\<rparr>"

abbreviation sync_later :: "sync_state \<Rightarrow> sync_state \<Rightarrow> bool" where
  "sync_later \<equiv> sync_step\<^sup>*\<^sup>*"

definition all_idle :: "sync_state \<Rightarrow> bool" where
  "all_idle s \<longleftrightarrow> thread s = (\<lambda>_. A_idle) \<and> alive s"

lemma sync_of_idle [simp]: "all_idle (sync_of s g)"
  by (simp add: all_idle_def sync_of_def)

section \<open>The operations that change the object, alone\<close>

lemma one_step: "sync_later s t \<Longrightarrow> sync_step t u \<Longrightarrow> sync_later s u"
  by (rule rtranclp.rtrancl_into_rtrancl)

lemma recreate_path:
  assumes "all_idle s" "\<not> recreating s" "\<not> terminated s" "inFlight s = 0" "impl_gen s \<noteq> None"
  shows "sync_later s (s\<lparr>impl_gen := Some (next_gen s), next_gen := next_gen s + 1\<rparr>)"
proof -
  define a where "a = goto 0 R_wait (s\<lparr>recreating := True\<rparr>)"
  define b where "b = goto 0 R_check a"
  define c where "c = goto 0 R_build b"
  define d where "d = goto 0 R_swap c"
  define e where "e = goto 0 R_adopt d"
  define f where "f = goto 0 R_old (e\<lparr>impl_gen := Some (next_gen e), next_gen := next_gen e + 1\<rparr>)"
  define h where "h = goto 0 R_exit f"
  define k where "k = goto 0 A_idle (h\<lparr>recreating := False\<rparr>)"
  note defs = a_def b_def c_def d_def e_def f_def h_def k_def
  have "sync_later s a"
    using assms unfolding a_def by (intro r_into_rtranclp recreate_begin) (simp_all add: all_idle_def)
  from this assms(4) have "sync_later s b"
    unfolding b_def by - ((rule one_step, assumption, intro drained); simp add: a_def)
  from this assms(5) have "sync_later s c"
    unfolding c_def by - ((rule one_step, assumption, intro given_up_found); simp add: b_def a_def)
  then have "sync_later s d" unfolding d_def by (rule one_step, intro build_ok) (simp add: c_def)
  from this assms(3) have "sync_later s e"
    unfolding e_def by - ((rule one_step, assumption, intro swap_test); simp add: defs)
  then have "sync_later s f" unfolding f_def by (rule one_step, intro adopt) (simp add: e_def)
  then have "sync_later s h" unfolding h_def by (rule one_step, intro old_down) (simp add: f_def)
  then have "sync_later s k" unfolding k_def by (rule one_step, intro recreate_end) (simp add: h_def)
  moreover have "k = s\<lparr>impl_gen := Some (next_gen s), next_gen := next_gen s + 1\<rparr>"
    using assms(1,2) by (simp add: defs goto_def all_idle_def fun_upd_idem_iff)
  ultimately show ?thesis by simp
qed

lemma shutdown_path:
  assumes "all_idle s" "\<not> recreating s" "\<not> terminated s"
  shows "sync_later s (s\<lparr>terminated := True, impl_gen := None\<rparr>)"
proof -
  define a where "a = goto 0 S_take (s\<lparr>terminated := True, shutdownInFlight := shutdownInFlight s + 1\<rparr>)"
  define b where "b = goto 0 S_drain (a\<lparr>impl_gen := None\<rparr>)"
  define c where "c = goto 0 S_exit b"
  define d where "d = goto 0 A_idle (c\<lparr>shutdownInFlight := shutdownInFlight c - 1\<rparr>)"
  note defs = a_def b_def c_def d_def
  have "sync_later s a"
    using assms unfolding a_def by (intro r_into_rtranclp shutdown_win) (simp_all add: all_idle_def)
  then have "sync_later s b" unfolding b_def by (rule one_step, intro shutdown_take) (simp add: a_def)
  then have "sync_later s c" unfolding c_def by (rule one_step, intro shutdown_drained) (simp add: b_def)
  then have "sync_later s d" unfolding d_def by (rule one_step, intro shutdown_end) (simp add: c_def)
  moreover have "d = s\<lparr>terminated := True, impl_gen := None\<rparr>"
    using assms(1) by (simp add: defs goto_def all_idle_def fun_upd_idem_iff)
  ultimately show ?thesis by simp
qed

lemma destroy_path:
  assumes "all_idle s" "\<not> recreating s" "\<not> destroying s" "shutdownInFlight s = 0"
  shows "sync_later s (s\<lparr>terminated := True, destroying := True, impl_gen := None, alive := False\<rparr>)"
proof -
  define a where "a = goto 0 D_wait (s\<lparr>terminated := True, destroying := True\<rparr>)"
  define b where "b = goto 0 D_take a"
  define c where "c = goto 0 D_free (b\<lparr>impl_gen := None\<rparr>)"
  define d where "d = goto 0 A_idle (c\<lparr>alive := False\<rparr>)"
  note defs = a_def b_def c_def d_def
  have "sync_later s a"
    using assms unfolding a_def by (intro r_into_rtranclp destroy_begin) (simp_all add: all_idle_def)
  from this assms have "sync_later s b"
    unfolding b_def by - ((rule one_step, assumption, intro destroy_go); simp add: a_def)
  then have "sync_later s c" unfolding c_def by (rule one_step, intro destroy_take) (simp add: b_def)
  then have "sync_later s d" unfolding d_def by (rule one_step, intro destroy_free) (simp add: c_def)
  moreover have "d = s\<lparr>terminated := True, destroying := True, impl_gen := None, alive := False\<rparr>"
    using assms(1) by (simp add: defs goto_def all_idle_def fun_upd_idem_iff)
  ultimately show ?thesis by simp
qed

section \<open>A session is an execution of the protocol\<close>

text \<open>The successful recreates of a run: each puts a new object in the client.\<close>

fun recreates :: "(call \<times> error_code option) list \<Rightarrow> nat" where
  "recreates [] = 0"
| "recreates ((Call_recreate n, None) # cs) = recreates cs + 1"
| "recreates (_ # cs) = recreates cs"

lemma recreates_cons: "recreates ((c, e) # cs) = recreates [(c, e)] + recreates cs"
  by (cases c; cases e) simp_all

lemma marks_sync: "keeps_marks s t \<Longrightarrow> sync_of t g = sync_of s g"
  by (auto simp: keeps_marks_def sync_of_def split: option.splits)

lemma leased_sync:
  "keeps_marks s (snd (m s)) \<Longrightarrow> m s = (Ret r, t) \<Longrightarrow> sync_later (sync_of s g) (sync_of t (g + 0))"
  using marks_sync [of s t g] by simp

lemma recreate_sync:
  assumes "recreate_post False s r t" and "session_ok s"
  shows "sync_later (sync_of s g) (sync_of t (g + recreates [(Call_recreate n, map_option err_code (get_error r))]))"
proof (cases r)
  case (Error e)
  with assms have "sync_of t g = sync_of s g" by (auto simp: recreate_post_def session_ok_def sync_of_def)
  with Error show ?thesis by simp
next
  case (Success u)
  with assms have "sync_of t (g + 1) = sync_of s g\<lparr>impl_gen := Some (g + 1), next_gen := g + 2\<rparr>"
    and "\<not> m_recreating s" "\<not> m_terminated s" "pImpl s \<noteq> None" "m_inFlight s = 0"
    by (auto simp: recreate_post_def session_ok_def sync_of_def gave_up_def)
  then show ?thesis
    using recreate_path [of "sync_of s g"] Success by (simp add: sync_of_def all_idle_def)
qed

lemma shutdown_sync:
  assumes "shutdown_post s r t" and "session_ok s"
  shows "sync_later (sync_of s g) (sync_of t g)"
proof (cases "m_terminated s")
  case True
  with assms have "t = s" by (simp add: shutdown_post_def session_ok_def)
  then show ?thesis by simp
next
  case False
  with assms have "sync_of t g = sync_of s g\<lparr>terminated := True, impl_gen := None\<rparr>"
    by (simp add: shutdown_post_def session_ok_def sync_of_def)
  then show ?thesis
    using shutdown_path [of "sync_of s g"] False assms(2)
    by (simp add: session_ok_def) (simp add: sync_of_def all_idle_def)
qed

lemma performs_sync:
  assumes "performs K c s e t" and "session_ok s" and waits: "\<And>ms w. \<exists>x. fst (wait_ms K ms w) = Inr x"
  shows "sync_later (sync_of s g) (sync_of t (g + recreates [(c, e)]))"
  using assms(1)
proof (cases rule: performs.cases)
  case (do_recreate n r)
  have "recreate_post False s r t"
    by (rule wpD [OF wp_recreate [OF waits] do_recreate(3)]) (use assms(2) in \<open>simp add: session_ok_def\<close>)
  from recreate_sync [OF this assms(2)] do_recreate show ?thesis by simp
next
  case (do_shutdown r)
  have "shutdown_post s r t"
    by (rule wpD [OF wp_client_shutdown do_shutdown(3)]) (use assms(2) in \<open>simp add: session_ok_def\<close>)
  from shutdown_sync [OF this assms(2)] do_shutdown show ?thesis by simp
qed (simp only: recreates.simps, rule leased_sync, rule leased_marks, assumption)+

lemma run_sync:
  assumes "run_calls K s cs t" and "\<And>ms w. \<exists>x. fst (wait_ms K ms w) = Inr x" and "session_ok s"
  shows "sync_later (sync_of s g) (sync_of t (g + recreates cs))"
  using assms(1,3)
proof (induction arbitrary: g rule: run_calls.induct)
  case (run_cons c s e t cs u)
  have "sync_later (sync_of s g) (sync_of t (g + recreates [(c, e)]))"
    by (rule performs_sync [OF run_cons.hyps(1) run_cons.prems assms(2)])
  moreover have "sync_later (sync_of t (g + recreates [(c, e)])) (sync_of u (g + recreates [(c, e)] + recreates cs))"
    using performs_ok [OF run_cons.hyps(1) run_cons.prems assms(2)] by (intro run_cons.IH) simp
  ultimately show ?case unfolding recreates_cons [of c e cs] by (simp add: add.assoc)
qed simp

lemma created_sync:
  "create K n url cfg d w = (Ret (Success c), w') \<Longrightarrow> sync_of c 0 = sync_init"
  using created_session [of K n url cfg d w c w']
  by (auto simp: sync_of_def sync_init_def session_ok_def session_of_def split: if_splits)

lemma wp_destructor_gone: "wp {} (client_destructor K) (\<lambda>_ t. pImpl t = None \<and> m_terminated t) s"
proof -
  have "wp {} (swallow (bindE (shutdownInternal K) (\<lambda>_. ret ()))) (\<lambda>_ t. pImpl t = None \<and> m_terminated t) u"
    if "m_terminated u" for u
    unfolding swallow_def
    by (rule wp_catch [where B = "{}"]) (auto simp: wp_bind wp_ret that intro!: wp_shutdownInternal)
  then show ?thesis
    unfolding client_destructor_def wp_then wp_modify by (simp add: wait_for_others_def)
qed

lemma destructor_sync:
  assumes "session_ok s"
  shows "\<exists>d u. client_destructor K s = (Ret (), u) \<and> sync_later (sync_of s g) d \<and> \<not> alive d \<and>
    impl_gen d = None \<and> pImpl u = None \<and> terminated d \<and> m_terminated u"
proof -
  obtain u where "client_destructor K s = (Ret (), u)" "pImpl u = None" "m_terminated u"
    using wp_destructor_gone [of K s] by (auto simp: wp_def split: prod.splits outcome.splits)
  moreover have "sync_later (sync_of s g)
      (sync_of s g\<lparr>terminated := True, destroying := True, impl_gen := None, alive := False\<rparr>)"
    using assms by (intro destroy_path) (simp_all add: session_ok_def, simp_all add: sync_of_def)
  ultimately show ?thesis by (intro exI conjI) (assumption | simp)+
qed

text \<open>
  C16: every session of the public class is one execution of \<open>Recreate_Protocol\<close>: the calls
  take the protocol from its initial state to the state that shows the marks of the client,
  with an object whose number is the number of successful recreates while the session is
  open and none afterwards; the destructor then goes on to the end of the protocol.
\<close>

theorem session_is_execution:
  assumes "create K n url cfg d w = (Ret (Success c), w')" and "run_calls K c cs t"
    and "\<And>ms w. \<exists>x. fst (wait_ms K ms w) = Inr x"
  shows "sync_later sync_init (sync_of t (recreates cs)) \<and>
    impl_gen (sync_of t (recreates cs)) = (if session_after Open cs = Open then Some (recreates cs) else None) \<and>
    (\<exists>e u. client_destructor K t = (Ret (), u) \<and> sync_later (sync_of t (recreates cs)) e \<and> \<not> alive e \<and>
      impl_gen e = None \<and> pImpl u = None \<and> terminated e \<and> m_terminated u)"
proof -
  note ok = created_session [OF assms(1)]
  note run = run_ok [OF assms(2,3)]
  have "session_ok t" "session_of t = session_after Open cs" using run ok by simp_all
  moreover from this have "impl_gen (sync_of t (recreates cs)) =
      (if session_after Open cs = Open then Some (recreates cs) else None)"
    by (auto simp: sync_of_def session_ok_def session_of_def split: if_splits)
  moreover have "sync_later sync_init (sync_of t (recreates cs))"
    using run_sync [OF assms(2,3), of 0] ok created_sync [OF assms(1)] by simp
  ultimately show ?thesis using destructor_sync [of t K "recreates cs"] by blast
qed

end
