(* ===== verification/Witnesses.thy ===== *)
theory Witnesses
  imports Sim_Sdk Ownership Real_Sdk Batch_Facts Timing Life_Protocol Session_Protocol
begin

text \<open>
  The hypotheses of the properties can hold: each property that has one is applied at a
  concrete input, with the SDK of \<open>Sim_Sdk\<close> in the place of the parameter.
\<close>

section \<open>Evaluating the model\<close>

lemmas run_simps = outcome_simps in_flight_def cas_guard_def task_begin_def task_end_def sdkCall_def
  getEffectiveStopSignal_def nowMsImpl_def callRunIterate_def updateBadStatusTime_def

lemmas sim_state_defs = sim_fresh_def sim_online_def new_impl_def sim_world_def

lemmas triple_defs = triple_ready_def isHealthyCached_def tryPublishIfUnchanged_def next_packed_def unpack_pack
  TurnToRunning_def resetGiveUpTimer_def updatePacked_def

lemmas eval_simps = isConnected_def run_simps sim_state_defs sim_defs triple_defs

lemma ran: "fst (m s) = r \<Longrightarrow> m s = (r, snd (m s))"
  by (cases "m s") simp

section \<open>Documented behaviours hold of the simulator\<close>

lemma sim_wall: "wall_documented sim_sdk sim_ns"
  by (simp add: wall_documented_def sim_sdk_def sim_pass_def sim_connect_def sim_disconnect_def)

lemma sim_counter: "service_counter sim_sdk sim_services"
  by (simp add: service_counter_def sim_sdk_def sim_pass_def sim_connect_def sim_disconnect_def sim_read_def
      sim_write_def split: list.split)

lemma sim_clocks: "clocks_documented sim_sdk"
  by (simp add: clocks_documented_def sim_sdk_def)

lemma sim_reads: "reads_documented sim_sdk"
  using sim_scalar
  by (auto simp: reads_documented_def sim_sdk_def sim_read_def variant_wf_def split: list.splits)

lemma sim_writes: "writes_documented sim_sdk"
  by (auto simp: writes_documented_def sim_sdk_def sim_write_def)

section \<open>Values and snapshots\<close>

definition sim_variant :: ua_variant where
  "sim_variant = \<lparr>v_type = Some UA_INT32, v_arrayLength = 0, v_data = D_Cell (C_int32 7)\<rparr>"

theorem read_dispatch_correct_witness:
  "read_dispatch sim_sdk S7_DINT sim_variant None = Ret (read_spec sim_sdk S7_DINT sim_variant None) \<and>
   scalar_documented sim_sdk \<and> variant_wf sim_variant"
proof -
  have "variant_wf sim_variant" by (simp add: variant_wf_def sim_variant_def)
  with read_dispatch_correct [OF sim_scalar this] sim_scalar show ?thesis by simp
qed

definition sim_item :: write_value where
  "sim_item = \<lparr>wv_nodeId = \<lparr>ni_ns = 0, ni_type = IDT_NUMERIC, ni_numeric = 0,
       ni_string = \<lparr>us_length = 0, us_data = None\<rparr>\<rparr>, wv_attributeId = ATTR_VALUE, wv_hasValue = False,
     wv_value = \<lparr>v_type = None, v_arrayLength = 0, v_data = D_Null\<rparr>\<rparr>"

lemma sim_dispatch: "\<exists>d w. write_dispatch sim_sdk S7_STRING sim_item (V_string ''ON'') sim_world = (Ret (Success (), d), w)"
  by (simp add: write_dispatch_def write_convert_def write_convert_string_def copy_into_def outcome_simps
      containsEmbeddedNul_def sim_defs sim_string_def)

theorem write_read_roundtrip_witness:
  "\<exists>dst :: write_value. wv_hasValue dst \<and> read_dispatch sim_sdk S7_STRING (wv_value dst) None = Ret (Success (), Some (V_string ''ON''))"
proof -
  obtain d w where "write_dispatch sim_sdk S7_STRING sim_item (V_string ''ON'') sim_world = (Ret (Success (), d), w)"
    using sim_dispatch by blast
  from write_read_roundtrip [OF sim_copy sim_scalar sim_strings this, of None] show ?thesis by blast
qed

theorem write_dispatch_rejects_witness:
  "\<exists>msg. write_dispatch sim_sdk S7_DINT sim_item (V_bool True) sim_world =
     (Ret (Error (RichError EC_TYPE_MISMATCH msg), sim_item), sim_world)"
  by (rule write_dispatch_rejects) (simp add: write_reject_code_def cell_of_def)

definition sim_node :: node_id where
  "sim_node = \<lparr>nd_ns = 3, nd_id = K_string ''Motor'', nd_dataType = S7_DINT\<rparr>"

lemma sim_alloc: "\<exists>n. uaNodeIDAlloc sim_sdk sim_node empty_nodeid sim_world = (Ret (Success (), n), sim_world)"
  by (simp add: uaNodeIDAlloc_def sim_node_def outcome_simps containsEmbeddedNul_def sim_defs sim_string_def c_str_def)

theorem uaNodeIDAlloc_exact_witness:
  "\<exists>n :: ua_nodeid. ni_ns n = 3 \<and> ni_string n = \<lparr>us_length = 5, us_data = Some ''Motor''\<rparr>"
proof -
  obtain n where "uaNodeIDAlloc sim_sdk sim_node empty_nodeid sim_world = (Ret (Success (), n), sim_world)"
    using sim_alloc by blast
  from uaNodeIDAlloc_exact [OF sim_strings this, of "''Motor''"] show ?thesis
    by (intro exI [of _ n]) (simp add: sim_node_def numeral_eq_Suc)
qed

text \<open>A probe that loads the snapshot and publishes with nothing in between.\<close>

definition probe_loaded :: snapshot_sys where
  "probe_loaded = (snapshot_init 0)\<lparr>writers := (writers (snapshot_init 0))(0 := W_publish 0 0)\<rparr>"

lemma probe_loaded_reach: "snapshot_reach 0 probe_loaded"
  using snapshot_step.publish_load [of "snapshot_init 0" 0] reach_step [OF reach_init]
  by (fastforce simp: probe_loaded_def snapshot_init_def)

lemma probe_publishes: "\<exists>t. snapshot_step probe_loaded (L_publish 0) t"
proof
  show "snapshot_step probe_loaded (L_publish 0) (probe_loaded\<lparr>cell := next_packed 0 0 11 4,
      writers := (writers probe_loaded)(0 := W_idle), written := (0, 11, 4) # written probe_loaded\<rparr>)"
    by (rule snapshot_step.publish_commit [of _ _ 0 0])
      (simp_all add: probe_loaded_def snapshot_init_def tryPublishIfUnchanged_def)
qed

theorem publish_no_lost_update_witness:
  "\<exists>t e. snapshot_step probe_loaded (L_publish 0) t \<and> written t = [e]"
proof -
  obtain t where t: "snapshot_step probe_loaded (L_publish 0) t" using probe_publishes by blast
  from publish_no_lost_update [OF probe_loaded_reach this, of 0 0] show ?thesis
    using t by (auto simp: probe_loaded_def snapshot_init_def)
qed

section \<open>Connecting\<close>

lemma max_polls_Suc: "max_polls = Suc (max_polls - 1)"
  by (simp add: max_polls_def)

lemma one_pass_connects: "fst (impl_connect sim_sdk (Suc n) sim_fresh) = Ret (Success ())"
  by (simp add: impl_connect_def connect_body_def connect_iter_def eval_simps)

lemma sim_connects: "fst (impl_connect sim_sdk max_polls sim_fresh) = Ret (Success ())"
  by (subst max_polls_Suc) (rule one_pass_connects)

theorem connect_correct_witness:
  "\<exists>t. impl_connect sim_sdk max_polls sim_fresh = (Ret (Success ()), t) \<and>
     connect_post sim_sdk sim_fresh (Success ()) t"
proof -
  note run = ran [of "impl_connect sim_sdk max_polls", OF sim_connects]
  from wpD [OF connect_correct [OF sim_wall enough_polls_max] run] run show ?thesis by blast
qed

lemma one_pass_disconnects: "fst (impl_disconnect sim_sdk (Suc n) sim_online) = Ret (Success ())"
  by (simp add: impl_disconnect_def disconnect_body_def disconnect_iter_def eval_simps)

lemma sim_disconnects: "fst (impl_disconnect sim_sdk max_polls sim_online) = Ret (Success ())"
  by (subst max_polls_Suc) (rule one_pass_disconnects)

theorem disconnect_correct_witness:
  "\<exists>t. impl_disconnect sim_sdk max_polls sim_online = (Ret (Success ()), t) \<and>
     disconnect_post sim_sdk sim_online (Success ()) t"
proof -
  note run = ran [of "impl_disconnect sim_sdk max_polls", OF sim_disconnects]
  from wpD [OF disconnect_correct [OF sim_wall enough_polls_max] run] run show ?thesis by blast
qed

section \<open>Batches\<close>

theorem batch_gates_witness:
  "\<exists>msg. impl_batchRead sim_sdk [sim_node] sim_fresh = (Ret (Error (RichError EC_NOT_CONNECTED msg)), sim_fresh)"
proof -
  have "gate_code sim_sdk [()] sim_fresh = Some EC_NOT_CONNECTED"
    by (simp add: gate_code_def eval_simps)
  from batch_gates [OF this, of "[sim_node]" "[\<lparr>wi_node = sim_node, wi_value = V_int32 0\<rparr>]"] show ?thesis by simp
qed

theorem batch_services_bounded_witness:
  "sim_services (world (snd (impl_batchRead sim_sdk [sim_node] sim_online))) \<le> 3 \<and>
   sim_services (world (snd (impl_batchWrite sim_sdk [\<lparr>wi_node = sim_node, wi_value = V_int32 0\<rparr>] sim_online))) \<le> 1"
  using batch_services_bounded [OF sim_counter, of "[sim_node]" sim_online "[\<lparr>wi_node = sim_node, wi_value = V_int32 0\<rparr>]"]
  by (simp add: sim_state_defs sim_config_def)

theorem batchWrite_all_or_nothing_witness:
  "\<exists>e t. impl_batchWrite sim_sdk [\<lparr>wi_node = sim_node, wi_value = V_int32 0\<rparr>,
       \<lparr>wi_node = sim_node, wi_value = V_bool True\<rparr>] sim_online = (Ret (Error e), t) \<and>
     sim_services (world t) = 0"
proof -
  have "write_reject_code S7_DINT (V_bool True) = Some EC_TYPE_MISMATCH"
    by (simp add: write_reject_code_def cell_of_def)
  then show ?thesis
    using batchWrite_all_or_nothing [OF sim_counter, of "\<lparr>wi_node = sim_node, wi_value = V_bool True\<rparr>"
        "[\<lparr>wi_node = sim_node, wi_value = V_int32 0\<rparr>, \<lparr>wi_node = sim_node, wi_value = V_bool True\<rparr>]"
        EC_TYPE_MISMATCH sim_online]
    by (simp add: sim_node_def sim_state_defs)
qed

theorem batchRead_results_witness:
  "wp (range Threw) (impl_batchRead sim_sdk [sim_node]) (\<lambda>r t. case r of
     Success rs \<Rightarrow> list_all2 (\<lambda>n r. read_result_ok sim_sdk (nd_dataType n) r) [sim_node] rs \<and>
       (\<exists>q. asks sim_sdk [sim_node] q \<and> answered_read sim_sdk [sim_node] q rs)
   | Error _ \<Rightarrow> True) sim_online"
  by (rule batchRead_results [OF sim_reads])

theorem batchWrite_results_witness:
  "wp (range Threw) (impl_batchWrite sim_sdk [\<lparr>wi_node = sim_node, wi_value = V_int32 0\<rparr>]) (\<lambda>r t. case r of
     Success rs \<Rightarrow> length rs = length [\<lparr>wi_node = sim_node, wi_value = V_int32 0\<rparr>] \<and>
       list_all (write_result_ok sim_sdk) rs \<and>
       (\<exists>q. orders (carries sim_sdk) [\<lparr>wi_node = sim_node, wi_value = V_int32 0\<rparr>] q \<and> answered_write sim_sdk q rs)
   | Error _ \<Rightarrow> True) sim_online"
  by (rule batchWrite_results [OF sim_writes sim_copy sim_scalar sim_strings])

text \<open>A client without retries whose server times out.\<close>

definition sim_tired :: "sim impl" where
  "sim_tired = sim_online\<lparr>m_config := sim_config\<lparr>maxRetries := 0\<rparr>,
     world := (world sim_online)\<lparr>sim_script := [0x800A0000]\<rparr>\<rparr>"

lemma sim_tired_read: "\<exists>msg. fst (impl_batchRead sim_sdk [sim_node] sim_tired) =
  Ret (Error (RichError EC_SERVICE_RETRY_EXHAUSTED msg))"
  by (simp add: sim_tired_def impl_batchRead_def gateE_def stop_gate_def state_gate_def empty_gate_def
      health_gate_def client_gate_def read_request_and_loop_def onWorld_def read_loop.simps read_attempt_def
      read_outcome_def response_scope_def retryable_def clear_ok_def neutralise_def uaNodeIDAlloc_def sim_node_def
      containsEmbeddedNul_def sim_string_def c_str_def sim_config_def eval_simps del: applyProfile.simps)


section \<open>The watchdog\<close>

text \<open>A client whose server is gone, bad since second 1; it is second 100 now.\<close>

definition sim_bad :: "sim impl" where
  "sim_bad = sim_fresh\<lparr>m_lastBadStatusMs := 1000, m_lifeState := RECOVERING,
     world := sim_world\<lparr>sim_ms := 100000, sim_up := False\<rparr>\<rparr>"

lemma sim_bad_probe:
  "fst (isConnected sim_sdk 0 sim_bad) = Ret (Success False)"
  "m_lastBadStatusMs (snd (isConnected sim_sdk 0 sim_bad)) = 1000"
  "m_config (snd (isConnected sim_sdk 0 sim_bad)) = sim_config"
  "sim_ms (world (snd (isConnected sim_sdk 0 sim_bad))) = 100001"
  by (simp_all add: sim_bad_def eval_simps)

theorem decision_gives_up_witness:
  "\<exists>t. doWatchdogDecision sim_sdk 5 sim_bad = (Ret (), t) \<and> m_lifeState t = GIVEN_UP"
proof -
  note probe = ran [of "isConnected sim_sdk 0", OF sim_bad_probe(1)]
  have "\<not> getEffectiveStopSignal sim_bad" "m_impl sim_bad = Some 1"
    by (simp_all add: getEffectiveStopSignal_def sim_bad_def sim_state_defs)
  moreover have "sdk_nowMs sim_sdk (world (snd (isConnected sim_sdk 0 sim_bad))) =
      (Inr 100001, [], world (snd (isConnected sim_sdk 0 sim_bad)))"
    using sim_bad_probe(4) by (simp add: sim_sdk_def)
  moreover have "giveUpThresholdMs (m_config (snd (isConnected sim_sdk 0 sim_bad))) \<le> 100001 - 1000"
    unfolding sim_bad_probe(3) by (simp add: sim_config_def)
  ultimately show ?thesis
    using decision_gives_up [OF _ _ probe sim_bad_probe(2), of 1 100001] by fastforce
qed

text \<open>A connected client that has been told of inactivity reconnects.\<close>

definition sim_lost :: "sim impl" where
  "sim_lost = sim_online\<lparr>connectionLost := True\<rparr>"


lemma sim_watch_ends: "fst (runWatchdog sim_sdk n 1 (signalShutdown sim_online)) = Ret ()"
  by (simp add: runWatchdog_def wd_try_def read_impl_def on_impl_def signalShutdown_def outcome_simps eval_simps)

theorem watchdog_never_abandons_witness:
  "\<exists>t. runWatchdog sim_sdk max_polls 1 (signalShutdown sim_online) = (Ret (), t) \<and>
     (getEffectiveStopSignal t \<or> m_impl t = None)"
proof -
  note run = ran [of "runWatchdog sim_sdk max_polls 1", OF sim_watch_ends]
  from wpD [OF watchdog_never_abandons [OF sim_wall order_refl sim_clocks, THEN conjunct2] run] run
  show ?thesis by blast
qed

section \<open>Protocols\<close>

theorem give_up_granted_once_witness:
  "\<exists>s. life_reach life_init s \<and> granted s = 1 \<and> life s = GIVEN_UP"
proof -
  let ?a = "at 0 (P_signal (life life_init)) life_init"
  let ?b = "at 0 P_idle (?a\<lparr>life := GIVEN_UP, granted := granted ?a + 1\<rparr>)"
  have a: "life_reach life_init ?a"
    by (rule lreach_step [OF lreach_refl call_signal]) (simp add: life_init_def)
  have b: "life_reach life_init ?b"
    by (rule lreach_step [OF a signal_cas [of _ _ RUNNING]]) (simp_all add: life_init_def)
  have "granted ?b = 1" by (simp add: life_init_def)
  with give_up_granted_once [OF b] b show ?thesis by blast
qed

text \<open>A recreate under way, its leases drained.\<close>

definition recreate_under_way :: sync_state where
  "recreate_under_way = goto 0 R_check (goto 0 R_wait (sync_init\<lparr>recreating := True\<rparr>))"

lemma recreate_under_way_reach: "sync_reach recreate_under_way"
proof -
  have "sync_reach (goto 0 R_wait (sync_init\<lparr>recreating := True\<rparr>))"
    by (rule sreach_step [OF sreach_init], rule recreate_begin) (simp_all add: sync_init_def)
  then show ?thesis
    unfolding recreate_under_way_def by (rule sreach_step, intro drained) (simp_all add: sync_init_def)
qed

theorem recreate_excludes_witness:
  "past_drain (thread recreate_under_way 0) \<and> \<not> in_api (thread recreate_under_way 1)"
  using recreate_excludes [OF recreate_under_way_reach, of 0 1] by (simp add: recreate_under_way_def)

text \<open>A destructor that has stopped waiting.\<close>

definition destroying_client :: sync_state where
  "destroying_client = goto 0 D_free ((goto 0 D_take (goto 0 D_wait
     (sync_init\<lparr>terminated := True, destroying := True\<rparr>)))\<lparr>impl_gen := None\<rparr>)"

lemma destroying_client_reach: "sync_reach destroying_client"
proof -
  have "sync_reach (goto 0 D_wait (sync_init\<lparr>terminated := True, destroying := True\<rparr>))"
    by (rule sreach_step [OF sreach_init], rule destroy_begin) (simp_all add: sync_init_def)
  then have "sync_reach (goto 0 D_take (goto 0 D_wait (sync_init\<lparr>terminated := True, destroying := True\<rparr>)))"
    by (rule sreach_step, intro destroy_go) (simp_all add: sync_init_def)
  then show ?thesis
    unfolding destroying_client_def by (rule sreach_step, intro destroy_take) simp
qed

theorem client_lifetime_witness:
  "past_wait (thread destroying_client 0) \<and> \<not> in_recreate (thread destroying_client 1) \<and>
   impl_gen destroying_client = None \<and> terminated destroying_client"
  using client_lifetime [OF destroying_client_reach, of 0 1] by (auto simp: destroying_client_def)

section \<open>The public class\<close>

definition sim_client :: "sim client" where
  "sim_client = \<lparr>pImpl = Some (sim_online\<lparr>m_lifeState := GIVEN_UP\<rparr>), m_recreating = False, m_terminated = False,
     m_inFlight = 0, m_shutdownInFlight = 0, m_endpointUrl = ''opc.tcp://plc:4840'', borrowed = False,
     c_world = sim_world\<rparr>"

theorem client_shutdown_correct_witness:
  "\<exists>t. client_shutdown sim_sdk sim_client = (Ret (Success ()), t) \<and> pImpl t = None \<and> m_terminated t"
proof -
  have "0 \<le> m_shutdownInFlight sim_client" by (simp add: sim_client_def)
  from client_shutdown_correct [OF this, of sim_sdk] show ?thesis
    by (auto simp: wp_def shutdown_post_def sim_client_def split: prod.splits outcome.splits)
qed

lemma sim_waits: "\<exists>x. fst (wait_ms sim_sdk ms w) = Inr x"
  by (simp add: sim_sdk_def)



text \<open>The factory makes a client on the simulated SDK.\<close>

lemma sim_config_checks: "check sim_config = None" "applyDefaultIfInvalid sim_config = (Success False, sim_config)"
proof -
  have "config_ok sim_config"
    using profile_check [of PROFILE_LOCAL default_config]
    by (simp add: sim_config_def check_iff_ok default_config_def LOG_WARNING_def del: applyProfile.simps)
  then show "check sim_config = None" "applyDefaultIfInvalid sim_config = (Success False, sim_config)"
    by (simp_all add: check_iff_ok applyDefault_eq)
qed

lemma one_pass_creates:
  "\<exists>c. fst (create sim_sdk (Suc n) ''opc.tcp://plc:4840'' sim_config False sim_world) = Ret (Success c)"
  by (simp add: create_def guarded_def build_client_def construct_def bring_up_def on_pImpl_def
      configureClient_def validateConfiguration_def applyConfiguration_def store_configuration_def
      client_connect_def api_def with_lease_def with_pImpl_def reason_def api_enter_def api_leave_def
      startWatchdog_def impl_connect_def connect_body_def connect_iter_def sim_config_checks eval_simps)

lemma sim_creates:
  "\<exists>c. fst (create sim_sdk max_polls ''opc.tcp://plc:4840'' sim_config False sim_world) = Ret (Success c)"
  by (subst max_polls_Suc) (rule one_pass_creates)


text \<open>A client made by the factory, shut down twice and then asked for its life state.\<close>

theorem session_refines_witness:
  "\<exists>c t. run_calls sim_sdk c [(Call_shutdown, None), (Call_shutdown, None),
      (Call_checkLifeState, Some EC_ALREADY_TERMINATED)] t \<and> session_of t = Closed"
proof -
  obtain c w where made: "create sim_sdk max_polls ''opc.tcp://plc:4840'' sim_config False sim_world = (Ret (Success c), w)"
    using sim_creates by (metis prod.collapse)
  from created_session [OF made] have c: "session_ok c" "session_of c = Open" by simp_all
  obtain t where t: "client_shutdown sim_sdk c = (Ret (Success ()), t)" "shutdown_post c (Success ()) t"
    using wp_client_shutdown [of c sim_sdk] c(1)
    by (auto simp: wp_def shutdown_post_def session_ok_def split: prod.splits outcome.splits)
  then have gone: "m_terminated t" "reason t \<noteq> Active" "\<not> m_recreating t"
    using c(1) by (auto simp: shutdown_post_def reason_def session_ok_def split: if_splits)
  have again: "client_shutdown sim_sdk t = (Ret (Success ()), t)"
    using gone by (simp add: client_shutdown_def bindE_readE)
  obtain e u where life: "checkLifeState t = (Ret (Error e), u)" "err_code e = EC_ALREADY_TERMINATED"
    using leased_rejected(5) [OF gone(2)] gone(1) by (auto simp: rejected_def)
  have run: "run_calls sim_sdk c [(Call_shutdown, None), (Call_shutdown, None),
      (Call_checkLifeState, Some EC_ALREADY_TERMINATED)] u"
    using do_shutdown [OF t(1)] do_shutdown [OF again] do_life [OF life(1)] life(2)
    by (auto intro!: run_calls.intros)
  moreover have "session_of u = Closed"
    using session_refines [OF made run sim_wall sim_reads sim_writes sim_waits, of Call_isHealthy] by simp
  ultimately show ?thesis by blast
qed

lemma sim_live_counts: "live_documented sim_sdk sim_live"
  by (simp add: live_documented_def sim_defs split: list.split)

text \<open>The client made by the factory exists until it is destroyed.\<close>

theorem session_is_execution_witness:
  "\<exists>c w t. create sim_sdk max_polls ''opc.tcp://plc:4840'' sim_config False sim_world = (Ret (Success c), w) \<and>
     run_calls sim_sdk c [(Call_shutdown, None)] t \<and> sync_later sync_init (sync_of t 0) \<and> impl_gen (sync_of t 0) = None"
proof -
  obtain c w where made: "create sim_sdk max_polls ''opc.tcp://plc:4840'' sim_config False sim_world = (Ret (Success c), w)"
    using sim_creates by (metis prod.collapse)
  from created_session [OF made] have c: "session_ok c" by simp
  obtain t where "client_shutdown sim_sdk c = (Ret (Success ()), t)"
    using wp_client_shutdown [of c sim_sdk] c
    by (auto simp: wp_def shutdown_post_def session_ok_def split: prod.splits outcome.splits)
  from do_shutdown [OF this] have run: "run_calls sim_sdk c [(Call_shutdown, None)] t"
    by (auto intro!: run_calls.intros)
  from session_is_execution [OF made run sim_waits] made run show ?thesis by auto
qed

theorem session_leaks_nothing_witness:
  "\<exists>c w. create sim_sdk max_polls ''opc.tcp://plc:4840'' sim_config False sim_world = (Ret (Success c), w) \<and>
     sim_live (c_world c) = 1 \<and> sim_live (c_world (snd (client_destructor sim_sdk c))) = 0"
proof -
  obtain c w where made: "create sim_sdk max_polls ''opc.tcp://plc:4840'' sim_config False sim_world = (Ret (Success c), w)"
    using sim_creates by (metis prod.collapse)
  have "sim_live sim_world = 0" by (simp add: sim_world_def)
  moreover from session_leaks_nothing [OF sim_live_counts sim_wall order_refl sim_waits,
      of "''opc.tcp://plc:4840''" sim_config False sim_world]
  have "\<forall>cs t. run_calls sim_sdk c cs t \<longrightarrow>
      sim_live (c_world t) = sim_live sim_world + (if session_after Open cs = Open then 1 else 0) \<and>
      sim_live (c_world (snd (client_destructor sim_sdk t))) = sim_live sim_world"
    by (simp add: made)
  ultimately show ?thesis using made run_nil [of sim_sdk c] by fastforce
qed

section \<open>RealSdk\<close>

text \<open>
  A library with room for one client: the world is the memory in use and the clients with their
  configurations; a default configuration has three plugins and a logger to free.
\<close>

definition sim_cost :: "nat \<Rightarrow> nat option \<Rightarrow> int" where
  "sim_cost plugins clear = int plugins + (if clear = None then 0 else 1)"

definition sim_config_cost :: "lib_config \<Rightarrow> int" where
  "sim_config_cost c = sim_cost (lc_plugins c) (clear_of c)"

definition sim_lib :: "(int \<times> (nat \<rightharpoonup> lib_config)) ua_lib" where
  "sim_lib = \<lparr>
     lib_good = 0,
     lib_setDefault = (\<lambda>c (h, m). ((0, \<lparr>lc_logging = Some \<lparr>lg_log = Library_Log 0, lg_context = Some 1, lg_clear = Some 2\<rparr>,
       lc_plugins = 3\<rparr>), (h + 4 - sim_config_cost c, m))),
     lib_configClear = (\<lambda>c (h, m). (h - sim_config_cost c, m)),
     lib_newWithConfig = (\<lambda>c (h, m). if m 1 = None then (Some 1, (h, m(1 \<mapsto> c))) else (None, (h, m))),
     lib_delete = (\<lambda>k (h, m). case m k of None \<Rightarrow> (h, m) | Some c \<Rightarrow> (h - sim_config_cost c, m(k := None)))\<rparr>"

lemma sim_lib_documented: "lib_documented sim_lib fst sim_cost snd"
  unfolding lib_documented_def sim_lib_def
  by (auto simp: sim_config_cost_def sim_cost_def clear_of_def split: prod.splits if_splits option.splits)

theorem clientNew_owns_config_witness:
  "\<exists>w. clientNew sim_lib None (0, Map.empty) = (Some 1, w) \<and> fst w = 4 \<and>
     fst (clientDelete sim_lib (Some 1) w) = 0 \<and> snd (clientDelete sim_lib (Some 1) w) = Map.empty"
proof -
  obtain w where w: "clientNew sim_lib None (0, Map.empty) = (Some 1, w)" "fst w = 4"
    by (simp add: clientNew_def sim_lib_def sim_config_cost_def sim_cost_def zero_config_def clear_of_def)
  from clientNew_owns_config [OF sim_lib_documented, of "(0, Map.empty)"] w(1)
  have "fst (clientDelete sim_lib (Some 1) w) = 0" "snd (clientDelete sim_lib (Some 1) w) = Map.empty" by simp_all
  with w show ?thesis by blast
qed

end
