(* ===== verification/Impl_Protocol.thy ===== *)
theory Impl_Protocol
  imports Threads
begin

text \<open>
  One \<open>Impl\<close> of \<open>src/OPCUAPacking/ua.cpp\<close> shared by many threads: the batch calls, \<open>connect()\<close>,
  \<open>disconnect()\<close> and the probe \<open>isConnected()\<close>, the watchdog thread (number 0), \<open>shutdown()\<close>
  and the destructor \<open>~Impl\<close>, interleaved at every critical section of \<open>m_lock\<close>,
  \<open>m_taskCvMx\<close> and \<open>m_sdkMutex\<close>, every access to an atomic that guards something, and every
  change of the reference counts of \<open>shared_ptr<Impl>\<close> and \<open>shared_ptr<UA_Client>\<close>.  What a
  call computes between two such points leaves the state below alone.
\<close>

section \<open>Places and state\<close>

datatype impl_pc =
    T_idle
  \<comment> \<open>\<open>batchRead\<close>, \<open>batchWrite\<close>\<close>
  | B_enter      \<comment> \<open>\<open>pImplQuote\<close> taken, before the stop test\<close>
  | B_gap        \<comment> \<open>test passed, before the \<open>InFlightGuard\<close>\<close>
  | B_counted    \<comment> \<open>counted, before \<open>m_impl\<close> is copied under \<open>m_lock\<close>\<close>
  | B_loop       \<comment> \<open>the copy is held, before the stop test of an attempt\<close>
  | B_pass       \<comment> \<open>that test passed, before \<open>m_sdkMutex\<close>\<close>
  | B_sdk        \<comment> \<open>inside the service call\<close>
  \<comment> \<open>\<open>connect\<close>, \<open>disconnect\<close>\<close>
  | C_enter      \<comment> \<open>before the \<open>InFlightGuard\<close>\<close>
  | C_counted    \<comment> \<open>counted, before the stop test and the copy under \<open>m_lock\<close>\<close>
  | C_copied     \<comment> \<open>before the exchange of \<open>m_connState\<close>\<close>
  | C_body       \<comment> \<open>the exchange succeeded, between two SDK calls\<close>
  | C_sdk        \<comment> \<open>inside an SDK call\<close>
  \<comment> \<open>\<open>isConnected\<close>\<close>
  | P_enter      \<comment> \<open>before the stop test\<close>
  | P_checked    \<comment> \<open>before the copy of \<open>m_impl\<close>\<close>
  | P_iter       \<comment> \<open>before \<open>runIterate\<close>\<close>
  | P_iter_sdk   \<comment> \<open>inside it\<close>
  | P_state      \<comment> \<open>before \<open>getState\<close>\<close>
  | P_state_sdk  \<comment> \<open>inside it\<close>
  | P_drop       \<comment> \<open>before the copy is released\<close>
  | G_enter      \<comment> \<open>\<open>setGiveUpSignal\<close>\<close>
  \<comment> \<open>the scope exits of the operations, in the order the locals are destroyed\<close>
  | X_drop       \<comment> \<open>before the copy of \<open>m_impl\<close> is released\<close>
  | X_uncount    \<comment> \<open>before \<open>~InFlightGuard\<close>\<close>
  | X_unref      \<comment> \<open>before \<open>pImplQuote\<close> is released\<close>
  \<comment> \<open>the watchdog thread\<close>
  | W_none       \<comment> \<open>not started\<close>
  | W_born       \<comment> \<open>started, before \<open>shared_from_this()\<close>\<close>
  | W_loop       \<comment> \<open>before the test of the loop\<close>
  | W_top        \<comment> \<open>before the copy of \<open>m_impl\<close>\<close>
  | W_held       \<comment> \<open>in an iteration, between two SDK calls\<close>
  | W_sdk        \<comment> \<open>inside \<open>callRunIterate\<close>\<close>
  | W_exit       \<comment> \<open>out of the loop, before \<open>pImplQuote\<close> is released\<close>
  | W_done
  | W_throw      \<comment> \<open>\<open>shared_from_this()\<close> found no owner: \<open>bad_weak_ptr\<close> leaves the thread\<close>
  \<comment> \<open>\<open>shutdown\<close>, by the thread that took the owning pointer\<close>
  | S_signal
  | S_join
  | S_wait
  | S_unref
  \<comment> \<open>\<open>~Impl\<close>, on the thread that released the last reference\<close>
  | K_begin
  | K_shut
  | K_clean

text \<open>
  \<open>signalled\<close>: \<open>m_shutdown\<close> set and \<open>m_running\<close> cleared; \<open>gave_up\<close>: the life state is
  \<open>GIVEN_UP\<close>; \<open>stop_done\<close>: \<open>m_stop\<close>; \<open>busy\<close>: \<open>m_connState\<close> is not \<open>IDLE\<close>; \<open>tasks\<close>: \<open>m_taskCounter\<close>;
  \<open>sdk_owner\<close>: who holds \<open>m_sdkMutex\<close>; \<open>refs\<close>, \<open>copies\<close>: the counts of \<open>shared_ptr<Impl>\<close> and of
  \<open>shared_ptr<UA_Client>\<close>; \<open>held\<close>: the owner (\<open>pImpl\<close>, or the local of the thread that is
  building the object) still has its pointer; \<open>has_client\<close>: \<open>m_impl\<close> is not null;
  \<open>deletes\<close>: the calls of \<open>clientDelete\<close>; \<open>finished\<close>: \<open>~Impl\<close> has ended; \<open>drained\<close>: the wait of
  \<open>shutdown()\<close> ended because the counter was zero, not by its timeout.
\<close>

record impl_run =
  signalled :: bool
  gave_up :: bool
  stop_done :: bool
  busy :: bool
  tasks :: nat
  sdk_owner :: "nat option"
  refs :: nat
  held :: bool
  has_client :: bool
  copies :: nat
  deletes :: nat
  finished :: bool
  drained :: bool
  place :: "nat \<Rightarrow> impl_pc"

definition stopped :: "impl_run \<Rightarrow> bool" where
  "stopped s \<longleftrightarrow> signalled s \<or> gave_up s"

definition move_to :: "nat \<Rightarrow> impl_pc \<Rightarrow> impl_run \<Rightarrow> impl_run" where
  "move_to i p s = s\<lparr>place := (place s)(i := p)\<rparr>"

text \<open>The release of a copy of \<open>m_impl\<close>: the last one runs the deleter.\<close>

definition drop_copy :: "impl_run \<Rightarrow> impl_run" where
  "drop_copy s = s\<lparr>copies := copies s - 1, deletes := deletes s + (if copies s = 1 then 1 else 0)\<rparr>"

definition watchdog_over :: "impl_run \<Rightarrow> bool" where
  "watchdog_over s \<longleftrightarrow> place s 0 = W_none \<or> place s 0 = W_done"

text \<open>An operation that ends on the watchdog thread goes on with its iteration.\<close>

definition resume_at :: "nat \<Rightarrow> impl_pc" where
  "resume_at i = (if i = 0 then W_held else T_idle)"

section \<open>Steps of one thread\<close>

text \<open>Rules of \<open>batchRead\<close> and \<open>batchWrite\<close>: the call copies \<open>pImpl\<close>, and the places \<open>X_\<close> are its scope exits.\<close>

inductive batch_move :: "nat \<Rightarrow> impl_run \<Rightarrow> impl_run \<Rightarrow> bool" where
  batch_call: "place s i = T_idle \<Longrightarrow> i \<noteq> 0 \<Longrightarrow> held s \<Longrightarrow> batch_move i s (move_to i B_enter (s\<lparr>refs := refs s + 1\<rparr>))"
| batch_stop: "place s i = B_enter \<Longrightarrow> stopped s \<Longrightarrow> batch_move i s (move_to i X_unref s)"
| batch_go: "place s i = B_enter \<Longrightarrow> \<not> stopped s \<Longrightarrow> batch_move i s (move_to i B_gap s)"
| batch_count: "place s i = B_gap \<Longrightarrow> batch_move i s (move_to i B_counted (s\<lparr>tasks := tasks s + 1\<rparr>))"
| batch_gate: "place s i = B_counted \<Longrightarrow> batch_move i s (move_to i X_uncount s)"
| batch_copy: "place s i = B_counted \<Longrightarrow> has_client s \<Longrightarrow> \<not> stopped s \<Longrightarrow>
    batch_move i s (move_to i B_loop (s\<lparr>copies := copies s + 1\<rparr>))"
| batch_leave: "place s i = B_loop \<Longrightarrow> batch_move i s (move_to i X_drop s)"
| batch_attempt: "place s i = B_loop \<Longrightarrow> \<not> stopped s \<Longrightarrow> batch_move i s (move_to i B_pass s)"
| batch_busy: "place s i = B_pass \<Longrightarrow> batch_move i s (move_to i X_drop s)"
| batch_service: "place s i = B_pass \<Longrightarrow> sdk_owner s = None \<Longrightarrow> batch_move i s (move_to i B_sdk (s\<lparr>sdk_owner := Some i\<rparr>))"
| batch_served: "place s i = B_sdk \<Longrightarrow> batch_move i s (move_to i B_loop (s\<lparr>sdk_owner := None\<rparr>))"

text \<open>\<open>connect\<close> and \<open>disconnect\<close>, called through the public class or by the watchdog on its own object.\<close>

inductive conn_move :: "nat \<Rightarrow> impl_run \<Rightarrow> impl_run \<Rightarrow> bool" where
  conn_call: "place s i = T_idle \<Longrightarrow> i \<noteq> 0 \<Longrightarrow> held s \<Longrightarrow> conn_move i s (move_to i C_enter (s\<lparr>refs := refs s + 1\<rparr>))"
| wd_conn_call: "place s 0 = W_held \<Longrightarrow> conn_move 0 s (move_to 0 C_enter (s\<lparr>refs := refs s + 1\<rparr>))"
| conn_count: "place s i = C_enter \<Longrightarrow> conn_move i s (move_to i C_counted (s\<lparr>tasks := tasks s + 1\<rparr>))"
| conn_stop: "place s i = C_counted \<Longrightarrow> stopped s \<or> \<not> has_client s \<Longrightarrow> conn_move i s (move_to i X_uncount s)"
| conn_copy: "place s i = C_counted \<Longrightarrow> \<not> stopped s \<Longrightarrow> has_client s \<Longrightarrow>
    conn_move i s (move_to i C_copied (s\<lparr>copies := copies s + 1\<rparr>))"
| conn_lose: "place s i = C_copied \<Longrightarrow> busy s \<Longrightarrow> conn_move i s (move_to i X_drop s)"
| conn_win: "place s i = C_copied \<Longrightarrow> \<not> busy s \<Longrightarrow> conn_move i s (move_to i C_body (s\<lparr>busy := True\<rparr>))"
| conn_sdk: "place s i = C_body \<Longrightarrow> sdk_owner s = None \<Longrightarrow> conn_move i s (move_to i C_sdk (s\<lparr>sdk_owner := Some i\<rparr>))"
| conn_back: "place s i = C_sdk \<Longrightarrow> conn_move i s (move_to i C_body (s\<lparr>sdk_owner := None\<rparr>))"
| conn_end: "place s i = C_body \<Longrightarrow> conn_move i s (move_to i X_drop (s\<lparr>busy := False\<rparr>))"

text \<open>\<open>isConnected\<close>, which takes no \<open>InFlightGuard\<close>.\<close>

inductive probe_move :: "nat \<Rightarrow> impl_run \<Rightarrow> impl_run \<Rightarrow> bool" where
  probe_call: "place s i = T_idle \<Longrightarrow> i \<noteq> 0 \<Longrightarrow> held s \<Longrightarrow> probe_move i s (move_to i P_enter (s\<lparr>refs := refs s + 1\<rparr>))"
| wd_probe_call: "place s 0 = W_held \<Longrightarrow> probe_move 0 s (move_to 0 P_enter (s\<lparr>refs := refs s + 1\<rparr>))"
| probe_stop: "place s i = P_enter \<Longrightarrow> stopped s \<Longrightarrow> probe_move i s (move_to i X_unref s)"
| probe_go: "place s i = P_enter \<Longrightarrow> \<not> stopped s \<Longrightarrow> probe_move i s (move_to i P_checked s)"
| probe_null: "place s i = P_checked \<Longrightarrow> \<not> has_client s \<Longrightarrow> probe_move i s (move_to i X_unref s)"
| probe_copy: "place s i = P_checked \<Longrightarrow> has_client s \<Longrightarrow> probe_move i s (move_to i P_iter (s\<lparr>copies := copies s + 1\<rparr>))"
| probe_iter: "place s i = P_iter \<Longrightarrow> sdk_owner s = None \<Longrightarrow> probe_move i s (move_to i P_iter_sdk (s\<lparr>sdk_owner := Some i\<rparr>))"
| probe_iterated: "place s i = P_iter_sdk \<Longrightarrow> probe_move i s (move_to i P_state (s\<lparr>sdk_owner := None\<rparr>))"
| probe_state: "place s i = P_state \<Longrightarrow> sdk_owner s = None \<Longrightarrow> probe_move i s (move_to i P_state_sdk (s\<lparr>sdk_owner := Some i\<rparr>))"
| probe_stated: "place s i = P_state_sdk \<Longrightarrow> probe_move i s (move_to i P_drop (s\<lparr>sdk_owner := None\<rparr>))"
| probe_end: "place s i = P_drop \<Longrightarrow> probe_move i s (move_to i X_unref (drop_copy s))"

text \<open>\<open>setGiveUpSignal\<close>.\<close>

inductive give_move :: "nat \<Rightarrow> impl_run \<Rightarrow> impl_run \<Rightarrow> bool" where
  give_call: "place s i = T_idle \<Longrightarrow> i \<noteq> 0 \<Longrightarrow> held s \<Longrightarrow> give_move i s (move_to i G_enter (s\<lparr>refs := refs s + 1\<rparr>))"
| give_up: "place s i = G_enter \<Longrightarrow> give_move i s (move_to i X_unref (s\<lparr>gave_up := True\<rparr>))"

text \<open>The scope exits shared by the operations: the copy of \<open>m_impl\<close>, \<open>~InFlightGuard\<close>, \<open>pImplQuote\<close>.\<close>

inductive exit_move :: "nat \<Rightarrow> impl_run \<Rightarrow> impl_run \<Rightarrow> bool" where
  exit_drop: "place s i = X_drop \<Longrightarrow> exit_move i s (move_to i X_uncount (drop_copy s))"
| exit_uncount: "place s i = X_uncount \<Longrightarrow> exit_move i s (move_to i X_unref (s\<lparr>tasks := tasks s - 1\<rparr>))"
| exit_unref: "place s i = X_unref \<Longrightarrow> refs s \<noteq> 1 \<Longrightarrow> exit_move i s (move_to i (resume_at i) (s\<lparr>refs := refs s - 1\<rparr>))"
| exit_last: "place s i = X_unref \<Longrightarrow> refs s = 1 \<Longrightarrow> exit_move i s (move_to i K_begin (s\<lparr>refs := 0\<rparr>))"

text \<open>The watchdog thread: its start, \<open>runWatchdog\<close> and the SDK calls of \<open>doWatchdogDecision\<close>.\<close>

inductive wd_move :: "nat \<Rightarrow> impl_run \<Rightarrow> impl_run \<Rightarrow> bool" where
  wd_start: "place s 0 = W_none \<Longrightarrow> held s \<Longrightarrow> wd_move 0 s (move_to 0 W_born s)"
| wd_self: "place s 0 = W_born \<Longrightarrow> refs s \<noteq> 0 \<Longrightarrow> wd_move 0 s (move_to 0 W_loop (s\<lparr>refs := refs s + 1\<rparr>))"
| wd_expired: "place s 0 = W_born \<Longrightarrow> refs s = 0 \<Longrightarrow> wd_move 0 s (move_to 0 W_throw s)"
| wd_stop: "place s 0 = W_loop \<Longrightarrow> stopped s \<Longrightarrow> wd_move 0 s (move_to 0 W_exit s)"
| wd_go: "place s 0 = W_loop \<Longrightarrow> \<not> stopped s \<Longrightarrow> wd_move 0 s (move_to 0 W_top s)"
| wd_null: "place s 0 = W_top \<Longrightarrow> \<not> has_client s \<Longrightarrow> wd_move 0 s (move_to 0 W_exit s)"
| wd_copy: "place s 0 = W_top \<Longrightarrow> has_client s \<Longrightarrow> wd_move 0 s (move_to 0 W_held (s\<lparr>copies := copies s + 1\<rparr>))"
| wd_sdk: "place s 0 = W_held \<Longrightarrow> sdk_owner s = None \<Longrightarrow> wd_move 0 s (move_to 0 W_sdk (s\<lparr>sdk_owner := Some 0\<rparr>))"
| wd_sdk_end: "place s 0 = W_sdk \<Longrightarrow> wd_move 0 s (move_to 0 W_held (s\<lparr>sdk_owner := None\<rparr>))"
| wd_give_up: "place s 0 = W_held \<Longrightarrow> wd_move 0 s (move_to 0 W_held (s\<lparr>gave_up := True\<rparr>))"
| wd_again: "place s 0 = W_held \<Longrightarrow> wd_move 0 s (move_to 0 W_loop (drop_copy s))"
| wd_fatal: "place s 0 = W_held \<Longrightarrow> wd_move 0 s (move_to 0 W_exit (drop_copy s\<lparr>gave_up := True\<rparr>))"
| wd_unref: "place s 0 = W_exit \<Longrightarrow> refs s \<noteq> 1 \<Longrightarrow> wd_move 0 s (move_to 0 W_done (s\<lparr>refs := refs s - 1\<rparr>))"
| wd_last: "place s 0 = W_exit \<Longrightarrow> refs s = 1 \<Longrightarrow> wd_move 0 s (move_to 0 K_begin (s\<lparr>refs := 0\<rparr>))"

text \<open>\<open>shutdown\<close> by the thread that took the owning pointer: signal, join, drain, release.\<close>

inductive shut_move :: "nat \<Rightarrow> impl_run \<Rightarrow> impl_run \<Rightarrow> bool" where
  shut_take: "place s i = T_idle \<Longrightarrow> i \<noteq> 0 \<Longrightarrow> held s \<Longrightarrow> shut_move i s (move_to i S_signal (s\<lparr>held := False\<rparr>))"
| shut_signal: "place s i = S_signal \<Longrightarrow> shut_move i s (move_to i S_join (s\<lparr>signalled := True\<rparr>))"
| shut_join: "place s i = S_join \<Longrightarrow> watchdog_over s \<Longrightarrow> shut_move i s (move_to i S_wait (s\<lparr>stop_done := True\<rparr>))"
| shut_drained: "place s i = S_wait \<Longrightarrow> tasks s = 0 \<Longrightarrow> shut_move i s (move_to i S_unref (s\<lparr>drained := True\<rparr>))"
| shut_timeout: "place s i = S_wait \<Longrightarrow> shut_move i s (move_to i S_unref s)"
| shut_unref: "place s i = S_unref \<Longrightarrow> refs s \<noteq> 1 \<Longrightarrow> shut_move i s (move_to i T_idle (s\<lparr>refs := refs s - 1\<rparr>))"
| shut_last: "place s i = S_unref \<Longrightarrow> refs s = 1 \<Longrightarrow> shut_move i s (move_to i K_begin (s\<lparr>refs := 0\<rparr>))"

text \<open>\<open>~Impl\<close>.\<close>

inductive dtor_move :: "nat \<Rightarrow> impl_run \<Rightarrow> impl_run \<Rightarrow> bool" where
  dtor_shut: "place s i = K_begin \<Longrightarrow> \<not> stop_done s \<Longrightarrow> dtor_move i s (move_to i K_shut s)"
| dtor_plain: "place s i = K_begin \<Longrightarrow> stop_done s \<Longrightarrow> dtor_move i s (move_to i K_clean (s\<lparr>signalled := True\<rparr>))"
| dtor_join: "place s i = K_shut \<Longrightarrow> i = 0 \<or> watchdog_over s \<Longrightarrow>
    dtor_move i s (move_to i K_clean (s\<lparr>signalled := True, stop_done := True\<rparr>))"
| dtor_clean: "place s i = K_clean \<Longrightarrow>
    dtor_move i s (move_to i (if i = 0 then W_done else T_idle) (drop_copy s\<lparr>has_client := False, finished := True\<rparr>))"

inductive impl_move :: "nat \<Rightarrow> impl_run \<Rightarrow> impl_run \<Rightarrow> bool" where
  m_batch: "batch_move i s t \<Longrightarrow> impl_move i s t"
| m_conn: "conn_move i s t \<Longrightarrow> impl_move i s t"
| m_probe: "probe_move i s t \<Longrightarrow> impl_move i s t"
| m_give: "give_move i s t \<Longrightarrow> impl_move i s t"
| m_exit: "exit_move i s t \<Longrightarrow> impl_move i s t"
| m_wd: "wd_move i s t \<Longrightarrow> impl_move i s t"
| m_shut: "shut_move i s t \<Longrightarrow> impl_move i s t"
| m_dtor: "dtor_move i s t \<Longrightarrow> impl_move i s t"

lemmas piece_cases = batch_move.cases conn_move.cases probe_move.cases give_move.cases exit_move.cases wd_move.cases shut_move.cases dtor_move.cases

text \<open>
  A new \<open>Impl\<close>: its owner has the only reference, \<open>m_impl\<close> the only one to the SDK client,
  and the watchdog has not been started.
\<close>

definition impl_init :: impl_run where
  "impl_init = \<lparr>signalled = False, gave_up = False, stop_done = False, busy = False, tasks = 0,
     sdk_owner = None, refs = 1, held = True, has_client = True, copies = 1, deletes = 0,
     finished = False, drained = False, place = (\<lambda>_. T_idle)(0 := W_none)\<rparr>"

inductive impl_reach :: "impl_run \<Rightarrow> bool" where
  ireach_init: "impl_reach impl_init"
| ireach_step: "impl_reach s \<Longrightarrow> impl_move i s t \<Longrightarrow> impl_reach t"

end
