(* ===== verification/Impl_Protocol_Facts.thy ===== *)
theory Impl_Protocol_Facts
  imports Impl_Protocol
begin

text \<open>
  The invariant of \<open>Impl_Protocol\<close> and what it gives: one connect or disconnect at a time,
  one SDK call at a time, no service call after a completed drain, an SDK client that is
  deleted once and never used afterwards, and no deadlock.
\<close>

section \<open>What a place holds\<close>

fun counted :: "impl_pc \<Rightarrow> bool" where
  "counted B_counted = True" | "counted C_counted = True" | "counted B_loop = True"
| "counted B_pass = True" | "counted B_sdk = True" | "counted C_copied = True"
| "counted C_body = True" | "counted C_sdk = True" | "counted X_drop = True"
| "counted X_uncount = True" | "counted _ = False"

text \<open>Past the stop test under \<open>m_lock\<close> that goes with the copy of \<open>m_impl\<close>.\<close>

fun serving :: "impl_pc \<Rightarrow> bool" where
  "serving B_loop = True" | "serving B_pass = True" | "serving B_sdk = True"
| "serving C_copied = True" | "serving C_body = True" | "serving C_sdk = True"
| "serving _ = False"

fun op_copy :: "impl_pc \<Rightarrow> bool" where
  "op_copy B_loop = True" | "op_copy B_pass = True" | "op_copy B_sdk = True"
| "op_copy C_copied = True" | "op_copy C_body = True" | "op_copy C_sdk = True"
| "op_copy X_drop = True" | "op_copy P_iter = True" | "op_copy P_iter_sdk = True"
| "op_copy P_state = True" | "op_copy P_state_sdk = True" | "op_copy P_drop = True"
| "op_copy _ = False"

fun in_body :: "impl_pc \<Rightarrow> bool" where
  "in_body C_body = True" | "in_body C_sdk = True" | "in_body _ = False"

fun in_sdk :: "impl_pc \<Rightarrow> bool" where
  "in_sdk B_sdk = True" | "in_sdk C_sdk = True" | "in_sdk P_iter_sdk = True"
| "in_sdk P_state_sdk = True" | "in_sdk W_sdk = True" | "in_sdk _ = False"

fun in_shut :: "impl_pc \<Rightarrow> bool" where
  "in_shut S_signal = True" | "in_shut S_join = True" | "in_shut S_wait = True"
| "in_shut S_unref = True" | "in_shut _ = False"

fun pre_join :: "impl_pc \<Rightarrow> bool" where
  "pre_join S_signal = True" | "pre_join S_join = True" | "pre_join _ = False"

fun after_signal :: "impl_pc \<Rightarrow> bool" where
  "after_signal S_join = True" | "after_signal S_wait = True" | "after_signal S_unref = True"
| "after_signal _ = False"

fun in_dtor :: "impl_pc \<Rightarrow> bool" where
  "in_dtor K_begin = True" | "in_dtor K_shut = True" | "in_dtor K_clean = True"
| "in_dtor _ = False"

text \<open>The operations the watchdog calls on its own object.\<close>

fun nested :: "impl_pc \<Rightarrow> bool" where
  "nested C_enter = True" | "nested C_counted = True" | "nested C_copied = True"
| "nested C_body = True" | "nested C_sdk = True" | "nested P_enter = True"
| "nested P_checked = True" | "nested P_iter = True" | "nested P_iter_sdk = True"
| "nested P_state = True" | "nested P_state_sdk = True" | "nested P_drop = True"
| "nested X_drop = True" | "nested X_uncount = True" | "nested X_unref = True"
| "nested _ = False"

fun op_ref :: "impl_pc \<Rightarrow> bool" where
  "op_ref C_enter = True" | "op_ref C_counted = True" | "op_ref C_copied = True"
| "op_ref C_body = True" | "op_ref C_sdk = True" | "op_ref P_enter = True"
| "op_ref P_checked = True" | "op_ref P_iter = True" | "op_ref P_iter_sdk = True"
| "op_ref P_state = True" | "op_ref P_state_sdk = True" | "op_ref P_drop = True"
| "op_ref X_drop = True" | "op_ref X_uncount = True" | "op_ref X_unref = True"
| "op_ref S_signal = True" | "op_ref S_join = True" | "op_ref S_wait = True"
| "op_ref S_unref = True" | "op_ref B_enter = True" | "op_ref B_gap = True"
| "op_ref B_counted = True" | "op_ref B_loop = True" | "op_ref B_pass = True"
| "op_ref B_sdk = True" | "op_ref G_enter = True" | "op_ref _ = False"

text \<open>What the watchdog thread itself holds, besides the operation it is in.\<close>

fun wd_ref :: "impl_pc \<Rightarrow> bool" where
  "wd_ref C_enter = True" | "wd_ref C_counted = True" | "wd_ref C_copied = True"
| "wd_ref C_body = True" | "wd_ref C_sdk = True" | "wd_ref P_enter = True"
| "wd_ref P_checked = True" | "wd_ref P_iter = True" | "wd_ref P_iter_sdk = True"
| "wd_ref P_state = True" | "wd_ref P_state_sdk = True" | "wd_ref P_drop = True"
| "wd_ref X_drop = True" | "wd_ref X_uncount = True" | "wd_ref X_unref = True"
| "wd_ref W_loop = True" | "wd_ref W_top = True" | "wd_ref W_held = True" | "wd_ref W_sdk = True"
| "wd_ref W_exit = True" | "wd_ref _ = False"

fun wd_copy :: "impl_pc \<Rightarrow> bool" where
  "wd_copy C_enter = True" | "wd_copy C_counted = True" | "wd_copy C_copied = True"
| "wd_copy C_body = True" | "wd_copy C_sdk = True" | "wd_copy P_enter = True"
| "wd_copy P_checked = True" | "wd_copy P_iter = True" | "wd_copy P_iter_sdk = True"
| "wd_copy P_state = True" | "wd_copy P_state_sdk = True" | "wd_copy P_drop = True"
| "wd_copy X_drop = True" | "wd_copy X_uncount = True" | "wd_copy X_unref = True"
| "wd_copy W_held = True" | "wd_copy W_sdk = True" | "wd_copy _ = False"

fun wd_place :: "impl_pc \<Rightarrow> bool" where
  "wd_place C_enter = True" | "wd_place C_counted = True" | "wd_place C_copied = True"
| "wd_place C_body = True" | "wd_place C_sdk = True" | "wd_place P_enter = True"
| "wd_place P_checked = True" | "wd_place P_iter = True" | "wd_place P_iter_sdk = True"
| "wd_place P_state = True" | "wd_place P_state_sdk = True" | "wd_place P_drop = True"
| "wd_place X_drop = True" | "wd_place X_uncount = True" | "wd_place X_unref = True"
| "wd_place W_loop = True" | "wd_place W_top = True" | "wd_place W_held = True"
| "wd_place W_sdk = True" | "wd_place W_exit = True" | "wd_place W_none = True"
| "wd_place W_born = True" | "wd_place W_done = True" | "wd_place _ = False"

fun user_place :: "impl_pc \<Rightarrow> bool" where
  "user_place T_idle = True" | "user_place K_begin = True" | "user_place K_clean = True"
| "user_place C_enter = True" | "user_place C_counted = True" | "user_place C_copied = True"
| "user_place C_body = True" | "user_place C_sdk = True" | "user_place P_enter = True"
| "user_place P_checked = True" | "user_place P_iter = True" | "user_place P_iter_sdk = True"
| "user_place P_state = True" | "user_place P_state_sdk = True" | "user_place P_drop = True"
| "user_place X_drop = True" | "user_place X_uncount = True" | "user_place X_unref = True"
| "user_place S_signal = True" | "user_place S_join = True" | "user_place S_wait = True"
| "user_place S_unref = True" | "user_place B_enter = True" | "user_place B_gap = True"
| "user_place B_counted = True" | "user_place B_loop = True" | "user_place B_pass = True"
| "user_place B_sdk = True" | "user_place G_enter = True" | "user_place _ = False"

lemma move_to_simps [simp]:
  "place (move_to i p s) = (place s)(i := p)" "signalled (move_to i p s) = signalled s"
  "gave_up (move_to i p s) = gave_up s" "stop_done (move_to i p s) = stop_done s"
  "busy (move_to i p s) = busy s" "tasks (move_to i p s) = tasks s"
  "sdk_owner (move_to i p s) = sdk_owner s" "refs (move_to i p s) = refs s"
  "held (move_to i p s) = held s" "has_client (move_to i p s) = has_client s"
  "copies (move_to i p s) = copies s" "deletes (move_to i p s) = deletes s"
  "finished (move_to i p s) = finished s" "drained (move_to i p s) = drained s"
  by (simp_all add: move_to_def)

lemma drop_copy_simps [simp]:
  "place (drop_copy s) = place s" "signalled (drop_copy s) = signalled s"
  "gave_up (drop_copy s) = gave_up s" "stop_done (drop_copy s) = stop_done s"
  "busy (drop_copy s) = busy s" "tasks (drop_copy s) = tasks s"
  "sdk_owner (drop_copy s) = sdk_owner s" "refs (drop_copy s) = refs s"
  "held (drop_copy s) = held s" "has_client (drop_copy s) = has_client s"
  "copies (drop_copy s) = copies s - 1" "deletes (drop_copy s) = deletes s + (if copies s = 1 then 1 else 0)"
  "finished (drop_copy s) = finished s" "drained (drop_copy s) = drained s"
  by (simp_all add: drop_copy_def)

section \<open>The invariant\<close>

abbreviation one_if :: "bool \<Rightarrow> nat" where
  "one_if b \<equiv> (if b then 1 else 0)"

text \<open>Every counter of the code is the number of threads that hold what it counts.\<close>

definition counts_ok :: "impl_run \<Rightarrow> bool" where
  "counts_ok s \<longleftrightarrow> finite_away T_idle (place s) \<and>
     tasks s = tcount counted (place s) \<and>
     refs s = one_if (held s) + tcount op_ref (place s) + one_if (wd_ref (place s 0)) \<and>
     copies s = one_if (has_client s) + tcount op_copy (place s) + one_if (wd_copy (place s 0)) \<and>
     tcount in_body (place s) = one_if (busy s)"

text \<open>One owner, which does not let go before the watchdog has been joined.\<close>

definition owner_ok :: "impl_run \<Rightarrow> bool" where
  "owner_ok s \<longleftrightarrow> one_if (held s) + tcount in_shut (place s) \<le> 1 \<and>
     (held s \<or> 0 < tcount pre_join (place s) \<or> stop_done s \<and> signalled s \<and> watchdog_over s) \<and>
     (stop_done s \<longrightarrow> \<not> held s \<and> tcount pre_join (place s) = 0)"

definition life_ok :: "impl_run \<Rightarrow> bool" where
  "life_ok s \<longleftrightarrow> tcount in_dtor (place s) + one_if (finished s) = one_if (refs s = 0) \<and>
     has_client s = (\<not> finished s) \<and> deletes s = one_if (copies s = 0)"

definition shape_ok :: "impl_run \<Rightarrow> bool" where
  "shape_ok s \<longleftrightarrow> wd_place (place s 0) \<and> (\<forall>i. i \<noteq> 0 \<longrightarrow> user_place (place s i))"

definition lock_ok :: "impl_run \<Rightarrow> bool" where
  "lock_ok s \<longleftrightarrow> (\<forall>i. in_sdk (place s i) \<longleftrightarrow> sdk_owner s = Some i)"

definition drain_ok :: "impl_run \<Rightarrow> bool" where
  "drain_ok s \<longleftrightarrow> (drained s \<longrightarrow> signalled s \<and> (\<forall>i. \<not> serving (place s i))) \<and>
     (\<forall>i. after_signal (place s i) \<longrightarrow> signalled s)"

definition impl_inv :: "impl_run \<Rightarrow> bool" where
  "impl_inv s \<longleftrightarrow> counts_ok s \<and> owner_ok s \<and> life_ok s \<and> shape_ok s \<and> lock_ok s \<and> drain_ok s"

text \<open>What the place of one thread says about the counters.\<close>

lemma counts_place:
  assumes "counts_ok s" and "place s i = p"
  shows "(counted p \<longrightarrow> 0 < tcount counted (place s)) \<and> (op_ref p \<longrightarrow> 0 < tcount op_ref (place s)) \<and>
    (op_copy p \<longrightarrow> 0 < tcount op_copy (place s)) \<and> (in_body p \<longrightarrow> 0 < tcount in_body (place s)) \<and>
    (in_shut p \<longrightarrow> 0 < tcount in_shut (place s)) \<and> (pre_join p \<longrightarrow> 0 < tcount pre_join (place s)) \<and>
    (in_dtor p \<longrightarrow> 0 < tcount in_dtor (place s))"
proof -
  have fin: "finite_away T_idle (place s)" using assms(1) by (simp add: counts_ok_def)
  note pos = tcount_pos [OF fin, of _ i]
  show ?thesis
    using assms(2) pos [of counted] pos [of op_ref] pos [of op_copy] pos [of in_body] pos [of in_shut]
      pos [of pre_join] pos [of in_dtor]
    by simp
qed

text \<open>
  The move of thread \<open>i\<close> from one place to another, for every counter at once: a counter
  grows, shrinks or stays with the predicate it counts.
\<close>

definition shift :: "(impl_pc \<Rightarrow> bool) \<Rightarrow> impl_pc \<Rightarrow> impl_pc \<Rightarrow> nat \<Rightarrow> nat \<Rightarrow> bool" where
  "shift P p q m n \<longleftrightarrow> n + one_if (P p) = m + one_if (P q)"

lemma shift_move:
  assumes "finite_away T_idle f" and "\<not> P T_idle" and "f i = p"
  shows "shift P p q (tcount P f) (tcount P (f(i := q)))"
  using assms tcount_same [of T_idle f P i q] tcount_more [of T_idle f P i q] tcount_less [of T_idle f P i q]
  by (auto simp: shift_def)

lemma move_place: "impl_move i s t \<Longrightarrow> \<exists>q. place t = (place s)(i := q)"
  by (erule impl_move.cases; erule piece_cases; auto)

lemma move_shift:
  assumes "impl_move i s t" and "finite_away T_idle (place s)" and "\<not> P T_idle"
  shows "shift P (place s i) (place t i) (tcount P (place s)) (tcount P (place t))"
proof -
  obtain q where "place t = (place s)(i := q)" using move_place [OF assms(1)] by blast
  then show ?thesis using shift_move [of "place s" P i "place s i" q] assms(2,3) by simp
qed

lemma move_finite: "impl_move i s t \<Longrightarrow> finite_away T_idle (place s) \<Longrightarrow> finite_away T_idle (place t)"
  using move_place [of i s t] by (auto intro: finite_away_upd)

lemma inv_finite: "impl_inv s \<Longrightarrow> finite_away T_idle (place s)"
  by (simp add: impl_inv_def counts_ok_def)

lemma tasks_step:
  assumes "impl_move i s t" and "impl_inv s"
  shows "tasks t = tcount counted (place t)"
proof -
  have "tasks s = tcount counted (place s)" using assms(2) by (simp add: impl_inv_def counts_ok_def)
  moreover have "shift counted (place s i) (place t i) (tcount counted (place s)) (tcount counted (place t))"
    by (rule move_shift [OF assms(1) inv_finite [OF assms(2)]]) simp
  ultimately show ?thesis
    using assms(1) by - (erule impl_move.cases; erule piece_cases; simp add: shift_def resume_at_def)
qed

lemma body_step:
  assumes "impl_move i s t" and "impl_inv s"
  shows "tcount in_body (place t) = one_if (busy t)"
proof -
  have "tcount in_body (place s) = one_if (busy s)" using assms(2) by (simp add: impl_inv_def counts_ok_def)
  moreover have "shift in_body (place s i) (place t i) (tcount in_body (place s)) (tcount in_body (place t))"
    by (rule move_shift [OF assms(1) inv_finite [OF assms(2)]]) simp
  ultimately show ?thesis
    using assms(1) by - (erule impl_move.cases; erule piece_cases; simp add: shift_def resume_at_def split: if_splits)
qed

lemma inv_place:
  assumes "impl_inv s"
  shows "if i = 0 then wd_place (place s i) else user_place (place s i)"
  using assms by (simp add: impl_inv_def shape_ok_def)

lemma refs_step:
  assumes "impl_move i s t" and "impl_inv s"
  shows "refs t = one_if (held t) + tcount op_ref (place t) + one_if (wd_ref (place t 0))"
proof -
  have "refs s = one_if (held s) + tcount op_ref (place s) + one_if (wd_ref (place s 0))"
    using assms(2) by (simp add: impl_inv_def counts_ok_def)
  moreover have "shift op_ref (place s i) (place t i) (tcount op_ref (place s)) (tcount op_ref (place t))"
    by (rule move_shift [OF assms(1) inv_finite [OF assms(2)]]) simp
  ultimately show ?thesis
    using assms(1) inv_place [OF assms(2), of i]
    by - (erule impl_move.cases; erule piece_cases; simp add: shift_def resume_at_def split: if_splits)
qed

text \<open>
  While the watchdog thread is alive somebody who will join it still has the owning
  pointer, so the watchdog never holds the last reference.
\<close>

lemma op_ref_nested: "wd_place p \<Longrightarrow> op_ref p \<Longrightarrow> wd_ref p" "wd_place p \<Longrightarrow> user_place p \<Longrightarrow> wd_ref p"
  by (cases p; simp)+

lemma pre_join_refs: "finite_away T_idle f \<Longrightarrow> tcount pre_join f \<le> tcount op_ref f"
  by (rule tcount_mono) (auto elim: pre_join.elims)

lemma wd_not_last:
  assumes "impl_inv s" and "\<not> watchdog_over s"
  shows "0 < refs s" and "wd_ref (place s 0) \<Longrightarrow> 1 < refs s" and "held s \<or> 0 < tcount pre_join (place s)"
proof -
  have c: "counts_ok s" and o: "owner_ok s" using assms(1) by (simp_all add: impl_inv_def)
  show own: "held s \<or> 0 < tcount pre_join (place s)" using o assms(2) by (auto simp: owner_ok_def)
  then show "0 < refs s" "wd_ref (place s 0) \<Longrightarrow> 1 < refs s"
    using c pre_join_refs [of "place s"] by (auto simp: counts_ok_def)
qed

lemma wd_ref_alive: "wd_ref (place s 0) \<Longrightarrow> \<not> watchdog_over s"
  by (auto simp: watchdog_over_def)

lemma dtor_place:
  assumes "impl_inv s" and "in_dtor (place s i)"
  shows "refs s = 0 \<and> \<not> finished s \<and> has_client s \<and> tcount in_dtor (place s) = 1"
proof -
  have "0 < tcount in_dtor (place s)"
    using tcount_pos [where P = in_dtor, OF inv_finite [OF assms(1)]] assms(2) by simp
  then show ?thesis using assms(1) by (auto simp: impl_inv_def life_ok_def split: if_splits)
qed

text \<open>Hence \<open>~Impl\<close> never runs on the watchdog thread.\<close>

lemma last_not_wd: "impl_inv s \<Longrightarrow> wd_ref (place s 0) \<Longrightarrow> refs s \<noteq> 1"
  using wd_not_last(2) [of s] wd_ref_alive [of s] by simp

lemma copies_step:
  assumes "impl_move i s t" and "impl_inv s"
  shows "copies t = one_if (has_client t) + tcount op_copy (place t) + one_if (wd_copy (place t 0))"
proof -
  have "copies s = one_if (has_client s) + tcount op_copy (place s) + one_if (wd_copy (place s 0))"
    using assms(2) by (simp add: impl_inv_def counts_ok_def)
  moreover have "shift op_copy (place s i) (place t i) (tcount op_copy (place s)) (tcount op_copy (place t))"
    by (rule move_shift [OF assms(1) inv_finite [OF assms(2)]]) simp
  moreover note last_not_wd [OF assms(2)] dtor_place [OF assms(2), of i]
  ultimately show ?thesis
    using assms(1) inv_place [OF assms(2), of i]
    by - (erule impl_move.cases; erule piece_cases; simp add: shift_def resume_at_def split: if_splits)
qed

lemma counts_step: "impl_move i s t \<Longrightarrow> impl_inv s \<Longrightarrow> counts_ok t"
  using tasks_step refs_step copies_step body_step move_finite inv_finite by (simp add: counts_ok_def)

lemma shape_step:
  assumes "impl_move i s t" and "impl_inv s"
  shows "shape_ok t"
proof -
  have "shape_ok s" using assms(2) by (simp add: impl_inv_def)
  moreover note wd_not_last(1) [OF assms(2)] last_not_wd [OF assms(2)] dtor_place [OF assms(2), of i]
  moreover have "in_dtor (place s i) \<Longrightarrow> stop_done s"
    using assms(2) dtor_place [OF assms(2), of i] pre_join_refs [OF inv_finite [OF assms(2)]]
    by (auto simp: impl_inv_def owner_ok_def counts_ok_def)
  ultimately show ?thesis
    using assms(1) inv_place [OF assms(2), of i]
    by - (erule impl_move.cases; erule piece_cases; simp add: shape_ok_def resume_at_def watchdog_over_def split: if_splits)
qed

lemma shut_place:
  assumes "impl_inv s"
  shows "(in_shut (place s i) \<longrightarrow> 0 < tcount in_shut (place s)) \<and>
    (pre_join (place s i) \<longrightarrow> 0 < tcount pre_join (place s))"
  using tcount_pos [OF inv_finite [OF assms], of in_shut i] tcount_pos [OF inv_finite [OF assms], of pre_join i]
  by simp

lemma pre_join_shut: "finite_away T_idle f \<Longrightarrow> tcount pre_join f \<le> tcount in_shut f"
  by (rule tcount_mono) (auto elim: pre_join.elims)

lemma owner_step:
  assumes "impl_move i s t" and "impl_inv s"
  shows "owner_ok t"
proof -
  note fin = inv_finite [OF assms(2)]
  have "owner_ok s" "after_signal (place s i) \<longrightarrow> signalled s"
    using assms(2) by (auto simp: impl_inv_def drain_ok_def)
  moreover have "shift in_shut (place s i) (place t i) (tcount in_shut (place s)) (tcount in_shut (place t))"
    "shift pre_join (place s i) (place t i) (tcount pre_join (place s)) (tcount pre_join (place t))"
    by (rule move_shift [OF assms(1) fin], simp)+
  moreover note shut_place [OF assms(2), of i] pre_join_shut [OF fin]
    pre_join_shut [OF move_finite [OF assms(1) fin]] dtor_place [OF assms(2), of i] last_not_wd [OF assms(2)]
  ultimately show ?thesis
    using assms(1) inv_place [OF assms(2), of i]
    by - (erule impl_move.cases; erule piece_cases; simp add: owner_ok_def shift_def resume_at_def watchdog_over_def split: if_splits)
qed

lemma held_place:
  assumes "impl_inv s"
  shows "op_ref (place s i) \<or> held s \<or> wd_ref (place s 0) \<longrightarrow> 0 < refs s"
    and "op_copy (place s i) \<or> has_client s \<or> wd_copy (place s 0) \<longrightarrow> 0 < copies s"
  using assms tcount_pos [OF inv_finite [OF assms], of op_copy i] tcount_pos [OF inv_finite [OF assms], of op_ref i]
  by (auto simp: impl_inv_def counts_ok_def)

lemma life_step:
  assumes "impl_move i s t" and "impl_inv s"
  shows "life_ok t"
proof -
  have "life_ok s" using assms(2) by (simp add: impl_inv_def)
  moreover have "shift in_dtor (place s i) (place t i) (tcount in_dtor (place s)) (tcount in_dtor (place t))"
    by (rule move_shift [OF assms(1) inv_finite [OF assms(2)]]) simp
  moreover note held_place [OF assms(2), of i] dtor_place [OF assms(2), of i] last_not_wd [OF assms(2)]
  ultimately show ?thesis
    using assms(1) inv_place [OF assms(2), of i]
    by - (erule impl_move.cases; erule piece_cases; simp add: life_ok_def shift_def resume_at_def split: if_splits)
qed

lemma lock_step:
  assumes "impl_move i s t" and "impl_inv s"
  shows "lock_ok t"
proof -
  have "\<forall>j. in_sdk (place s j) \<longleftrightarrow> sdk_owner s = Some j" using assms(2) by (simp add: impl_inv_def lock_ok_def)
  moreover from this have "in_sdk (place s i) \<longleftrightarrow> sdk_owner s = Some i" by blast
  ultimately show ?thesis
    using assms(1)
    by - (erule impl_move.cases; erule piece_cases; simp add: lock_ok_def resume_at_def split: if_splits)
qed

lemma serving_counted: "serving p \<Longrightarrow> counted p"
  by (cases p) simp_all

lemma move_others: "impl_move i s t \<Longrightarrow> j \<noteq> i \<Longrightarrow> place t j = place s j"
  using move_place [of i s t] by auto

lemma move_signals:
  assumes "impl_move i s t"
  shows "(signalled s \<longrightarrow> signalled t) \<and> (stopped s \<longrightarrow> stopped t) \<and>
    (drained t \<longrightarrow> drained s \<or> tasks s = 0 \<and> after_signal (place s i)) \<and>
    (serving (place t i) \<longrightarrow> serving (place s i) \<or> \<not> stopped s) \<and>
    (after_signal (place t i) \<longrightarrow> after_signal (place s i) \<or> signalled t)"
  using assms by - (erule impl_move.cases; erule piece_cases; simp add: stopped_def resume_at_def)

lemma drain_step:
  assumes "impl_move i s t" and "impl_inv s"
  shows "drain_ok t"
proof -
  have d: "drain_ok s" using assms(2) by (simp add: impl_inv_def)
  note m = move_signals [OF assms(1)]
  have idle: "tasks s = 0 \<Longrightarrow> \<not> serving (place s j)" for j
    using assms(2) tcount_zero [OF inv_finite [OF assms(2)], of counted] serving_counted
    by (auto simp: impl_inv_def counts_ok_def)
  have sig: "after_signal (place t j) \<Longrightarrow> signalled t" for j
    using m d move_others [OF assms(1), of j] by (cases "j = i") (auto simp: drain_ok_def)
  have "drained t \<Longrightarrow> signalled s \<and> (\<forall>j. \<not> serving (place s j))"
    using m d idle by (auto simp: drain_ok_def)
  then have "drained t \<Longrightarrow> signalled t \<and> \<not> serving (place t j)" for j
    using m move_others [OF assms(1), of j] by (cases "j = i") (auto simp: stopped_def)
  then show ?thesis using sig by (auto simp: drain_ok_def)
qed

lemma impl_inv_step: "impl_move i s t \<Longrightarrow> impl_inv s \<Longrightarrow> impl_inv t"
  using counts_step owner_step life_step shape_step lock_step drain_step by (simp add: impl_inv_def)

lemma impl_inv_init: "impl_inv impl_init"
  by (simp add: impl_inv_def counts_ok_def owner_ok_def life_ok_def shape_ok_def lock_ok_def drain_ok_def
    impl_init_def finite_away_def watchdog_over_def)

lemma impl_reach_inv: "impl_reach s \<Longrightarrow> impl_inv s"
  by (induction rule: impl_reach.induct) (auto intro: impl_inv_init impl_inv_step)

section \<open>Exclusion\<close>

text \<open>
  C15: at every reachable point at most one thread is inside the body of \<open>connect()\<close> or
  \<open>disconnect()\<close>, and \<open>m_connState\<close> says so exactly when there is one; at most one thread, the
  watchdog included, is inside an SDK call.
\<close>

theorem impl_exclusion:
  assumes "impl_reach s"
  shows "(in_body (place s i) \<longrightarrow> in_body (place s j) \<longrightarrow> i = j) \<and> (busy s \<longleftrightarrow> (\<exists>k. in_body (place s k))) \<and>
    (in_sdk (place s i) \<longrightarrow> in_sdk (place s j) \<longrightarrow> i = j)"
proof -
  note inv = impl_reach_inv [OF assms]
  note fin = inv_finite [OF inv]
  have body: "tcount in_body (place s) = one_if (busy s)" and lock: "lock_ok s"
    using inv by (simp_all add: impl_inv_def counts_ok_def)
  have "busy s \<longleftrightarrow> (\<exists>k. in_body (place s k))" using body tcount_zero [OF fin, of in_body] by (auto split: if_splits)
  then show ?thesis
    using body lock tcount_unique [OF fin, of in_body i j] by (auto simp: lock_ok_def)
qed

section \<open>After the drain\<close>

abbreviation impl_later :: "impl_run \<Rightarrow> impl_run \<Rightarrow> bool" where
  "impl_later \<equiv> (\<lambda>s t. \<exists>i. impl_move i s t)\<^sup>*\<^sup>*"

lemma later_reach: "impl_later s t \<Longrightarrow> impl_reach s \<Longrightarrow> impl_reach t"
  by (induction rule: rtranclp_induct) (auto intro: ireach_step)

lemma move_drained: "impl_move i s t \<Longrightarrow> drained s \<Longrightarrow> drained t"
  by (erule impl_move.cases; erule piece_cases; simp)

lemma later_drained: "impl_later s t \<Longrightarrow> drained s \<Longrightarrow> drained t"
  by (induction rule: rtranclp_induct) (auto intro: move_drained)

lemma drained_quiet:
  assumes "impl_reach s" and "drained s"
  shows "\<not> serving (place s i) \<and> stopped s \<and> \<not> busy s"
proof -
  note inv = impl_reach_inv [OF assms(1)]
  have d: "signalled s" "\<And>k. \<not> serving (place s k)" using inv assms(2) by (auto simp: impl_inv_def drain_ok_def)
  have "in_body (place s k) \<Longrightarrow> serving (place s k)" for k by (cases "place s k") simp_all
  then have "tcount in_body (place s) = 0" using d(2) by (intro tcount_none) blast
  then show ?thesis using inv d by (auto simp: impl_inv_def counts_ok_def stopped_def split: if_splits)
qed

text \<open>
  C6: when the wait of \<open>Impl::shutdown()\<close> has ended because the task counter was zero, no
  batch, connect or disconnect is in or past its stop test, and none gets there ever again:
  no service call and no connection attempt of this object follows, and none is under way.
\<close>

theorem drain_is_final:
  assumes "impl_reach s" and "drained s" and "impl_later s t"
  shows "\<not> serving (place t i) \<and> stopped t \<and> \<not> busy t"
  by (rule drained_quiet [OF later_reach [OF assms(3,1)] later_drained [OF assms(3,2)]])

section \<open>The life of the SDK client\<close>

lemma op_copy_ref: "op_copy p \<Longrightarrow> op_ref p" "wd_copy p \<Longrightarrow> wd_ref p"
  by (cases p; simp)+

lemma in_sdk_ref: "in_sdk (place s i) \<Longrightarrow> impl_inv s \<Longrightarrow> 0 < refs s \<and> 0 < copies s"
  using inv_place [of s i] held_place [of s i]
  by (cases "place s i") (auto split: if_splits)

lemma finished_empty:
  assumes "impl_inv s"
  shows "finished s \<longleftrightarrow> copies s = 0"
proof -
  note fin = inv_finite [OF assms]
  have c: "counts_ok s" and l: "life_ok s" using assms by (simp_all add: impl_inv_def)
  have "tcount op_copy (place s) \<le> tcount op_ref (place s)"
    by (rule tcount_mono [OF fin]) (auto intro: op_copy_ref)
  then show ?thesis
    using c l op_copy_ref(2) [of "place s 0"] by (auto simp: counts_ok_def life_ok_def split: if_splits)
qed

text \<open>
  C5: the SDK client is deleted at most once, by the thread that runs \<open>~Impl\<close>, and is alive
  during every SDK call of every thread; \<open>~Impl\<close> never runs on the watchdog thread and always
  finds \<open>shutdown()\<close> done, and the \<open>shared_from_this()\<close> the watchdog starts with never throws.
\<close>

theorem client_deleted_once:
  assumes "impl_reach s"
  shows "deletes s \<le> 1 \<and> (deletes s = 1 \<longleftrightarrow> finished s) \<and>
    (in_sdk (place s i) \<longrightarrow> deletes s = 0 \<and> \<not> finished s \<and> \<not> in_dtor (place s j)) \<and>
    \<not> in_dtor (place s 0) \<and> place s i \<noteq> K_shut \<and> place s i \<noteq> W_throw"
proof -
  note inv = impl_reach_inv [OF assms]
  have "life_ok s" using inv by (simp add: impl_inv_def)
  moreover have "\<not> in_dtor (place s 0)" using inv_place [OF inv, of 0] by (cases "place s 0") simp_all
  moreover have "place s i \<noteq> K_shut" "place s i \<noteq> W_throw"
    using inv_place [OF inv, of i] by (auto split: if_splits)
  ultimately show ?thesis
    using in_sdk_ref [OF _ inv, of i] finished_empty [OF inv] dtor_place [OF inv, of j] by (auto simp: life_ok_def)
qed

section \<open>No deadlock, no leak\<close>

fun at_rest :: "impl_pc \<Rightarrow> bool" where
  "at_rest T_idle = True" | "at_rest W_none = True" | "at_rest W_done = True" | "at_rest _ = False"

text \<open>A thread that is not at rest can go on, unless it waits for \<open>m_sdkMutex\<close> or for the watchdog.\<close>

definition moves :: "nat \<Rightarrow> impl_run \<Rightarrow> bool" where
  "moves i s \<longleftrightarrow> (\<exists>t. impl_move i s t)"

lemma movesI: "impl_move i s t \<Longrightarrow> moves i s"
  by (auto simp: moves_def)

lemma branch_moves:
  "place s i = B_enter \<Longrightarrow> moves i s"
  "place s i = C_copied \<Longrightarrow> moves i s"
  "place s i = P_enter \<Longrightarrow> moves i s"
  "place s i = P_checked \<Longrightarrow> moves i s"
  "place s i = X_unref \<Longrightarrow> moves i s"
  "place s i = S_unref \<Longrightarrow> moves i s"
  "place s i = K_begin \<Longrightarrow> moves i s"
  "place s 0 = W_born \<Longrightarrow> moves 0 s"
  "place s 0 = W_loop \<Longrightarrow> moves 0 s"
  "place s 0 = W_top \<Longrightarrow> moves 0 s"
  "place s 0 = W_exit \<Longrightarrow> moves 0 s"
  subgoal by (cases "stopped s") (auto intro: movesI [OF m_batch [OF batch_stop]] movesI [OF m_batch [OF batch_go]])
  subgoal by (cases "busy s") (auto intro: movesI [OF m_conn [OF conn_lose]] movesI [OF m_conn [OF conn_win]])
  subgoal by (cases "stopped s") (auto intro: movesI [OF m_probe [OF probe_stop]] movesI [OF m_probe [OF probe_go]])
  subgoal by (cases "has_client s") (auto intro: movesI [OF m_probe [OF probe_copy]] movesI [OF m_probe [OF probe_null]])
  subgoal by (cases "refs s = 1") (auto intro: movesI [OF m_exit [OF exit_last]] movesI [OF m_exit [OF exit_unref]])
  subgoal by (cases "refs s = 1") (auto intro: movesI [OF m_shut [OF shut_last]] movesI [OF m_shut [OF shut_unref]])
  subgoal by (cases "stop_done s") (auto intro: movesI [OF m_dtor [OF dtor_plain]] movesI [OF m_dtor [OF dtor_shut]])
  subgoal by (cases "refs s = 0") (auto intro: movesI [OF m_wd [OF wd_expired]] movesI [OF m_wd [OF wd_self]])
  subgoal by (cases "stopped s") (auto intro: movesI [OF m_wd [OF wd_stop]] movesI [OF m_wd [OF wd_go]])
  subgoal by (cases "has_client s") (auto intro: movesI [OF m_wd [OF wd_copy]] movesI [OF m_wd [OF wd_null]])
  subgoal by (cases "refs s = 1") (auto intro: movesI [OF m_wd [OF wd_last]] movesI [OF m_wd [OF wd_unref]])
  done

lemmas plain_moves = movesI [OF m_batch [OF batch_count]] movesI [OF m_batch [OF batch_gate]] movesI [OF m_batch [OF batch_leave]] movesI [OF m_batch [OF batch_busy]]
  movesI [OF m_batch [OF batch_served]] movesI [OF m_conn [OF conn_count]] movesI [OF m_conn [OF conn_back]] movesI [OF m_conn [OF conn_end]]
  movesI [OF m_probe [OF probe_iterated]] movesI [OF m_probe [OF probe_stated]] movesI [OF m_probe [OF probe_end]] movesI [OF m_give [OF give_up]]
  movesI [OF m_exit [OF exit_drop]] movesI [OF m_exit [OF exit_uncount]] movesI [OF m_wd [OF wd_again]] movesI [OF m_wd [OF wd_sdk_end]]
  movesI [OF m_shut [OF shut_signal]] movesI [OF m_shut [OF shut_join]] movesI [OF m_shut [OF shut_timeout]] movesI [OF m_dtor [OF dtor_clean]]
  movesI [OF m_probe [OF probe_iter]] movesI [OF m_probe [OF probe_state]]

lemma conn_moves: "place s i = C_counted \<Longrightarrow> moves i s"
  by (cases "stopped s \<or> \<not> has_client s") (auto intro: movesI [OF m_conn [OF conn_stop]] movesI [OF m_conn [OF conn_copy]])

lemma can_move:
  assumes "impl_inv s" and "\<not> at_rest (place s i)" and "sdk_owner s = None \<or> in_sdk (place s i)"
    and "place s i = S_join \<Longrightarrow> watchdog_over s"
  shows "\<exists>t. impl_move i s t"
proof -
  have "moves i s"
    using assms(2-4) inv_place [OF assms(1), of i]
    by (cases "place s i"; simp add: branch_moves plain_moves conn_moves split: if_splits)
  then show ?thesis by (simp add: moves_def)
qed

lemma at_rest_holds:
  "at_rest p \<Longrightarrow> \<not> counted p \<and> \<not> op_ref p \<and> \<not> in_body p \<and> \<not> in_dtor p \<and> \<not> in_sdk p \<and> \<not> wd_ref p"
  by (cases p) simp_all

lemma rest_clean:
  assumes "impl_inv s" and rest: "\<And>i. at_rest (place s i)" and "\<not> held s"
  shows "finished s \<and> deletes s = 1 \<and> tasks s = 0 \<and> \<not> busy s \<and> sdk_owner s = None"
proof -
  have none: "\<And>i. \<not> counted (place s i)" "\<And>i. \<not> op_ref (place s i)" "\<And>i. \<not> in_body (place s i)"
    "\<And>i. \<not> in_dtor (place s i)" "\<And>i. \<not> in_sdk (place s i)" "\<not> wd_ref (place s 0)"
    using at_rest_holds [OF rest] by simp_all
  have c: "tcount counted (place s) = 0" "tcount op_ref (place s) = 0" "tcount in_body (place s) = 0"
    "tcount in_dtor (place s) = 0"
    by (simp_all add: none)
  have "\<And>i. in_sdk (place s i) \<longleftrightarrow> sdk_owner s = Some i" using assms(1) by (simp add: impl_inv_def lock_ok_def)
  then have "sdk_owner s = None" using none(5) by (metis not_None_eq)
  moreover have "refs s = 0" "tasks s = 0" "\<not> busy s"
    using assms(1,3) c none(6) by (simp_all add: impl_inv_def counts_ok_def split: if_splits)
  moreover from this c(4) have "finished s" using assms(1) by (simp add: impl_inv_def life_ok_def split: if_splits)
  moreover from this have "deletes s = 1"
    using finished_empty [OF assms(1)] assms(1) by (simp add: impl_inv_def life_ok_def)
  ultimately show ?thesis by simp
qed

text \<open>
  C17: the threads of one object never block each other for good: while some thread is in an
  operation, one that is can move.  When all are at rest and the owner has let go, \<open>~Impl\<close> has
  run, the SDK client is deleted, no task is counted and no lock is held.
\<close>

theorem impl_progress:
  assumes "impl_reach s"
  shows "((\<exists>i. \<not> at_rest (place s i)) \<longrightarrow> (\<exists>i t. \<not> at_rest (place s i) \<and> impl_move i s t)) \<and>
    ((\<forall>i. at_rest (place s i)) \<and> \<not> held s \<longrightarrow>
       finished s \<and> deletes s = 1 \<and> tasks s = 0 \<and> \<not> busy s \<and> sdk_owner s = None)"
proof -
  note inv = impl_reach_inv [OF assms]
  have lock: "in_sdk (place s k) \<longleftrightarrow> sdk_owner s = Some k" for k using inv by (simp add: impl_inv_def lock_ok_def)
  have "\<exists>i t. \<not> at_rest (place s i) \<and> impl_move i s t" if b: "\<not> at_rest (place s i)" for i
  proof (cases "sdk_owner s")
    case (Some k)
    then have "in_sdk (place s k)" using lock by simp
    moreover from this have "\<not> at_rest (place s k)" "place s k \<noteq> S_join" by (cases "place s k"; simp)+
    ultimately show ?thesis using can_move [OF inv, of k] by blast
  next
    case None
    show ?thesis
    proof (cases "place s i = S_join \<and> \<not> watchdog_over s")
      case True
      moreover from this have "\<not> at_rest (place s 0)" "place s 0 \<noteq> S_join"
        using inv_place [OF inv, of 0] by (cases "place s 0"; simp add: watchdog_over_def)+
      ultimately show ?thesis using None can_move [OF inv, of 0] by blast
    next
      case False
      then show ?thesis using None b can_move [OF inv, of i] by blast
    qed
  qed
  then show ?thesis using rest_clean [OF inv] by blast
qed

end
