(* ===== verification/Impl_Run.thy ===== *)
theory Impl_Run
  imports Impl_Protocol_Facts
begin

text \<open>
  A run of \<open>Impl_Protocol\<close> from the first call of an object to its deletion, and what it
  shows: the hypotheses of the theorems of \<open>Impl_Protocol_Facts\<close> are met, and the drain of
  \<open>shutdown()\<close> does not wait for a probe.
\<close>

section \<open>One object from its first call to its deletion\<close>

definition scene :: "impl_pc \<Rightarrow> impl_pc \<Rightarrow> impl_pc \<Rightarrow> impl_run \<Rightarrow> impl_run" where
  "scene a b c s = s\<lparr>place := (\<lambda>i. if i = 0 then W_none else if i = 1 then a else if i = 2 then b
     else if i = 3 then c else T_idle)\<rparr>"

text \<open>
  Thread 2 connects, thread 3 probes and thread 1 shuts the object down while the probe is
  under way: the probe reaches the SDK after the drain and the object goes when it is done.
\<close>

lemma move_eq: "impl_move i s t \<Longrightarrow> t = u \<Longrightarrow> impl_move i s u"
  by simp

lemma later_refl: "impl_later s s"
  by simp

lemma later_move: "impl_later s t \<Longrightarrow> impl_move i t u \<Longrightarrow> impl_later s u"
  by (rule rtranclp.rtrancl_into_rtrancl) auto

lemma one_object:
  "\<exists>s t u v. impl_reach s \<and> place s 2 = C_sdk \<and> impl_reach t \<and> drained t \<and> impl_later t u \<and>
     place u 3 = P_iter_sdk \<and> impl_reach v \<and> (\<forall>i. at_rest (place v i)) \<and> \<not> held v"
proof -
  define s1 where "s1 = scene T_idle T_idle P_enter (impl_init\<lparr>refs := 2\<rparr>)"
  define s2 where "s2 = scene T_idle T_idle P_checked (impl_init\<lparr>refs := 2\<rparr>)"
  define s3 where "s3 = scene T_idle T_idle P_iter (impl_init\<lparr>refs := 2, copies := 2\<rparr>)"
  define s4 where "s4 = scene T_idle C_enter P_iter (impl_init\<lparr>refs := 3, copies := 2\<rparr>)"
  define s5 where "s5 = scene T_idle C_counted P_iter (impl_init\<lparr>tasks := 1, refs := 3, copies := 2\<rparr>)"
  define s6 where "s6 = scene T_idle C_copied P_iter (impl_init\<lparr>tasks := 1, refs := 3, copies := 3\<rparr>)"
  define s7 where "s7 = scene T_idle C_body P_iter (impl_init\<lparr>busy := True, tasks := 1, refs := 3, copies := 3\<rparr>)"
  define s8 where "s8 = scene T_idle C_sdk P_iter (impl_init\<lparr>busy := True, tasks := 1, sdk_owner := Some 2, refs := 3, copies := 3\<rparr>)"
  define s9 where "s9 = scene T_idle C_body P_iter (impl_init\<lparr>busy := True, tasks := 1, refs := 3, copies := 3\<rparr>)"
  define s10 where "s10 = scene T_idle X_drop P_iter (impl_init\<lparr>tasks := 1, refs := 3, copies := 3\<rparr>)"
  define s11 where "s11 = scene T_idle X_uncount P_iter (impl_init\<lparr>tasks := 1, refs := 3, copies := 2\<rparr>)"
  define s12 where "s12 = scene T_idle X_unref P_iter (impl_init\<lparr>refs := 3, copies := 2\<rparr>)"
  define s13 where "s13 = scene T_idle T_idle P_iter (impl_init\<lparr>refs := 2, copies := 2\<rparr>)"
  define s14 where "s14 = scene S_signal T_idle P_iter (impl_init\<lparr>refs := 2, held := False, copies := 2\<rparr>)"
  define s15 where "s15 = scene S_join T_idle P_iter (impl_init\<lparr>signalled := True, refs := 2, held := False, copies := 2\<rparr>)"
  define s16 where "s16 = scene S_wait T_idle P_iter (impl_init\<lparr>signalled := True, stop_done := True, refs := 2, held := False, copies := 2\<rparr>)"
  define s17 where "s17 = scene S_unref T_idle P_iter (impl_init\<lparr>signalled := True, stop_done := True, refs := 2, held := False, copies := 2, drained := True\<rparr>)"
  define s18 where "s18 = scene S_unref T_idle P_iter_sdk (impl_init\<lparr>signalled := True, stop_done := True, sdk_owner := Some 3, refs := 2, held := False, copies := 2, drained := True\<rparr>)"
  define s19 where "s19 = scene S_unref T_idle P_state (impl_init\<lparr>signalled := True, stop_done := True, refs := 2, held := False, copies := 2, drained := True\<rparr>)"
  define s20 where "s20 = scene S_unref T_idle P_state_sdk (impl_init\<lparr>signalled := True, stop_done := True, sdk_owner := Some 3, refs := 2, held := False, copies := 2, drained := True\<rparr>)"
  define s21 where "s21 = scene S_unref T_idle P_drop (impl_init\<lparr>signalled := True, stop_done := True, refs := 2, held := False, copies := 2, drained := True\<rparr>)"
  define s22 where "s22 = scene S_unref T_idle X_unref (impl_init\<lparr>signalled := True, stop_done := True, refs := 2, held := False, drained := True\<rparr>)"
  define s23 where "s23 = scene S_unref T_idle T_idle (impl_init\<lparr>signalled := True, stop_done := True, held := False, drained := True\<rparr>)"
  define s24 where "s24 = scene K_begin T_idle T_idle (impl_init\<lparr>signalled := True, stop_done := True, refs := 0, held := False, drained := True\<rparr>)"
  define s25 where "s25 = scene K_clean T_idle T_idle (impl_init\<lparr>signalled := True, stop_done := True, refs := 0, held := False, drained := True\<rparr>)"
  define s26 where "s26 = scene T_idle T_idle T_idle (impl_init\<lparr>signalled := True, stop_done := True, refs := 0, held := False, has_client := False, copies := 0, deletes := 1, finished := True, drained := True\<rparr>)"
  note defs = s1_def s2_def s3_def s4_def s5_def s6_def s7_def s8_def s9_def s10_def
    s11_def s12_def s13_def s14_def s15_def s16_def s17_def s18_def s19_def s20_def
    s21_def s22_def s23_def s24_def s25_def s26_def scene_def impl_init_def
    stopped_def watchdog_over_def resume_at_def drop_copy_def move_to_def fun_eq_iff
  have m1: "impl_move 3 impl_init s1" by (rule move_eq [OF m_probe [OF probe_call]]) (simp_all add: defs)
  have m2: "impl_move 3 s1 s2" by (rule move_eq [OF m_probe [OF probe_go]]) (simp_all add: defs)
  have m3: "impl_move 3 s2 s3" by (rule move_eq [OF m_probe [OF probe_copy]]) (simp_all add: defs)
  have m4: "impl_move 2 s3 s4" by (rule move_eq [OF m_conn [OF conn_call]]) (simp_all add: defs)
  have m5: "impl_move 2 s4 s5" by (rule move_eq [OF m_conn [OF conn_count]]) (simp_all add: defs)
  have m6: "impl_move 2 s5 s6" by (rule move_eq [OF m_conn [OF conn_copy]]) (simp_all add: defs)
  have m7: "impl_move 2 s6 s7" by (rule move_eq [OF m_conn [OF conn_win]]) (simp_all add: defs)
  have m8: "impl_move 2 s7 s8" by (rule move_eq [OF m_conn [OF conn_sdk]]) (simp_all add: defs)
  have m9: "impl_move 2 s8 s9" by (rule move_eq [OF m_conn [OF conn_back]]) (simp_all add: defs)
  have m10: "impl_move 2 s9 s10" by (rule move_eq [OF m_conn [OF conn_end]]) (simp_all add: defs)
  have m11: "impl_move 2 s10 s11" by (rule move_eq [OF m_exit [OF exit_drop]]) (simp_all add: defs)
  have m12: "impl_move 2 s11 s12" by (rule move_eq [OF m_exit [OF exit_uncount]]) (simp_all add: defs)
  have m13: "impl_move 2 s12 s13" by (rule move_eq [OF m_exit [OF exit_unref]]) (simp_all add: defs)
  have m14: "impl_move 1 s13 s14" by (rule move_eq [OF m_shut [OF shut_take]]) (simp_all add: defs)
  have m15: "impl_move 1 s14 s15" by (rule move_eq [OF m_shut [OF shut_signal]]) (simp_all add: defs)
  have m16: "impl_move 1 s15 s16" by (rule move_eq [OF m_shut [OF shut_join]]) (simp_all add: defs)
  have m17: "impl_move 1 s16 s17" by (rule move_eq [OF m_shut [OF shut_drained]]) (simp_all add: defs)
  have m18: "impl_move 3 s17 s18" by (rule move_eq [OF m_probe [OF probe_iter]]) (simp_all add: defs)
  have m19: "impl_move 3 s18 s19" by (rule move_eq [OF m_probe [OF probe_iterated]]) (simp_all add: defs)
  have m20: "impl_move 3 s19 s20" by (rule move_eq [OF m_probe [OF probe_state]]) (simp_all add: defs)
  have m21: "impl_move 3 s20 s21" by (rule move_eq [OF m_probe [OF probe_stated]]) (simp_all add: defs)
  have m22: "impl_move 3 s21 s22" by (rule move_eq [OF m_probe [OF probe_end]]) (simp_all add: defs)
  have m23: "impl_move 3 s22 s23" by (rule move_eq [OF m_exit [OF exit_unref]]) (simp_all add: defs)
  have m24: "impl_move 1 s23 s24" by (rule move_eq [OF m_shut [OF shut_last]]) (simp_all add: defs)
  have m25: "impl_move 1 s24 s25" by (rule move_eq [OF m_dtor [OF dtor_plain]]) (simp_all add: defs)
  have m26: "impl_move 1 s25 s26" by (rule move_eq [OF m_dtor [OF dtor_clean]]) (simp_all add: defs)
  have l0: "impl_later impl_init s8"
    by (rule later_move [OF later_move [OF later_move [OF later_move [OF later_move [OF later_move
      [OF later_move [OF later_move [OF later_refl m1] m2] m3] m4] m5] m6] m7] m8])
  have l1: "impl_later s8 s17"
    by (rule later_move [OF later_move [OF later_move [OF later_move [OF later_move [OF later_move
      [OF later_move [OF later_move [OF later_move [OF later_refl m9] m10] m11] m12] m13] m14]
      m15] m16] m17])
  have l2: "impl_later s17 s18"
    by (rule later_move [OF later_refl m18])
  have l3: "impl_later s18 s26"
    by (rule later_move [OF later_move [OF later_move [OF later_move [OF later_move [OF later_move
      [OF later_move [OF later_move [OF later_refl m19] m20] m21] m22] m23] m24] m25] m26])
  have r: "impl_reach s8" "impl_reach s17" "impl_reach s26"
    using later_reach [OF l0 ireach_init] l1 l2 l3 by (simp, blast intro: later_reach, blast intro: later_reach)
  have "place s8 2 = C_sdk" "drained s17" "place s18 3 = P_iter_sdk" "\<not> held s26" "\<forall>i. at_rest (place s26 i)"
    by (simp_all add: s8_def s17_def s18_def s26_def scene_def impl_init_def)
  with r l2 show ?thesis by blast
qed

theorem impl_exclusion_witness:
  "\<exists>s. impl_reach s \<and> in_body (place s 2) \<and> busy s \<and> \<not> in_body (place s 3)"
proof -
  obtain s where s: "impl_reach s" "place s 2 = C_sdk" using one_object by blast
  then have "in_body (place s 2)" by simp
  then show ?thesis using impl_exclusion [OF s(1), of 2 3] s(1) by fastforce
qed

theorem drain_is_final_witness:
  "\<exists>s t. impl_reach s \<and> drained s \<and> impl_later s t \<and> place t 3 = P_iter_sdk \<and> \<not> serving (place t 2) \<and> stopped t"
proof -
  obtain t u where "impl_reach t" "drained t" "impl_later t u" "place u 3 = P_iter_sdk"
    using one_object by blast
  then show ?thesis using drain_is_final [of t u 2] by blast
qed

theorem client_deleted_once_witness:
  "\<exists>s. impl_reach s \<and> in_sdk (place s 2) \<and> deletes s = 0 \<and> \<not> finished s"
proof -
  obtain s where "impl_reach s" "place s 2 = C_sdk" using one_object by blast
  then show ?thesis using client_deleted_once [of s 2] by (intro exI [of _ s]) simp
qed

theorem impl_progress_witness:
  "(\<exists>s i t. impl_reach s \<and> \<not> at_rest (place s i) \<and> impl_move i s t) \<and>
   (\<exists>s. impl_reach s \<and> finished s \<and> deletes s = 1)"
proof -
  obtain s v where s: "impl_reach s" "place s 2 = C_sdk"
    and v: "impl_reach v" "\<forall>i. at_rest (place v i)" "\<not> held v" using one_object by blast
  from s have "\<not> at_rest (place s 2)" by simp
  then have "\<exists>i t. \<not> at_rest (place s i) \<and> impl_move i s t" using impl_progress [OF s(1)] by blast
  moreover have "finished v \<and> deletes v = 1" using impl_progress [OF v(1)] v(2,3) by blast
  ultimately show ?thesis using s(1) v(1) by blast
qed

end
