(* ===== verification/Pool_Headers.thy ===== *)
theory Pool_Headers
  imports Prelude
begin

text \<open>
  The code of \<open>include/Thread_pool\<close> that the repository holds: the inline members of
  \<open>ConnectionWrapper\<close> in \<open>ConnectionPool.h\<close> and \<open>Thread_pool::enqueue\<close> in
  \<open>Thread_pool_define.h\<close>.  The members these call and the repository only declares (the
  transaction and statement calls on SQLite) and the task queue are parameters.
\<close>

section \<open>\<open>ConnectionWrapper\<close>\<close>

text \<open>
  The declared members, on a database state \<open>'d\<close>: each answers whether it succeeded.
\<close>

record 'd db_calls =
  begin_transaction :: "'d \<Rightarrow> bool \<times> 'd"
  execute :: "string \<Rightarrow> 'd \<Rightarrow> bool \<times> 'd"
  commit_transaction :: "'d \<Rightarrow> bool \<times> 'd"
  rollback_transaction :: "'d \<Rightarrow> bool \<times> 'd"

definition create_table_sql :: string where
  "create_table_sql = ''CREATE TABLE IF NOT EXISTS cache (''
     @ ''id INTEGER PRIMARY KEY AUTOINCREMENT,''
     @ ''timestamp INTEGER NOT NULL,''
     @ ''tag_name TEXT NOT NULL,''
     @ ''value REAL NOT NULL,''
     @ ''raw_metric TEXT NOT NULL,''
     @ ''status INTEGER DEFAULT 0,''
     @ ''retry_count INTEGER DEFAULT 0,''
     @ ''last_attempt_time INTEGER,''
     @ ''created_at INTEGER DEFAULT (strftime('%s', 'now')),''
     @ ''updated_at INTEGER DEFAULT (strftime('%s', 'now'))''
     @ '')''"

definition create_index1_sql :: string where
  "create_index1_sql = ''CREATE INDEX IF NOT EXISTS idx_timestamp ON cache(timestamp)''"

definition create_index2_sql :: string where
  "create_index2_sql = ''CREATE INDEX IF NOT EXISTS idx_tagname ON cache(tag_name)''"

definition create_index3_sql :: string where
  "create_index3_sql = ''CREATE INDEX  IF NOT EXISTS idx_cache_status_created ON cache(status, created_at)''"

text \<open>One guarded statement: it runs only while \<open>success\<close> holds, and its failure clears it.\<close>

definition if_success :: "'d db_calls \<Rightarrow> string \<Rightarrow> bool \<times> 'd \<Rightarrow> bool \<times> 'd" where
  "if_success D sql = (\<lambda>(success, d). if success then execute D sql d else (success, d))"

definition createTableIfNotExists :: "'d db_calls \<Rightarrow> 'd \<Rightarrow> bool \<times> 'd" where
  "createTableIfNotExists D d0 =
     (let d1 = snd (begin_transaction D d0);
          p = if_success D create_table_sql (True, d1);
          p = if_success D create_index1_sql p;
          p = if_success D create_index2_sql p;
          p = if_success D create_index3_sql p
      in commit_transaction D (snd p))"

text \<open>The statements in order, up to the first that fails, and whether none did.\<close>

fun run_statements :: "'d db_calls \<Rightarrow> string list \<Rightarrow> 'd \<Rightarrow> bool \<times> 'd" where
  "run_statements D [] d = (True, d)"
| "run_statements D (q # qs) d = (case execute D q d of (ok, e) \<Rightarrow> if ok then run_statements D qs e else (False, e))"

definition schema :: "string list" where
  "schema = [create_table_sql, create_index1_sql, create_index2_sql, create_index3_sql]"

lemma create_table_runs:
  "createTableIfNotExists D d = commit_transaction D (snd (run_statements D schema (snd (begin_transaction D d))))"
  by (simp add: createTableIfNotExists_def if_success_def schema_def Let_def split: prod.split)

text \<open>A database whose first statement fails and whose commits succeed; it counts its commits.\<close>

definition readonly_db :: "nat db_calls" where
  "readonly_db = \<lparr>begin_transaction = (\<lambda>n. (True, n)), execute = (\<lambda>_ n. (False, n)),
     commit_transaction = (\<lambda>n. (True, n + 1)), rollback_transaction = (\<lambda>n. (True, n))\<rparr>"

text \<open>
  \<open>createTableIfNotExists()\<close> runs its statements in order up to the first that fails and
  then always commits: it never rolls back, whatever failed, and its answer is the answer of
  the commit alone, so that it answers true for a schema of which no statement succeeded.
\<close>

theorem createTable_always_commits:
  "createTableIfNotExists D d = commit_transaction D (snd (run_statements D schema (snd (begin_transaction D d)))) \<and>
   createTableIfNotExists (D\<lparr>rollback_transaction := undo\<rparr>) d = createTableIfNotExists D d \<and>
   (\<exists>(E :: nat db_calls) n. \<not> fst (run_statements E schema n) \<and> fst (createTableIfNotExists E n))"
proof (intro conjI)
  have same: "if_success (D\<lparr>rollback_transaction := undo\<rparr>) = if_success D"
    by (simp add: if_success_def fun_eq_iff split: prod.split)
  show "createTableIfNotExists (D\<lparr>rollback_transaction := undo\<rparr>) d = createTableIfNotExists D d"
    by (simp add: createTableIfNotExists_def same)
  have "\<not> fst (run_statements readonly_db schema 0) \<and> fst (createTableIfNotExists readonly_db 0)"
    by (simp add: readonly_db_def create_table_runs schema_def)
  then show "\<exists>(E :: nat db_calls) n. \<not> fst (run_statements E schema n) \<and> fst (createTableIfNotExists E n)"
    by blast
qed (rule create_table_runs)

section \<open>\<open>Thread_pool::enqueue\<close>\<close>

text \<open>
  A pool of \<open>n\<close> threads under any interleaving of callers of \<open>enqueue\<close> and workers.  A caller
  counts its task, offers the closure to the queue, which refuses it when it cannot allocate,
  and wakes every worker when more tasks are pending than half the threads, one worker
  otherwise.  A worker takes a closure and calls it; the closure ends by counting itself off,
  signalling \<open>cv_finished\<close> when the count it took off was the last.  \<open>adding\<close>, \<open>waking\<close>: callers
  before the second and the third of their steps; \<open>lost\<close>: closures the queue refused; \<open>woke_all\<close>,
  \<open>woke_one\<close>, \<open>signals\<close>: the notifications; \<open>calls\<close>: the calls so far.
\<close>

record pool =
  pending_tasks :: nat
  adding :: nat
  waking :: nat
  queued :: nat
  working :: nat
  lost :: nat
  woke_all :: nat
  woke_one :: nat
  signals :: nat
  calls :: nat

inductive pool_step :: "nat \<Rightarrow> pool \<Rightarrow> pool \<Rightarrow> bool" for n where
  enqueue_count: "pool_step n s (s\<lparr>pending_tasks := pending_tasks s + 1, adding := adding s + 1, calls := calls s + 1\<rparr>)"
| enqueue_push: "0 < adding s \<Longrightarrow>
    pool_step n s (s\<lparr>adding := adding s - 1, waking := waking s + 1, queued := queued s + 1\<rparr>)"
| enqueue_refused: "0 < adding s \<Longrightarrow>
    pool_step n s (s\<lparr>adding := adding s - 1, waking := waking s + 1, lost := lost s + 1\<rparr>)"
| enqueue_all: "0 < waking s \<Longrightarrow> n div 2 < pending_tasks s \<Longrightarrow>
    pool_step n s (s\<lparr>waking := waking s - 1, woke_all := woke_all s + 1\<rparr>)"
| enqueue_one: "0 < waking s \<Longrightarrow> \<not> n div 2 < pending_tasks s \<Longrightarrow>
    pool_step n s (s\<lparr>waking := waking s - 1, woke_one := woke_one s + 1\<rparr>)"
| worker_take: "0 < queued s \<Longrightarrow> pool_step n s (s\<lparr>queued := queued s - 1, working := working s + 1\<rparr>)"
| closure_end: "0 < working s \<Longrightarrow> pool_step n s (s\<lparr>working := working s - 1,
     pending_tasks := pending_tasks s - 1, signals := signals s + (if pending_tasks s = 1 then 1 else 0)\<rparr>)"

abbreviation pool_later :: "nat \<Rightarrow> pool \<Rightarrow> pool \<Rightarrow> bool" where
  "pool_later n \<equiv> (pool_step n)\<^sup>*\<^sup>*"

definition pool_init :: pool where
  "pool_init = \<lparr>pending_tasks = 0, adding = 0, waking = 0, queued = 0, working = 0, lost = 0,
     woke_all = 0, woke_one = 0, signals = 0, calls = 0\<rparr>"

definition pool_inv :: "pool \<Rightarrow> bool" where
  "pool_inv s \<longleftrightarrow> pending_tasks s = adding s + queued s + working s + lost s \<and>
     calls s = adding s + waking s + woke_all s + woke_one s"

lemma pool_inv_step: "pool_step n s t \<Longrightarrow> pool_inv s \<Longrightarrow> pool_inv t"
  by (erule pool_step.cases) (simp_all add: pool_inv_def)

lemma pool_lost_step: "pool_step n s t \<Longrightarrow> pool_inv s \<Longrightarrow> 0 < lost s \<Longrightarrow> lost s \<le> lost t \<and> signals t = signals s"
  by (erule pool_step.cases) (simp_all add: pool_inv_def)

lemma pool_later_inv: "pool_later n s t \<Longrightarrow> pool_inv s \<Longrightarrow> pool_inv t"
  by (induction rule: rtranclp_induct) (auto intro: pool_inv_step)

lemma pool_later_lost:
  assumes "pool_later n s t" and "pool_inv s" and "0 < lost s"
  shows "lost s \<le> lost t \<and> signals t = signals s"
  using assms(1)
proof (induction rule: rtranclp_induct)
  case (step t u)
  then have "lost t \<le> lost u \<and> signals u = signals t"
    using pool_lost_step [of n t u] pool_later_inv [of n s t] assms(2,3) by simp
  then show ?case using step.IH by simp
qed simp

text \<open>
  \<open>pending_tasks\<close> is at every moment the number of tasks being handed over, queued,
  running or refused by the queue, and every finished call of \<open>enqueue\<close> has sent one
  notification.  While no task is refused the count is zero exactly when no work is left;
  once one is, it stays above zero and \<open>cv_finished\<close> is never signalled again, because
  \<open>enqueue\<close> ignores the answer of the queue.
\<close>

theorem pending_tasks_counts:
  assumes "pool_later n pool_init s"
  shows "pending_tasks s = adding s + queued s + working s + lost s \<and>
    calls s = adding s + waking s + woke_all s + woke_one s \<and>
    (lost s = 0 \<longrightarrow> (pending_tasks s = 0 \<longleftrightarrow> adding s + queued s + working s = 0)) \<and>
    (0 < lost s \<longrightarrow> (\<forall>t. pool_later n s t \<longrightarrow> 0 < pending_tasks t \<and> signals t = signals s))"
proof -
  have inv: "pool_inv s" by (rule pool_later_inv [OF assms]) (simp add: pool_inv_def pool_init_def)
  have later: "0 < pending_tasks t \<and> signals t = signals s" if "0 < lost s" "pool_later n s t" for t
    using pool_later_lost [OF that(2) inv that(1)] pool_later_inv [OF that(2) inv] that(1)
    by (simp add: pool_inv_def)
  from inv have c: "pending_tasks s = adding s + queued s + working s + lost s"
    "calls s = adding s + waking s + woke_all s + woke_one s"
    by (simp_all add: pool_inv_def)
  then have "lost s = 0 \<longrightarrow> (pending_tasks s = 0 \<longleftrightarrow> adding s + queued s + working s = 0)" by simp
  with c later show ?thesis by blast
qed

text \<open>One task, refused: the pool waits for it for ever.\<close>

definition refused_pool :: pool where
  "refused_pool = \<lparr>pending_tasks = 1, adding = 0, waking = 1, queued = 0, working = 0, lost = 1,
     woke_all = 0, woke_one = 0, signals = 0, calls = 1\<rparr>"

lemma refused_for_ever:
  "pool_later 8 pool_init refused_pool \<and> lost refused_pool = 1 \<and>
   \<not> (\<exists>t. pool_later 8 refused_pool t \<and> pending_tasks t = 0)"
proof -
  have "pool_step 8 pool_init (pool_init\<lparr>pending_tasks := 1, adding := 1, calls := 1\<rparr>)"
    using enqueue_count [of 8 pool_init] by (simp add: pool_init_def)
  moreover have "pool_step 8 (pool_init\<lparr>pending_tasks := 1, adding := 1, calls := 1\<rparr>) refused_pool"
    using enqueue_refused [of "pool_init\<lparr>pending_tasks := 1, adding := 1, calls := 1\<rparr>" 8]
    by (simp add: pool_init_def refused_pool_def)
  ultimately have r: "pool_later 8 pool_init refused_pool" by (meson r_into_rtranclp rtranclp_trans)
  moreover have "lost refused_pool = 1" by (simp add: refused_pool_def)
  ultimately show ?thesis using pending_tasks_counts [OF r] by fastforce
qed

end
