(* ===== verification/Bench_Args.thy ===== *)
theory Bench_Args
  imports Client_Config Complex_Main
begin

text \<open>
  The command lines of the benchmark programs: \<open>strtoul\<close> and \<open>strtod\<close> as the programs use
  them, and the three functions \<open>parse\<close> of \<open>bench/bench_latency.cpp\<close>,
  \<open>bench/bench_recovery.cpp\<close> and \<open>bench/bench_rss.cpp\<close>.
\<close>

section \<open>Doubles\<close>

text \<open>
  A \<open>double\<close> is an exact rational, an infinity or not a number: comparisons and the
  propagation of the special values are those of IEEE 754; rounding and the sign of zero
  are not modelled.
\<close>

datatype double = Num rat | PInf | MInf | NaN

instantiation double :: "{ord, plus, uminus, minus, times, inverse}"
begin

fun less_eq_double :: "double \<Rightarrow> double \<Rightarrow> bool" where
  "less_eq_double NaN _ = False"
| "less_eq_double _ NaN = False"
| "less_eq_double MInf _ = True"
| "less_eq_double _ PInf = True"
| "less_eq_double (Num a) (Num b) = (a \<le> b)"
| "less_eq_double _ _ = False"

definition less_double :: "double \<Rightarrow> double \<Rightarrow> bool" where
  "less_double x y \<longleftrightarrow> x \<le> y \<and> \<not> y \<le> x"

fun uminus_double :: "double \<Rightarrow> double" where
  "uminus_double (Num a) = Num (- a)"
| "uminus_double PInf = MInf"
| "uminus_double MInf = PInf"
| "uminus_double NaN = NaN"

fun plus_double :: "double \<Rightarrow> double \<Rightarrow> double" where
  "plus_double (Num a) (Num b) = Num (a + b)"
| "plus_double NaN _ = NaN"
| "plus_double _ NaN = NaN"
| "plus_double PInf MInf = NaN"
| "plus_double MInf PInf = NaN"
| "plus_double PInf _ = PInf"
| "plus_double _ PInf = PInf"
| "plus_double _ _ = MInf"

definition minus_double :: "double \<Rightarrow> double \<Rightarrow> double" where
  "minus_double x y = x + (- y)"

fun scale_inf :: "rat \<Rightarrow> double" where
  "scale_inf a = (if a = 0 then NaN else if 0 < a then PInf else MInf)"

fun times_double :: "double \<Rightarrow> double \<Rightarrow> double" where
  "times_double (Num a) (Num b) = Num (a * b)"
| "times_double NaN _ = NaN"
| "times_double _ NaN = NaN"
| "times_double PInf (Num b) = scale_inf b"
| "times_double MInf (Num b) = - scale_inf b"
| "times_double (Num a) PInf = scale_inf a"
| "times_double (Num a) MInf = - scale_inf a"
| "times_double PInf y = y"
| "times_double MInf y = - y"

fun inverse_double :: "double \<Rightarrow> double" where
  "inverse_double (Num a) = (if a = 0 then PInf else Num (1 / a))"
| "inverse_double NaN = NaN"
| "inverse_double _ = Num 0"

definition divide_double :: "double \<Rightarrow> double \<Rightarrow> double" where
  "divide_double x y = x * inverse y"

instance ..

end

section \<open>Numbers in the text of an argument\<close>

definition code :: "char \<Rightarrow> nat" where
  "code c = of_char c"

text \<open>\<open>isspace\<close> in the C locale.\<close>

definition is_space :: "char \<Rightarrow> bool" where
  "is_space c \<longleftrightarrow> code c = 32 \<or> 9 \<le> code c \<and> code c \<le> 13"

text \<open>The value of a digit in a base up to sixteen.\<close>

definition digit :: "nat \<Rightarrow> char \<Rightarrow> nat option" where
  "digit base c =
     (let n = code c;
          d = (if 48 \<le> n \<and> n \<le> 57 then n - 48
               else if 65 \<le> n \<and> n \<le> 70 then n - 55
               else if 97 \<le> n \<and> n \<le> 102 then n - 87
               else 16)
      in if d < base then Some d else None)"

text \<open>The longest run of digits: value after \<open>v\<close>, number after \<open>n\<close>, and the rest of the text.\<close>

fun read_digits :: "nat \<Rightarrow> string \<Rightarrow> nat \<Rightarrow> nat \<Rightarrow> nat \<times> nat \<times> string" where
  "read_digits base [] v n = (v, n, [])"
| "read_digits base (c # cs) v n = (case digit base c of
     None \<Rightarrow> (v, n, c # cs)
   | Some d \<Rightarrow> read_digits base cs (v * base + d) (n + 1))"

definition read_sign :: "string \<Rightarrow> bool \<times> string" where
  "read_sign s = (case s of
       [] \<Rightarrow> (False, [])
     | c # cs \<Rightarrow> if code c = 45 then (True, cs) else if code c = 43 then (False, cs) else (False, s))"

text \<open>
  \<open>strtoul(s, nullptr, 10)\<close>: no digits give 0, a value that does not fit gives \<open>ULONG_MAX\<close>,
  and a minus sign negates the result as an unsigned number.
\<close>

definition strtoul :: "string \<Rightarrow> u64" where
  "strtoul s = (case read_sign (dropWhile is_space s) of (neg, t) \<Rightarrow>
     case read_digits 10 t 0 0 of (v, _, _) \<Rightarrow>
       if 2 ^ 64 \<le> v then - 1 else if neg then - of_nat v else of_nat v)"

text \<open>
  \<open>strtod(s, nullptr)\<close>: \<open>inf\<close> and \<open>nan\<close> in any case of letters, hexadecimal after \<open>0x\<close>, decimal
  otherwise; the exponent counts only with a digit; a value that rounds beyond the largest
  \<open>double\<close> gives an infinity.
\<close>

definition lower :: "char \<Rightarrow> nat" where
  "lower c = (if 65 \<le> code c \<and> code c \<le> 90 then code c + 32 else code c)"

definition starts_with :: "string \<Rightarrow> string \<Rightarrow> bool" where
  "starts_with p s \<longleftrightarrow> length p \<le> length s \<and> map lower (take (length p) s) = map code p"

definition read_mantissa :: "nat \<Rightarrow> string \<Rightarrow> rat \<times> nat \<times> string" where
  "read_mantissa base s = (case read_digits base s 0 0 of (v, n, r) \<Rightarrow>
     if r \<noteq> [] \<and> code (hd r) = 46
     then case read_digits base (tl r) v 0 of (v', m, r') \<Rightarrow> (of_nat v' / of_nat base ^ m, n + m, r')
     else (of_nat v, n, r))"

definition read_exponent :: "nat \<Rightarrow> string \<Rightarrow> int" where
  "read_exponent letter s =
     (if s \<noteq> [] \<and> lower (hd s) = letter
      then case read_sign (tl s) of (neg, t) \<Rightarrow>
        case read_digits 10 t 0 0 of (e, _, _) \<Rightarrow> if neg then - int e else int e
      else 0)"

definition scale :: "rat \<Rightarrow> rat \<Rightarrow> int \<Rightarrow> rat" where
  "scale x base e = (if 0 \<le> e then x * base ^ nat e else x / base ^ nat (- e))"

definition read_number :: "string \<Rightarrow> double" where
  "read_number s =
     (let hex = starts_with ''0x'' s;
          (m, n, r) = read_mantissa (if hex then 16 else 10) (if hex then drop 2 s else s);
          x = (if n = 0 then 0
               else scale m (if hex then 2 else 10) (read_exponent (if hex then 112 else 101) r))
      in if 2 ^ 1024 - 2 ^ 970 \<le> x then PInf else Num x)"

definition strtod :: "string \<Rightarrow> double" where
  "strtod s = (case read_sign (dropWhile is_space s) of (neg, t) \<Rightarrow>
     let x = (if starts_with ''inf'' t then PInf else if starts_with ''nan'' t then NaN else read_number t)
     in if neg then - x else x)"

section \<open>The loop over the arguments\<close>

text \<open>
  \<open>Exit n\<close>: the program ends with status \<open>n\<close> while it reads its arguments.  The loop is the
  same in the three programs; \<open>usage\<close> are the arguments that ask for help, \<open>opts\<close> those
  that take the next argument as their value and \<open>flags\<close> those that stand alone.
\<close>

datatype 'a parsed = Args 'a | Exit nat

fun parse_loop ::
  "(string \<Rightarrow> bool) \<Rightarrow> (string \<Rightarrow> (string \<Rightarrow> 'a \<Rightarrow> 'a) option) \<Rightarrow> (string \<Rightarrow> ('a \<Rightarrow> 'a) option)
    \<Rightarrow> string list \<Rightarrow> 'a \<Rightarrow> 'a parsed" where
  "parse_loop usage opts flags [] a = Args a"
| "parse_loop usage opts flags (k # rest) a =
     (if usage k then Exit 0
      else case opts k of
        Some set_value \<Rightarrow> (case rest of
            [] \<Rightarrow> Exit 2
          | v # rest' \<Rightarrow> parse_loop usage opts flags rest' (set_value v a))
      | None \<Rightarrow> (case flags k of
            Some set_flag \<Rightarrow> parse_loop usage opts flags rest (set_flag a)
          | None \<Rightarrow> Exit 2))"

fun map_parsed :: "('a \<Rightarrow> 'b) \<Rightarrow> 'a parsed \<Rightarrow> 'b parsed" where
  "map_parsed f (Args a) = Args (f a)"
| "map_parsed f (Exit n) = Exit n"

section \<open>\<open>bench_latency\<close>\<close>

definition LOG_ERROR :: u32 where "LOG_ERROR = 500"

record latency_args =
  la_threads :: u64
  la_ops :: u64
  la_batch :: u64
  la_repeats :: u64
  la_port :: u16
  la_endpoint :: string
  la_write :: bool
  la_rate :: double
  la_perThreadClient :: bool
  la_logLevel :: u32

definition latency_default :: latency_args where
  "latency_default = \<lparr>la_threads = 8, la_ops = 8000, la_batch = 16, la_repeats = 1, la_port = 4890,
     la_endpoint = [], la_write = False, la_rate = Num 0, la_perThreadClient = False,
     la_logLevel = LOG_ERROR\<rparr>"

definition latency_opts :: "string \<Rightarrow> (string \<Rightarrow> latency_args \<Rightarrow> latency_args) option" where
  "latency_opts k =
     (if k = ''--threads'' then Some (\<lambda>v a. a\<lparr>la_threads := strtoul v\<rparr>)
      else if k = ''--ops'' then Some (\<lambda>v a. a\<lparr>la_ops := strtoul v\<rparr>)
      else if k = ''--batch'' then Some (\<lambda>v a. a\<lparr>la_batch := strtoul v\<rparr>)
      else if k = ''--port'' then Some (\<lambda>v a. a\<lparr>la_port := ucast (strtoul v)\<rparr>)
      else if k = ''--endpoint'' then Some (\<lambda>v a. a\<lparr>la_endpoint := v\<rparr>)
      else if k = ''--repeats'' then Some (\<lambda>v a. a\<lparr>la_repeats := strtoul v\<rparr>)
      else if k = ''--rate'' then Some (\<lambda>v a. a\<lparr>la_rate := (if strtod v < Num 0 then Num 0 else strtod v)\<rparr>)
      else if k = ''--log-level'' then Some (\<lambda>v a. a\<lparr>la_logLevel := ucast (strtoul v)\<rparr>)
      else None)"

definition latency_flags :: "string \<Rightarrow> (latency_args \<Rightarrow> latency_args) option" where
  "latency_flags k =
     (if k = ''--write'' then Some (\<lambda>a. a\<lparr>la_write := True\<rparr>)
      else if k = ''--per-thread-client'' then Some (\<lambda>a. a\<lparr>la_perThreadClient := True\<rparr>)
      else None)"

definition at_least_one :: "u64 \<Rightarrow> u64" where
  "at_least_one n = (if n = 0 then 1 else n)"

definition latency_limits :: "latency_args \<Rightarrow> latency_args" where
  "latency_limits a = a\<lparr>la_threads := at_least_one (la_threads a), la_ops := at_least_one (la_ops a),
     la_batch := at_least_one (la_batch a), la_repeats := at_least_one (la_repeats a)\<rparr>"

definition parse_latency :: "string list \<Rightarrow> latency_args parsed" where
  "parse_latency argv = map_parsed latency_limits
     (parse_loop (\<lambda>k. k = ''--help'' \<or> k = ''-h'') latency_opts latency_flags argv latency_default)"

section \<open>\<open>bench_recovery\<close>\<close>

record recovery_args =
  ra_apiCycles :: u64
  ra_restartCycles :: u64
  ra_port :: u16
  ra_endpoint :: string

definition recovery_default :: recovery_args where
  "recovery_default = \<lparr>ra_apiCycles = 30, ra_restartCycles = 20, ra_port = 4891, ra_endpoint = []\<rparr>"

definition recovery_opts :: "string \<Rightarrow> (string \<Rightarrow> recovery_args \<Rightarrow> recovery_args) option" where
  "recovery_opts k =
     (if k = ''--api-cycles'' then Some (\<lambda>v a. a\<lparr>ra_apiCycles := strtoul v\<rparr>)
      else if k = ''--restart-cycles'' then Some (\<lambda>v a. a\<lparr>ra_restartCycles := strtoul v\<rparr>)
      else if k = ''--port'' then Some (\<lambda>v a. a\<lparr>ra_port := ucast (strtoul v)\<rparr>)
      else if k = ''--endpoint'' then Some (\<lambda>v a. a\<lparr>ra_endpoint := v\<rparr>)
      else None)"

definition parse_recovery :: "string list \<Rightarrow> recovery_args parsed" where
  "parse_recovery argv = parse_loop (\<lambda>_. False) recovery_opts (\<lambda>_. None) argv recovery_default"

section \<open>\<open>bench_rss\<close>\<close>

record rss_args =
  sa_hours :: double
  sa_intervalSec :: double
  sa_hz :: double
  sa_batch :: u64
  sa_port :: u16
  sa_endpoint :: string

definition rss_default :: rss_args where
  "rss_default = \<lparr>sa_hours = Num 24, sa_intervalSec = Num 60, sa_hz = Num 1, sa_batch = 16,
     sa_port = 4892, sa_endpoint = []\<rparr>"

definition rss_opts :: "string \<Rightarrow> (string \<Rightarrow> rss_args \<Rightarrow> rss_args) option" where
  "rss_opts k =
     (if k = ''--hours'' then Some (\<lambda>v a. a\<lparr>sa_hours := strtod v\<rparr>)
      else if k = ''--interval'' then Some (\<lambda>v a. a\<lparr>sa_intervalSec := strtod v\<rparr>)
      else if k = ''--hz'' then Some (\<lambda>v a. a\<lparr>sa_hz := strtod v\<rparr>)
      else if k = ''--batch'' then Some (\<lambda>v a. a\<lparr>sa_batch := strtoul v\<rparr>)
      else if k = ''--port'' then Some (\<lambda>v a. a\<lparr>sa_port := ucast (strtoul v)\<rparr>)
      else if k = ''--endpoint'' then Some (\<lambda>v a. a\<lparr>sa_endpoint := v\<rparr>)
      else None)"

definition rss_limits :: "rss_args \<Rightarrow> rss_args" where
  "rss_limits a = a\<lparr>
     sa_hours := (if sa_hours a \<le> Num 0 then Num (1 / 100) else sa_hours a),
     sa_intervalSec := (if sa_intervalSec a \<le> Num 0 then Num 1 else sa_intervalSec a),
     sa_hz := (if sa_hz a \<le> Num 0 then Num 1 else sa_hz a),
     sa_batch := at_least_one (sa_batch a)\<rparr>"

definition parse_rss :: "string list \<Rightarrow> rss_args parsed" where
  "parse_rss argv = map_parsed rss_limits (parse_loop (\<lambda>_. False) rss_opts (\<lambda>_. None) argv rss_default)"

section \<open>\<open>bench_server\<close>\<close>

record server_args =
  va_port :: u16
  va_node :: string
  va_seconds :: double

definition server_default :: server_args where
  "server_default = \<lparr>va_port = 4892, va_node = ''BenchInt'', va_seconds = Num 0\<rparr>"

definition server_opts :: "string \<Rightarrow> (string \<Rightarrow> server_args \<Rightarrow> server_args) option" where
  "server_opts k =
     (if k = ''--port'' then Some (\<lambda>v a. a\<lparr>va_port := ucast (strtoul v)\<rparr>)
      else if k = ''--node'' then Some (\<lambda>v a. a\<lparr>va_node := v\<rparr>)
      else if k = ''--seconds'' then Some (\<lambda>v a. a\<lparr>va_seconds := strtod v\<rparr>)
      else None)"

definition parse_server :: "string list \<Rightarrow> server_args parsed" where
  "parse_server argv = parse_loop (\<lambda>_. False) server_opts (\<lambda>_. None) argv server_default"

section \<open>Printing numbers and reading them back\<close>

fun decimal :: "nat \<Rightarrow> string" where
  "decimal n = (if n < 10 then [char_of (48 + n)] else decimal (n div 10) @ [char_of (48 + n mod 10)])"

declare decimal.simps [simp del]

lemma digit_char: "d < 10 \<Longrightarrow> digit 10 (char_of (48 + d)) = Some d"
  by (simp add: digit_def code_def Let_def)

lemma read_digits_append:
  "read_digits 10 (decimal n @ s) v k = read_digits 10 s (v * 10 ^ length (decimal n) + n) (k + length (decimal n))"
proof (induction n arbitrary: v k s rule: decimal.induct)
  case (1 n)
  show ?case
  proof (cases "n < 10")
    case True
    then show ?thesis by (simp add: decimal.simps [of n] digit_char)
  next
    case False
    have "read_digits 10 (decimal n @ s) v k =
        read_digits 10 (char_of (48 + n mod 10) # s)
          (v * 10 ^ length (decimal (n div 10)) + n div 10) (k + length (decimal (n div 10)))"
      using 1 [OF False, of "char_of (48 + n mod 10) # s" v k] False by (simp add: decimal.simps [of n])
    also have "\<dots> = read_digits 10 s ((v * 10 ^ length (decimal (n div 10)) + n div 10) * 10 + n mod 10)
          (k + length (decimal (n div 10)) + 1)"
      by (simp add: digit_char)
    also have "(v * 10 ^ length (decimal (n div 10)) + n div 10) * 10 + n mod 10 =
        v * 10 ^ length (decimal n) + n"
      using False by (simp add: decimal.simps [of n] algebra_simps)
    finally show ?thesis using False by (simp add: decimal.simps [of n])
  qed
qed

lemma read_decimal: "read_digits 10 (decimal n) 0 0 = (n, length (decimal n), [])"
  using read_digits_append [of n "[]" 0 0] by simp

text \<open>A printed number consists of digits.\<close>

lemma decimal_digits: "c \<in> set (decimal n) \<Longrightarrow> 48 \<le> code c \<and> code c \<le> 57"
proof (induction n rule: decimal.induct)
  case (1 n)
  then show ?case
    by (cases "n < 10") (auto simp: decimal.simps [of n] code_def)
qed

lemma decimal_first: "\<exists>c cs. decimal n = c # cs \<and> 48 \<le> code c \<and> code c \<le> 57"
proof (cases "decimal n")
  case Nil
  then show ?thesis by (simp add: decimal.simps [of n] split: if_splits)
next
  case (Cons c cs)
  then show ?thesis using decimal_digits [of c n] by simp
qed

lemma read_sign_decimal: "read_sign (dropWhile is_space (decimal n)) = (False, decimal n)"
  using decimal_first [of n] by (auto simp: read_sign_def is_space_def)

lemma strtoul_decimal: "n < 2 ^ 64 \<Longrightarrow> strtoul (decimal n) = of_nat n"
  by (simp add: strtoul_def read_sign_decimal read_decimal)

lemma strtoul_word: "strtoul (decimal (unat (w :: u64))) = w"
  using strtoul_decimal [of "unat w"] unsigned_less [of w] by simp

lemma up_down_16: "(ucast (ucast w :: u64) :: u16) = w"
  by (rule bit_word_eqI) (simp add: bit_unsigned_iff)

lemma up_down_32: "(ucast (ucast w :: u64) :: u32) = w"
  by (rule bit_word_eqI) (simp add: bit_unsigned_iff)

lemma strtoul_port: "ucast (strtoul (decimal (unat (w :: u16)))) = w"
proof -
  have "unat w < 2 ^ LENGTH(16)" by (rule unsigned_less)
  then show ?thesis using strtoul_decimal [of "unat w"] by (simp add: up_down_16)
qed

lemma strtoul_u32: "ucast (strtoul (decimal (unat (w :: u32)))) = w"
proof -
  have "unat w < 2 ^ LENGTH(32)" by (rule unsigned_less)
  then show ?thesis using strtoul_decimal [of "unat w"] by (simp add: up_down_32)
qed

text \<open>The texts that \<open>strtod\<close> reads in another way do not consist of digits.\<close>

lemma not_prefix:
  assumes "\<And>c. c \<in> set s \<Longrightarrow> 48 \<le> code c \<and> code c \<le> 57" and "p \<in> set ps" and "57 < code p"
  shows "\<not> starts_with ps s"
proof
  assume "starts_with ps s"
  then have eq: "map lower (take (length ps) s) = map code ps" by (simp add: starts_with_def)
  have "set (map code ps) \<subseteq> {48..57}"
    using assms(1) set_take_subset [of "length ps" s] by (fastforce simp: eq [symmetric] lower_def)
  with assms(2,3) show False by fastforce
qed

lemma strtod_decimal:
  assumes "n < 2 ^ 53"
  shows "strtod (decimal n) = Num (of_nat n)"
proof -
  note no = not_prefix [of "decimal n", OF decimal_digits]
  have plain: "\<not> starts_with ''inf'' (decimal n)" "\<not> starts_with ''nan'' (decimal n)"
      "\<not> starts_with ''0x'' (decimal n)"
    by (rule no [where p = "CHR ''n''"] no [where p = "CHR ''x''"]; simp add: code_def)+
  have "(of_nat n :: rat) < of_nat (2 ^ 53)" using assms by (simp only: of_nat_less_iff)
  also have "(of_nat (2 ^ 53) :: rat) \<le> 2 ^ 1024 - 2 ^ 970" by simp
  finally have small: "\<not> 2 ^ 1024 - 2 ^ 970 \<le> (of_nat n :: rat)" by simp
  have "decimal n \<noteq> []" using decimal_first [of n] by auto
  then show ?thesis
    using plain small
    by (simp add: strtod_def read_sign_decimal read_number_def read_mantissa_def read_decimal
        read_exponent_def scale_def)
qed

section \<open>The loop\<close>

text \<open>A program that does not accept its arguments ends with status 0 or 2.\<close>

lemma parse_loop_exit:
  "parse_loop usage opts flags argv a = Exit n \<Longrightarrow> n = 0 \<or> n = 2"
  by (induction usage opts flags argv a rule: parse_loop.induct)
    (auto split: if_splits option.splits list.splits)

text \<open>What is kept by every setting holds of the settings that are accepted.\<close>

lemma parse_loop_keeps:
  assumes "parse_loop usage opts flags argv a = Args b" and "P a"
    and "\<And>k f v x. opts k = Some f \<Longrightarrow> P x \<Longrightarrow> P (f v x)"
    and "\<And>k f x. flags k = Some f \<Longrightarrow> P x \<Longrightarrow> P (f x)"
  shows "P b"
  using assms
  by (induction usage opts flags argv a rule: parse_loop.induct)
    (auto split: if_splits option.splits list.splits)

text \<open>One setting with its value, and one flag.\<close>

lemma parse_loop_opt:
  "\<not> usage k \<Longrightarrow> opts k = Some f \<Longrightarrow>
    parse_loop usage opts flags (k # v # rest) a = parse_loop usage opts flags rest (f v a)"
  by simp

lemma parse_loop_flag:
  "\<not> usage k \<Longrightarrow> opts k = None \<Longrightarrow> flags k = Some f \<Longrightarrow>
    parse_loop usage opts flags (k # rest) a = parse_loop usage opts flags rest (f a)"
  by simp

section \<open>Round trip\<close>

text \<open>The command line of a run of \<open>bench_latency\<close>; \<open>rate\<close> is a whole number of calls a second.\<close>

definition latency_line :: "latency_args \<Rightarrow> nat \<Rightarrow> string list" where
  "latency_line a rate =
     [''--threads'', decimal (unat (la_threads a)), ''--ops'', decimal (unat (la_ops a)),
      ''--batch'', decimal (unat (la_batch a)), ''--repeats'', decimal (unat (la_repeats a)),
      ''--port'', decimal (unat (la_port a)), ''--endpoint'', la_endpoint a,
      ''--rate'', decimal rate, ''--log-level'', decimal (unat (la_logLevel a))]
     @ (if la_write a then [''--write''] else [])
     @ (if la_perThreadClient a then [''--per-thread-client''] else [])"

definition latency_ok :: "latency_args \<Rightarrow> bool" where
  "latency_ok a \<longleftrightarrow> la_threads a \<noteq> 0 \<and> la_ops a \<noteq> 0 \<and> la_batch a \<noteq> 0 \<and> la_repeats a \<noteq> 0 \<and>
     \<not> la_rate a < Num 0"

lemma latency_limits_ok: "latency_ok a \<Longrightarrow> latency_limits a = a"
  by (simp add: latency_ok_def latency_limits_def at_least_one_def)

lemma latency_rate_kept:
  assumes "parse_loop usage latency_opts latency_flags argv latency_default = Args b"
  shows "\<not> la_rate b < Num 0"
proof -
  have zero: "\<not> Num 0 < Num 0" by (simp add: less_double_def)
  show ?thesis
    by (rule parse_loop_keeps [OF assms, of "\<lambda>a. \<not> la_rate a < Num 0"])
      (auto simp: latency_default_def latency_opts_def latency_flags_def zero split: if_splits)
qed

lemma parse_latency_cases:
  "parse_latency argv = Exit 0 \<or> parse_latency argv = Exit 2 \<or> (\<exists>a. parse_latency argv = Args a \<and> latency_ok a)"
proof (cases "parse_loop (\<lambda>k. k = ''--help'' \<or> k = ''-h'') latency_opts latency_flags argv latency_default")
  case (Args b)
  from latency_rate_kept [OF this] have "latency_ok (latency_limits b)"
    by (simp add: latency_ok_def latency_limits_def at_least_one_def)
  with Args show ?thesis by (simp add: parse_latency_def)
next
  case (Exit n)
  from parse_loop_exit [OF this] Exit show ?thesis by (auto simp: parse_latency_def)
qed

text \<open>
  C38: the command line of \<open>bench_latency\<close> means what it says: the line that spells out a
  set of settings is read back as exactly these settings, whatever the endpoint and the numbers
  that fit their types are; and whatever the line is, the program either ends with status 0 or 2
  or runs with at least one thread, call, item and repeat and a rate that is not negative.
\<close>

theorem latency_line_roundtrip:
  assumes "latency_ok a" and "la_rate a = Num (of_nat rate)" and "rate < 2 ^ 53"
  shows "parse_latency (latency_line a rate) = Args a \<and>
    (parse_latency argv = Exit 0 \<or> parse_latency argv = Exit 2 \<or>
      (\<exists>b. parse_latency argv = Args b \<and> latency_ok b))"
proof
  let ?usage = "\<lambda>k. k = ''--help'' \<or> k = ''-h''"
  have rate: "strtod (decimal rate) = la_rate a" and pos: "\<not> la_rate a < Num 0"
    using assms by (simp_all add: strtod_decimal latency_ok_def)
  have "parse_loop ?usage latency_opts latency_flags (latency_line a rate) latency_default = Args a"
    by (simp add: latency_line_def latency_opts_def latency_flags_def strtoul_word strtoul_port
        strtoul_u32 rate pos latency_default_def)
  then show "parse_latency (latency_line a rate) = Args a"
    using latency_limits_ok [OF assms(1)] by (simp add: parse_latency_def)
qed (rule parse_latency_cases)

theorem latency_line_roundtrip_witness:
  "parse_latency [''--threads'', ''4'', ''--ops'', ''8000'', ''--batch'', ''16'', ''--repeats'', ''1'',
     ''--port'', ''4890'', ''--endpoint'', ''opc.tcp://10.0.0.5:4840'', ''--rate'', ''50'',
     ''--log-level'', ''500'', ''--write''] =
   Args (latency_default\<lparr>la_threads := 4, la_endpoint := ''opc.tcp://10.0.0.5:4840'', la_write := True,
     la_rate := Num 50\<rparr>)"
proof -
  let ?a = "latency_default\<lparr>la_threads := 4, la_endpoint := ''opc.tcp://10.0.0.5:4840'',
    la_write := True, la_rate := Num 50\<rparr>"
  have "latency_ok ?a" by (simp add: latency_ok_def latency_default_def less_double_def)
  moreover have "la_rate ?a = Num (of_nat 50)" by simp
  ultimately have "parse_latency (latency_line ?a 50) = Args ?a"
    using latency_line_roundtrip [of ?a 50 "[]"] by simp
  then show ?thesis
    by (simp add: latency_line_def latency_default_def LOG_ERROR_def decimal.simps char_of_def bit_0)
qed

end
