(* ===== verification/Bench_Server.thy ===== *)
theory Bench_Server
  imports Bench_Args
begin

text \<open>
  The in-process server of the benchmarks: class \<open>Server\<close>, \<open>benchLog\<close> and \<open>residentKb\<close> of
  \<open>bench/bench_common.h\<close>.  The open62541 server is a parameter.  The class is modelled as it
  runs in one thread, and its serving thread under every interleaving.
\<close>

section \<open>Parameters\<close>

text \<open>
  The server side of open62541 on a world \<open>'w\<close>, a server being a number.  \<open>newWithConfig\<close> gives
  \<open>None\<close> for a null pointer; \<open>getConfig\<close> tells whether the configuration is not null and, if so,
  whether it has a logger; \<open>redirectLog\<close> stores \<open>benchLog\<close> in that logger; \<open>setUrl\<close> is
  \<open>UA_Array_copy\<close> of one string into \<open>serverUrls\<close>, with its answer; \<open>addNode\<close> is
  \<open>UA_Server_addVariableNode\<close>, whose answer the class drops.
\<close>

record 'w server_lib =
  config_setDefault :: "'w \<Rightarrow> bool \<times> 'w"
  config_clean :: "'w \<Rightarrow> 'w"
  newWithConfig :: "'w \<Rightarrow> nat option \<times> 'w"
  getConfig :: "nat \<Rightarrow> 'w \<Rightarrow> bool option"
  redirectLog :: "nat \<Rightarrow> 'w \<Rightarrow> 'w"
  dropUrls :: "nat \<Rightarrow> 'w \<Rightarrow> 'w"
  setUrl :: "nat \<Rightarrow> string \<Rightarrow> 'w \<Rightarrow> bool \<times> 'w"
  addNode :: "nat \<Rightarrow> string \<Rightarrow> 'w \<Rightarrow> 'w"
  run_startup :: "nat \<Rightarrow> 'w \<Rightarrow> bool \<times> 'w"
  run_shutdown :: "nat \<Rightarrow> 'w \<Rightarrow> 'w"
  server_delete :: "nat \<Rightarrow> 'w \<Rightarrow> 'w"

section \<open>Logging and memory\<close>

text \<open>What \<open>benchLog\<close> writes to standard error: the message, unless it is null or below the threshold.\<close>

definition benchLog :: "u32 \<Rightarrow> u32 \<Rightarrow> string option \<Rightarrow> string option" where
  "benchLog threshold level msg = (if level < threshold then None else msg)"

text \<open>
  \<open>residentKb\<close> on Linux.  \<open>statm\<close>: \<open>None\<close> when the file cannot be opened, otherwise the numbers
  that \<open>fscanf\<close> reads from it, at most two.
\<close>

definition residentKb :: "int list option \<Rightarrow> int \<Rightarrow> int" where
  "residentKb statm page_size = (case statm of
       None \<Rightarrow> - 1
     | Some xs \<Rightarrow> (case take 2 xs of
          [sizePages, residentPages] \<Rightarrow> residentPages * (page_size div 1024)
        | _ \<Rightarrow> - 1))"

section \<open>The class in one thread\<close>

text \<open>\<open>joinable\<close>: \<open>thread_\<close> stands for a thread.  \<open>Inl n\<close>: \<open>std::exit(n)\<close>.\<close>

record server =
  srv_handle :: nat
  srv_port :: u16
  srv_node :: string
  running :: bool
  started :: bool
  joinable :: bool

type_synonym 'w server_op = "server \<Rightarrow> 'w \<Rightarrow> (nat + server) \<times> 'w"

definition startServing :: "'w server_lib \<Rightarrow> 'w server_op" where
  "startServing L s w =
     (if started s then (Inr s, w)
      else case run_startup L (srv_handle s) w of
        (False, w') \<Rightarrow> (Inl 2, w')
      | (True, w') \<Rightarrow> (Inr (s\<lparr>started := True, running := True, joinable := True\<rparr>), w'))"

definition stopServing :: "'w server_lib \<Rightarrow> 'w server_op" where
  "stopServing L s w =
     (if \<not> started s then (Inr s, w)
      else let s = s\<lparr>running := False\<rparr>;
               s = (if joinable s then s\<lparr>joinable := False\<rparr> else s)
           in (Inr (s\<lparr>started := False\<rparr>), run_shutdown L (srv_handle s) w))"

definition restart :: "'w server_lib \<Rightarrow> 'w server_op" where
  "restart L s w = (case stopServing L s w of
       (Inl n, w') \<Rightarrow> (Inl n, w')
     | (Inr s', w') \<Rightarrow> startServing L s' w')"

text \<open>The URL of a server in this process.\<close>

definition local_url :: "u16 \<Rightarrow> string" where
  "local_url port = ''opc.tcp://127.0.0.1:'' @ decimal (unat port)"

definition configurePort :: "'w server_lib \<Rightarrow> u16 \<Rightarrow> nat \<Rightarrow> 'w \<Rightarrow> bool \<times> 'w" where
  "configurePort L port h w = setUrl L h (local_url port) (dropUrls L h w)"

definition server_construct :: "'w server_lib \<Rightarrow> u16 \<Rightarrow> string \<Rightarrow> 'w \<Rightarrow> (nat + server) \<times> 'w" where
  "server_construct L port node w = (case config_setDefault L w of
       (False, w1) \<Rightarrow> (Inl 2, w1)
     | (True, w1) \<Rightarrow> (case newWithConfig L w1 of
         (None, w2) \<Rightarrow> (Inl 2, config_clean L w2)
       | (Some h, w2) \<Rightarrow>
           let w3 = (if getConfig L h w2 = Some True then redirectLog L h w2 else w2)
           in case configurePort L port h w3 of
                (False, w4) \<Rightarrow> (Inl 2, w4)
              | (True, w4) \<Rightarrow> startServing L \<lparr>srv_handle = h, srv_port = port, srv_node = node,
                    running = False, started = False, joinable = False\<rparr> (addNode L h node w4)))"

definition server_destruct :: "'w server_lib \<Rightarrow> server \<Rightarrow> 'w \<Rightarrow> 'w" where
  "server_destruct L s w = server_delete L (srv_handle s) (snd (stopServing L s w))"

text \<open>Between calls the three marks agree.\<close>

definition server_ok :: "server \<Rightarrow> bool" where
  "server_ok s \<longleftrightarrow> running s = started s \<and> joinable s = started s"

lemma server_keeps:
  "server_ok s \<Longrightarrow> startServing L s w = (Inr t, w') \<Longrightarrow> server_ok t \<and> started t"
  "server_ok s \<Longrightarrow> stopServing L s w = (Inr t, w') \<Longrightarrow> server_ok t \<and> \<not> started t"
  by (auto simp: server_ok_def startServing_def stopServing_def split: if_splits prod.splits bool.splits)

lemma stop_returns: "\<exists>t w'. stopServing L s w = (Inr t, w')"
  by (simp add: stopServing_def Let_def)

section \<open>The serving thread\<close>

text \<open>
  The owner calls \<open>startServing\<close>, \<open>stopServing\<close> (\<open>restart\<close> is one after the other) and at last the
  destructor; the thread runs \<open>while (running) UA_Server_run_iterate\<close>.  One access per step.
  \<open>p_up\<close>: between the startup and the shutdown of the server; \<open>p_deleted\<close>: the server is deleted.
\<close>

datatype owner_pc = Resting | Start_up | Mark_started | Mark_running | Spawn
  | Stop_mark | Stop_join | Stop_down | Stop_end | Gone | Exited

datatype worker_pc = No_Worker | Testing | Iterating | Finished

record serve_state =
  p_owner :: owner_pc
  p_worker :: worker_pc
  p_running :: bool
  p_started :: bool
  p_joinable :: bool
  p_up :: bool
  p_deleted :: bool
  p_closing :: bool

inductive serve_step :: "serve_state \<Rightarrow> serve_state \<Rightarrow> bool" where
  start_call: "p_owner s = Resting \<Longrightarrow> \<not> p_closing s \<Longrightarrow> \<not> p_started s \<Longrightarrow> serve_step s (s\<lparr>p_owner := Start_up\<rparr>)"
| start_ok: "p_owner s = Start_up \<Longrightarrow> serve_step s (s\<lparr>p_owner := Mark_started, p_up := True\<rparr>)"
| start_fails: "p_owner s = Start_up \<Longrightarrow> serve_step s (s\<lparr>p_owner := Exited\<rparr>)"
| mark_started: "p_owner s = Mark_started \<Longrightarrow> serve_step s (s\<lparr>p_owner := Mark_running, p_started := True\<rparr>)"
| mark_running: "p_owner s = Mark_running \<Longrightarrow> serve_step s (s\<lparr>p_owner := Spawn, p_running := True\<rparr>)"
| spawn_worker: "p_owner s = Spawn \<Longrightarrow> serve_step s (s\<lparr>p_owner := Resting, p_joinable := True, p_worker := Testing\<rparr>)"
| stop_call: "p_owner s = Resting \<Longrightarrow> p_started s \<Longrightarrow> serve_step s (s\<lparr>p_owner := Stop_mark\<rparr>)"
| stop_mark: "p_owner s = Stop_mark \<Longrightarrow> serve_step s (s\<lparr>p_owner := Stop_join, p_running := False\<rparr>)"
| stop_join: "p_owner s = Stop_join \<Longrightarrow> p_joinable s \<Longrightarrow> p_worker s = Finished \<Longrightarrow>
    serve_step s (s\<lparr>p_owner := Stop_down, p_joinable := False\<rparr>)"
| stop_unjoined: "p_owner s = Stop_join \<Longrightarrow> \<not> p_joinable s \<Longrightarrow> serve_step s (s\<lparr>p_owner := Stop_down\<rparr>)"
| stop_down: "p_owner s = Stop_down \<Longrightarrow> serve_step s (s\<lparr>p_owner := Stop_end, p_up := False\<rparr>)"
| stop_end: "p_owner s = Stop_end \<Longrightarrow> serve_step s (s\<lparr>p_owner := Resting, p_started := False\<rparr>)"
| close_call: "p_owner s = Resting \<Longrightarrow> \<not> p_closing s \<Longrightarrow> serve_step s (s\<lparr>p_closing := True\<rparr>)"
| close_end: "p_owner s = Resting \<Longrightarrow> p_closing s \<Longrightarrow> \<not> p_started s \<Longrightarrow>
    serve_step s (s\<lparr>p_owner := Gone, p_deleted := True\<rparr>)"
| work_on: "p_worker s = Testing \<Longrightarrow> p_running s \<Longrightarrow> serve_step s (s\<lparr>p_worker := Iterating\<rparr>)"
| work_off: "p_worker s = Testing \<Longrightarrow> \<not> p_running s \<Longrightarrow> serve_step s (s\<lparr>p_worker := Finished\<rparr>)"
| work_iterate: "p_worker s = Iterating \<Longrightarrow> serve_step s (s\<lparr>p_worker := Testing\<rparr>)"

definition serve_init :: serve_state where
  "serve_init = \<lparr>p_owner = Start_up, p_worker = No_Worker, p_running = False, p_started = False,
     p_joinable = False, p_up = False, p_deleted = False, p_closing = False\<rparr>"

abbreviation serve_reach :: "serve_state \<Rightarrow> bool" where
  "serve_reach s \<equiv> serve_step\<^sup>*\<^sup>* serve_init s"

text \<open>A live thread still runs its loop; \<open>Finished\<close> it has left it, joined or not.\<close>

abbreviation live :: "worker_pc \<Rightarrow> bool" where
  "live w \<equiv> w = Testing \<or> w = Iterating"

text \<open>What every place of the owner says of the rest.\<close>

definition serve_inv :: "serve_state \<Rightarrow> bool" where
  "serve_inv s = (case p_owner s of
       Resting \<Rightarrow> \<not> p_deleted s \<and> p_up s = p_started s \<and> p_running s = p_started s \<and>
         p_joinable s = p_started s \<and> (if p_started s then live (p_worker s) else \<not> live (p_worker s))
     | Start_up \<Rightarrow> \<not> p_deleted s \<and> \<not> p_up s \<and> \<not> p_started s \<and> \<not> p_running s \<and> \<not> p_joinable s \<and> \<not> live (p_worker s)
     | Mark_started \<Rightarrow> \<not> p_deleted s \<and> p_up s \<and> \<not> p_started s \<and> \<not> p_running s \<and> \<not> p_joinable s \<and> \<not> live (p_worker s)
     | Mark_running \<Rightarrow> \<not> p_deleted s \<and> p_up s \<and> p_started s \<and> \<not> p_running s \<and> \<not> p_joinable s \<and> \<not> live (p_worker s)
     | Spawn \<Rightarrow> \<not> p_deleted s \<and> p_up s \<and> p_started s \<and> p_running s \<and> \<not> p_joinable s \<and> \<not> live (p_worker s)
     | Stop_mark \<Rightarrow> \<not> p_deleted s \<and> p_up s \<and> p_started s \<and> p_running s \<and> p_joinable s \<and> live (p_worker s)
     | Stop_join \<Rightarrow> \<not> p_deleted s \<and> p_up s \<and> p_started s \<and> \<not> p_running s \<and> p_joinable s \<and> p_worker s \<noteq> No_Worker
     | Stop_down \<Rightarrow> \<not> p_deleted s \<and> p_up s \<and> p_started s \<and> \<not> p_running s \<and> \<not> p_joinable s \<and> \<not> live (p_worker s)
     | Stop_end \<Rightarrow> \<not> p_deleted s \<and> \<not> p_up s \<and> p_started s \<and> \<not> p_running s \<and> \<not> p_joinable s \<and> \<not> live (p_worker s)
     | Gone \<Rightarrow> p_deleted s \<and> \<not> p_up s \<and> \<not> p_started s \<and> \<not> p_running s \<and> \<not> p_joinable s \<and> \<not> live (p_worker s)
     | Exited \<Rightarrow> \<not> p_deleted s \<and> \<not> p_up s \<and> \<not> p_joinable s \<and> \<not> live (p_worker s))"

lemma serve_inv_step: "serve_step s t \<Longrightarrow> serve_inv s \<Longrightarrow> serve_inv t"
  by (induction rule: serve_step.induct) (auto simp: serve_inv_def split: owner_pc.splits if_splits)

lemma serve_inv_reach: "serve_reach s \<Longrightarrow> serve_inv s"
proof (induction rule: rtranclp_induct)
  case base
  show ?case by (simp add: serve_init_def serve_inv_def)
next
  case (step s t)
  from serve_inv_step [OF step.hyps(2) step.IH] show ?case .
qed

text \<open>While the owner waits for the thread, each of its steps brings the join nearer.\<close>

fun join_distance :: "worker_pc \<Rightarrow> nat" where
  "join_distance Iterating = 2"
| "join_distance Testing = 1"
| "join_distance _ = 0"

lemma join_nearer:
  assumes "serve_step s t" and "p_owner s = Stop_join" and "\<not> p_running s"
  shows "p_owner t = Stop_down \<or> join_distance (p_worker t) < join_distance (p_worker s)"
  using assms by (cases rule: serve_step.cases) simp_all

lemma serve_progress:
  assumes "serve_inv s" and "p_owner s \<noteq> Gone" and "p_owner s \<noteq> Exited"
  shows "\<exists>t. serve_step s t"
proof (cases "p_owner s")
  case Stop_join
  with assms(1) have "p_worker s \<noteq> No_Worker" "p_joinable s" "\<not> p_running s"
    by (simp_all add: serve_inv_def)
  with Stop_join show ?thesis by (cases "p_worker s") (blast intro: stop_join work_off work_iterate)+
next
  case Resting
  then show ?thesis by (cases "p_closing s"; cases "p_started s") (blast intro: serve_step.intros)+
qed (use assms(2,3) in \<open>blast intro: serve_step.intros\<close>)+

text \<open>
  C37: in every interleaving of the owner's calls with the serving thread the server is
  iterated only while it is started up and not deleted, it is shut down and deleted only after
  the thread has been joined, a new thread is never assigned over a live one, the wait for the
  thread ends after at most two of its steps, and nothing is ever stuck before the destructor
  has deleted a server that is down.
\<close>

theorem server_thread_safe:
  assumes "serve_reach s"
  shows "(p_worker s = Iterating \<longrightarrow> p_up s \<and> \<not> p_deleted s) \<and>
    (p_owner s \<in> {Stop_down, Stop_end, Gone} \<longrightarrow> \<not> live (p_worker s) \<and> \<not> p_joinable s) \<and>
    (p_owner s = Spawn \<longrightarrow> \<not> live (p_worker s) \<and> \<not> p_joinable s) \<and> (p_owner s = Start_up \<longrightarrow> \<not> p_up s) \<and>
    (p_deleted s \<longrightarrow> \<not> p_up s) \<and>
    (\<forall>t. p_owner s = Stop_join \<longrightarrow> serve_step s t \<longrightarrow>
       p_owner t = Stop_down \<or> join_distance (p_worker t) < join_distance (p_worker s)) \<and>
    (p_owner s \<noteq> Gone \<and> p_owner s \<noteq> Exited \<longrightarrow> (\<exists>t. serve_step s t))"
proof (intro conjI impI allI)
  note inv = serve_inv_reach [OF assms]
  show "p_up s" "\<not> p_deleted s" if "p_worker s = Iterating"
    using inv that by (cases "p_owner s"; auto simp: serve_inv_def split: if_splits)+
  have rest: "\<not> live (p_worker s) \<and> \<not> p_joinable s" if "p_owner s \<in> {Stop_down, Stop_end, Gone, Spawn}"
    using inv that by (auto simp: serve_inv_def)
  show "\<not> live (p_worker s)" "\<not> p_joinable s" if "p_owner s \<in> {Stop_down, Stop_end, Gone}"
    using rest that by auto
  show "\<not> live (p_worker s)" "\<not> p_joinable s" if "p_owner s = Spawn" using rest that by auto
  show "\<not> p_up s" if "p_owner s = Start_up" using inv that by (simp add: serve_inv_def)
  show "\<not> p_up s" if "p_deleted s" using inv that by (cases "p_owner s") (auto simp: serve_inv_def)
  show "p_owner t = Stop_down \<or> join_distance (p_worker t) < join_distance (p_worker s)"
    if "p_owner s = Stop_join" "serve_step s t" for t
    using join_nearer [OF that(2,1)] inv that(1) by (simp add: serve_inv_def)
  show "\<exists>t. serve_step s t" if "p_owner s \<noteq> Gone \<and> p_owner s \<noteq> Exited"
    using serve_progress [OF inv] that by simp
qed

text \<open>A server that is being iterated for the first time.\<close>

definition serving_once :: serve_state where
  "serving_once = serve_init\<lparr>p_owner := Resting, p_worker := Iterating, p_running := True, p_started := True,
     p_joinable := True, p_up := True\<rparr>"

lemma serving_once_reached: "serve_reach serving_once"
proof -
  let ?a = "serve_init\<lparr>p_owner := Mark_started, p_up := True\<rparr>"
  let ?b = "?a\<lparr>p_owner := Mark_running, p_started := True\<rparr>"
  let ?c = "?b\<lparr>p_owner := Spawn, p_running := True\<rparr>"
  let ?d = "?c\<lparr>p_owner := Resting, p_joinable := True, p_worker := Testing\<rparr>"
  have "serve_step serve_init ?a" "serve_step ?a ?b" "serve_step ?b ?c" "serve_step ?c ?d"
    "serve_step ?d (?d\<lparr>p_worker := Iterating\<rparr>)"
    by (rule start_ok mark_started mark_running spawn_worker work_on; simp add: serve_init_def)+
  moreover have "serving_once = ?d\<lparr>p_worker := Iterating\<rparr>" by (simp add: serving_once_def serve_init_def)
  ultimately show ?thesis by (metis converse_rtranclp_into_rtranclp rtranclp.rtrancl_refl)
qed

theorem server_thread_safe_witness:
  "p_worker serving_once = Iterating \<and> p_up serving_once \<and> \<not> p_deleted serving_once \<and>
   Ex (serve_step serving_once)"
  using server_thread_safe [OF serving_once_reached] by (simp add: serving_once_def serve_init_def)

end
