(* ===== verification/Bench_Env.thy ===== *)
theory Bench_Env
  imports Returns Bench_Server
begin

text \<open>
  What the main functions of the benchmarks share: the clock and sleeps of one program thread
  that uses a client, the configuration and the URL of \<open>bench_latency.cpp\<close>,
  \<open>bench_recovery.cpp\<close> and \<open>bench_rss.cpp\<close>, and the law that time only goes forward
  through every call they make.
\<close>

section \<open>Environment\<close>

text \<open>
  \<open>sleep_for\<close> sleeps a number of milliseconds; \<open>others\<close> is what the other threads of the
  process, the watchdog above all, have made of the client when the sleep ends; \<open>statm\<close> and
  \<open>page_size\<close> are read by \<open>residentKb\<close>.
\<close>

record 'w bench_env =
  sleep_for :: "double \<Rightarrow> ('w, unit) sdk_call"
  others :: "'w client \<Rightarrow> 'w client"
  statm :: "'w \<Rightarrow> int list option"
  page_size :: int
  server_lib :: "'w server_lib"

definition clock_now :: "'w sdk \<Rightarrow> ('w client, int) cpp" where
  "clock_now K = worldCall (wall_now K)"

text \<open>\<open>msSince\<close>: the clock counts nanoseconds.\<close>

definition msSince :: "'w sdk \<Rightarrow> int \<Rightarrow> ('w client, rat) cpp" where
  "msSince K t0 = bindE (clock_now K) (\<lambda>t. ret (of_int (t - t0) / 1000000))"

definition sleepE :: "'w bench_env \<Rightarrow> double \<Rightarrow> ('w client, unit) cpp" where
  "sleepE E ms = thenE (worldCall (sleep_for E ms)) (modifyE (others E))"

section \<open>Configuration\<close>

definition bench_url :: "string \<Rightarrow> u16 \<Rightarrow> string" where
  "bench_url endpoint port = (if endpoint = [] then local_url port else endpoint)"

definition bench_config :: "u32 \<Rightarrow> client_config" where
  "bench_config level = (applyProfile PROFILE_LOCAL default_config)
     \<lparr>logLevel := level, watchdogIntervalMs := 1000, giveUpThresholdMs := 60000\<rparr>"

definition bench_nodes :: "u64 \<Rightarrow> node_id list" where
  "bench_nodes batch = replicate (unat batch) \<lparr>nd_ns = 1, nd_id = K_string ''BenchInt'', nd_dataType = S7_INT\<rparr>"

section \<open>Time\<close>

text \<open>
  \<open>clk\<close> is the time of a world.  It never goes back, a reading lies between the begin and the end
  of the call and does not throw, and a sleep lasts at least as long as it is asked to.
\<close>

definition bench_documented :: "'w sdk \<Rightarrow> 'w bench_env \<Rightarrow> ('w \<Rightarrow> int) \<Rightarrow> bool" where
  "bench_documented K E clk \<longleftrightarrow> wall_documented K clk \<and>
     (\<forall>c q w. clk w \<le> clk (snd (snd (sdk_serviceRead K c q w)))) \<and>
     (\<forall>c q w. clk w \<le> clk (snd (snd (sdk_serviceWrite K c q w)))) \<and>
     (\<forall>n w. clk w \<le> clk (snd (sdk_array_new K n w))) \<and>
     (\<forall>ns x w. clk w \<le> clk (snd (sdk_nodeid_string_alloc K ns x w))) \<and>
     (\<forall>c ty w. clk w \<le> clk (snd (sdk_set_scalar_copy K c ty w))) \<and>
     (\<forall>w. \<exists>t. fst (wall_now K w) = Inr t) \<and>
     (\<forall>x w. \<exists>u. fst (sleep_for E x w) = Inr u) \<and>
     (\<forall>ms w. clk w + \<lfloor>ms * 1000000\<rfloor> \<le> clk (snd (snd (sleep_for E (Num ms) w)))) \<and>
     (\<forall>x w. clk w \<le> clk (snd (snd (sleep_for E x w)))) \<and>
     (\<forall>s. clk (c_world s) \<le> clk (c_world (others E s)))"

definition impl_flows :: "'w sdk \<Rightarrow> 'w bench_env \<Rightarrow> ('w \<Rightarrow> int) \<Rightarrow> 'w impl \<Rightarrow> 'w impl \<Rightarrow> bool" where
  "impl_flows K E clk s t \<longleftrightarrow> (bench_documented K E clk \<longrightarrow> clk (world s) \<le> clk (world t))"

definition heap_flows :: "'w sdk \<Rightarrow> 'w bench_env \<Rightarrow> ('w \<Rightarrow> int) \<Rightarrow> 'w \<Rightarrow> 'w \<Rightarrow> bool" where
  "heap_flows K E clk v w \<longleftrightarrow> (bench_documented K E clk \<longrightarrow> clk v \<le> clk w)"

definition flows :: "'w sdk \<Rightarrow> 'w bench_env \<Rightarrow> ('w \<Rightarrow> int) \<Rightarrow> 'w client \<Rightarrow> 'w client \<Rightarrow> bool" where
  "flows K E clk s t \<longleftrightarrow> (bench_documented K E clk \<longrightarrow> clk (c_world s) \<le> clk (c_world t))"

interpretation flow: batch_contract "impl_flows K E clk" K "heap_flows K E clk"
  by unfold_locales
    (auto simp: impl_flows_def heap_flows_def bench_documented_def wall_documented_def
      apply_event_keeps transition_defs less_imp_le)

interpretation clock: client_contract "flows K E clk" "impl_flows K E clk" K "heap_flows K E clk"
  by unfold_locales (auto simp: flows_def impl_flows_def api_enter_def api_leave_def)

lemma wp_bindI:
  "wp A m P s \<Longrightarrow> (\<And>x t. P x t \<Longrightarrow> wp A (f x) Q t) \<Longrightarrow> wp A (bindE m f) Q s"
  unfolding wp_bind by (erule wp_weaken) simp

text \<open>A call that returns, and through which time goes forward.\<close>

lemma wp_later:
  assumes "bench_documented K E clk" and "exits {} m" and "guar (flows K E clk) m"
  shows "wp {} m (\<lambda>_ t. clk (c_world s) \<le> clk (c_world t)) s"
  using wp_exits [OF assms(2) wp_guar [OF assms(3)]] by (rule wp_weaken) (simp add: flows_def assms(1))

lemma wp_total_call:
  assumes "\<exists>x. fst (c (c_world s)) = Inr x"
    and "\<And>x. fst (c (c_world s)) = Inr x \<Longrightarrow> Q x (s\<lparr>c_world := snd (snd (c (c_world s)))\<rparr>)"
  shows "wp {} (worldCall c) Q s"
  using assms by (cases "c (c_world s)") (auto simp: wp_def worldCall_def)

lemma wp_clock_now:
  assumes "bench_documented K E clk"
  shows "wp {} (clock_now K) (\<lambda>x t. clk (c_world s) \<le> x \<and> x \<le> clk (c_world t)) s"
  unfolding clock_now_def
  using assms by (intro wp_total_call) (auto simp: bench_documented_def wall_documented_def)

lemma wp_msSince:
  assumes "bench_documented K E clk"
  shows "wp {} (msSince K t0)
    (\<lambda>x t. of_int (clk (c_world s) - t0) / 1000000 \<le> x \<and> x \<le> of_int (clk (c_world t) - t0) / 1000000) s"
  unfolding msSince_def wp_bind wp_ret
  by (rule wp_weaken [OF wp_clock_now [OF assms]])
    (auto intro!: divide_right_mono simp only: of_int_le_iff; simp)

lemma wp_msSince_later:
  assumes "bench_documented K E clk"
  shows "wp {} (msSince K t0) (\<lambda>x t. of_int (clk (c_world s) - t0) / 1000000 \<le> x \<and>
    x \<le> of_int (clk (c_world t) - t0) / 1000000 \<and> clk (c_world s) \<le> clk (c_world t)) s"
  using wp_conj [OF wp_msSince [OF assms] wp_msSince [OF assms]]
  by (rule wp_weaken) (auto dest: order_trans)

lemma wp_sleepE:
  assumes "bench_documented K E clk"
  shows "wp {} (sleepE E (Num ms)) (\<lambda>_ t. clk (c_world s) \<le> clk (c_world t) \<and>
    clk (c_world s) + \<lfloor>ms * 1000000\<rfloor> \<le> clk (c_world t)) s"
proof -
  let ?s = "s\<lparr>c_world := snd (snd (sleep_for E (Num ms) (c_world s)))\<rparr>"
  have "clk (c_world u) \<le> clk (c_world (others E u))" for u
    using assms by (simp add: bench_documented_def)
  from this [of ?s] have "clk (c_world ?s) \<le> clk (c_world (others E ?s))" .
  moreover have "clk (c_world s) \<le> clk (c_world ?s)" "clk (c_world s) + \<lfloor>ms * 1000000\<rfloor> \<le> clk (c_world ?s)"
    and "\<exists>u. fst (sleep_for E (Num ms) (c_world s)) = Inr u"
    using assms by (simp_all add: bench_documented_def)
  ultimately show ?thesis
    unfolding sleepE_def wp_then wp_modify by (intro wp_total_call) simp_all
qed

text \<open>None of them leaves in another way than by returning.\<close>

lemma exits_clock:
  assumes "bench_documented K E clk"
  shows "exits {} (clock_now K)" "exits {} (msSince K t0)" "exits {} (sleepE E x)"
proof -
  show "exits {} (clock_now K)"
    unfolding exits_def by (intro allI wp_weaken [OF wp_clock_now [OF assms]]) simp
  show "exits {} (msSince K t0)"
    unfolding exits_def by (intro allI wp_weaken [OF wp_msSince [OF assms]]) simp
  have "\<exists>u. fst (sleep_for E x w) = Inr u" for w
    using assms by (simp add: bench_documented_def)
  then show "exits {} (sleepE E x)"
    unfolding exits_def sleepE_def wp_then wp_modify by (intro allI wp_total_call) simp_all
qed

lemma wp_batchRead_later:
  assumes "bench_documented K E clk" and "reads_documented K"
  shows "wp {} (batchRead K nodes) (\<lambda>_ t. clk (c_world s) \<le> clk (c_world t)) s"
  by (rule wp_later [OF assms(1) batch_returns(1) [OF assms(2)] clock.l_batchRead])

lemma wp_batchWrite_later:
  assumes "bench_documented K E clk" and "writes_documented K"
  shows "wp {} (batchWrite K items) (\<lambda>_ t. clk (c_world s) \<le> clk (c_world t)) s"
  by (rule wp_later [OF assms(1) batch_returns(2) [OF assms(2)] clock.l_batchWrite])

lemma wp_isHealthy_later:
  assumes "bench_documented K E clk"
  shows "wp {} (isHealthy K) (\<lambda>_ t. clk (c_world s) \<le> clk (c_world t)) s"
  by (rule wp_later [OF assms check_returns(2) clock.l_isHealthy])

text \<open>The configuration of the benchmarks passes \<open>check()\<close>.\<close>

lemma bench_config_valid:
  assumes "100 \<le> level" and "level \<le> 600"
  shows "check (bench_config level) = None"
proof -
  have "100 \<le> unat level" "unat level \<le> 600" using assms by (simp_all add: word_le_nat_alt)
  then show ?thesis
    by (simp add: check_iff_ok config_ok_def bench_config_def default_config_def)
qed

end
