(* ===== verification/Bench_Rss.thy ===== *)
theory Bench_Rss
  imports Bench_Env
begin

text \<open>
  The soak of \<open>bench/bench_rss.cpp\<close>: batch reads at a given rate for a given time, and a row
  of the memory curve for every interval.  Counters are \<open>nat\<close>: 2 to the 64 calls are out of reach.
\<close>

section \<open>The program\<close>

record row =
  row_elapsed :: rat
  row_rss :: int
  row_calls :: nat
  row_errors :: nat

record soak =
  sk_next :: double
  sk_calls :: nat
  sk_errors :: nat
  sk_rows :: "row list"

definition resident :: "'w bench_env \<Rightarrow> ('w client, int) cpp" where
  "resident E = readE (\<lambda>s. residentKb (statm E (c_world s)) (page_size E))"

text \<open>One sample, when it is due; after a long stall the next one is planned anew.\<close>

definition rss_sample :: "'w bench_env \<Rightarrow> double \<Rightarrow> rat \<Rightarrow> soak \<Rightarrow> ('w client, soak) cpp" where
  "rss_sample E interval now k =
     (if sk_next k \<le> Num now then bindE (resident E) (\<lambda>rss.
        let planned = sk_next k + interval in
        ret (k\<lparr>sk_rows := sk_rows k @ [\<lparr>row_elapsed = now, row_rss = rss,
                 row_calls = sk_calls k, row_errors = sk_errors k\<rparr>],
               sk_next := (if planned \<le> Num now then Num now + interval else planned)\<rparr>))
      else ret k)"

text \<open>One call is counted.\<close>

definition count_call :: "soak \<Rightarrow> bool \<Rightarrow> soak" where
  "count_call k bad = k\<lparr>sk_calls := sk_calls k + 1, sk_errors := sk_errors k + (if bad then 1 else 0)\<rparr>"

definition rss_pass ::
  "'w sdk \<Rightarrow> 'w bench_env \<Rightarrow> node_id list \<Rightarrow> double \<Rightarrow> double \<Rightarrow> int \<Rightarrow> soak \<Rightarrow> ('w client, soak) cpp" where
  "rss_pass K E reads interval periodMs start k =
     bindE (clock_now K) (\<lambda>loop0.
     bindE (batchRead K reads) (\<lambda>r.
     bindE (msSince K start) (\<lambda>ms.
     bindE (rss_sample E interval (ms / 1000) (count_call k (is_fail r))) (\<lambda>k.
     bindE (msSince K loop0) (\<lambda>busy.
     thenE (if Num busy < periodMs then sleepE E (periodMs - Num busy) else ret ())
       (ret k))))))"

text \<open>The loop runs until \<open>totalSec\<close> have passed; it takes one unit of fuel for each pass.\<close>

primrec rss_loop ::
  "'w sdk \<Rightarrow> 'w bench_env \<Rightarrow> node_id list \<Rightarrow> double \<Rightarrow> double \<Rightarrow> double \<Rightarrow> int \<Rightarrow> nat \<Rightarrow> soak
    \<Rightarrow> ('w client, soak) cpp" where
  "rss_loop K E reads totalSec interval periodMs start 0 k = divergeE"
| "rss_loop K E reads totalSec interval periodMs start (Suc n) k =
     bindE (msSince K start) (\<lambda>ms.
       if totalSec \<le> Num (ms / 1000) then ret k
       else bindE (rss_pass K E reads interval periodMs start k)
              (rss_loop K E reads totalSec interval periodMs start n))"

definition soak_start :: soak where
  "soak_start = \<lparr>sk_next = Num 0, sk_calls = 0, sk_errors = 0, sk_rows = []\<rparr>"

text \<open>The loop and the row that is printed after it.\<close>

definition rss_soak ::
  "'w sdk \<Rightarrow> 'w bench_env \<Rightarrow> nat \<Rightarrow> node_id list \<Rightarrow> rss_args \<Rightarrow> ('w client, soak \<times> row) cpp" where
  "rss_soak K E n reads args =
     (let totalSec = sa_hours args * Num 3600; periodMs = Num 1000 / sa_hz args in
      bindE (clock_now K) (\<lambda>start.
      bindE (rss_loop K E reads totalSec (sa_intervalSec args) periodMs start n soak_start) (\<lambda>k.
      bindE (msSince K start) (\<lambda>ms.
      bindE (resident E) (\<lambda>rss.
      ret (k, \<lparr>row_elapsed = ms / 1000, row_rss = rss, row_calls = sk_calls k, row_errors = sk_errors k\<rparr>))))))"

text \<open>
  \<open>main\<close> after the arguments have been read: the status it returns, and the rows.  The server of
  the process, when it has one, is stopped by its destructor on the way out.
\<close>

definition stop_own :: "'w bench_env \<Rightarrow> server option \<Rightarrow> 'w \<Rightarrow> 'w" where
  "stop_own E srv w = (case srv of None \<Rightarrow> w | Some s \<Rightarrow> server_destruct (server_lib E) s w)"

definition own_server :: "'w bench_env \<Rightarrow> string \<Rightarrow> u16 \<Rightarrow> 'w \<Rightarrow> (nat + server option) \<times> 'w" where
  "own_server E endpoint port w = (if endpoint \<noteq> [] then (Inr None, w)
     else case server_construct (server_lib E) port ''BenchInt'' w of
       (Inl n, w') \<Rightarrow> (Inl n, w')
     | (Inr s, w') \<Rightarrow> (Inr (Some s), w'))"

definition main_rss ::
  "'w sdk \<Rightarrow> 'w bench_env \<Rightarrow> nat \<Rightarrow> nat \<Rightarrow> string list \<Rightarrow> ('w, nat \<times> row list) cpp" where
  "main_rss K E fuel n argv w = (case parse_rss argv of
       Exit c \<Rightarrow> (Ret (c, []), w)
     | Args args \<Rightarrow> (case own_server E (sa_endpoint args) (sa_port args) w of
         (Inl c, w1) \<Rightarrow> (Ret (c, []), w1)
       | (Inr srv, w1) \<Rightarrow>
           (case create K fuel (bench_url (sa_endpoint args) (sa_port args)) (bench_config LOG_ERROR) False w1 of
             (Ret (Error e), w2) \<Rightarrow> (Ret (2, []), stop_own E srv w2)
           | (Ret (Success cl), w2) \<Rightarrow>
               (case bindE (rss_soak K E n (bench_nodes (sa_batch args)) args)
                       (\<lambda>(k, last). bindE (client_shutdown K) (\<lambda>_. ret (sk_rows k @ [last]))) cl of
                 (Ret rows, cl') \<Rightarrow> (Ret (0, rows), stop_own E srv (discard K cl'))
               | (Throw e, cl') \<Rightarrow> (Throw e, c_world cl')
               | (Diverge, cl') \<Rightarrow> (Diverge, c_world cl')
               | (Fault, cl') \<Rightarrow> (Fault, c_world cl'))
           | (Throw e, w2) \<Rightarrow> (Throw e, w2)
           | (Diverge, w2) \<Rightarrow> (Diverge, w2)
           | (Fault, w2) \<Rightarrow> (Fault, w2))))"

section \<open>The rows\<close>

text \<open>
  The rows of a soak with the interval \<open>i\<close> seconds: sample \<open>n\<close> is not taken before \<open>n\<close>
  intervals have passed, times and calls grow from row to row, and the errors are among the calls.
\<close>

definition rows_ok :: "rat \<Rightarrow> row list \<Rightarrow> bool" where
  "rows_ok i rows \<longleftrightarrow>
     (\<forall>n < length rows. of_nat n * i \<le> row_elapsed (rows ! n)) \<and>
     sorted_wrt (\<lambda>a b. row_elapsed a < row_elapsed b \<and> row_calls a < row_calls b) rows \<and>
     (\<forall>r \<in> set rows. row_errors r \<le> row_calls r \<and> 0 < row_calls r)"

definition soak_ok :: "rat \<Rightarrow> soak \<Rightarrow> bool" where
  "soak_ok i k \<longleftrightarrow> rows_ok i (sk_rows k) \<and> sk_errors k \<le> sk_calls k \<and>
     (\<exists>x. sk_next k = Num x \<and> of_nat (length (sk_rows k)) * i \<le> x \<and>
        (\<forall>r \<in> set (sk_rows k). row_elapsed r < x)) \<and>
     (\<forall>r \<in> set (sk_rows k). row_calls r \<le> sk_calls k)"

lemma soak_start_ok: "soak_ok i soak_start"
  by (simp add: soak_ok_def soak_start_def rows_ok_def)

lemma rows_ok_snoc:
  assumes "rows_ok i rows" and "of_nat (length rows) * i \<le> row_elapsed r"
    and "\<And>q. q \<in> set rows \<Longrightarrow> row_elapsed q < row_elapsed r \<and> row_calls q < row_calls r"
    and "row_errors r \<le> row_calls r" and "0 < row_calls r"
  shows "rows_ok i (rows @ [r])"
  using assms by (auto simp: rows_ok_def sorted_wrt_append nth_append less_Suc_eq)

lemma num_le [simp]: "Num a \<le> Num b \<longleftrightarrow> a \<le> b" "Num a < Num b \<longleftrightarrow> a < b"
  by (auto simp: less_double_def)

text \<open>A sample keeps the invariant.\<close>

lemma wp_sample:
  assumes "soak_ok i k" and "0 < i"
  shows "wp {} (rss_sample E (Num i) now (count_call k bad))
    (\<lambda>k' t. t = s \<and> soak_ok i k' \<and> sk_calls k' = Suc (sk_calls k)) s"
proof -
  obtain x where x: "sk_next k = Num x" "of_nat (length (sk_rows k)) * i \<le> x"
      and old: "\<And>r. r \<in> set (sk_rows k) \<Longrightarrow> row_elapsed r < x \<and> row_calls r \<le> sk_calls k"
    using assms(1) by (auto simp: soak_ok_def)
  show ?thesis
  proof (cases "x \<le> now")
    case False
    with assms x show ?thesis
      by (auto simp: rss_sample_def count_call_def soak_ok_def wp_simps le_SucI)
  next
    case True
    let ?r = "\<lparr>row_elapsed = now, row_rss = residentKb (statm E (c_world s)) (page_size E),
      row_calls = Suc (sk_calls k), row_errors = sk_errors (count_call k bad)\<rparr>"
    have err: "sk_errors (count_call k bad) \<le> Suc (sk_calls k)"
      using assms(1) by (simp add: soak_ok_def count_call_def)
    have rows: "rows_ok i (sk_rows k @ [?r])"
      using assms(1) x(2) old True err by (intro rows_ok_snoc) (fastforce simp: soak_ok_def)+
    have before: "\<forall>r \<in> set (sk_rows k). row_elapsed r < y" if "now < y" for y
      using that old True by fastforce
    have old_calls: "\<forall>r \<in> set (sk_rows k). row_calls r \<le> Suc (sk_calls k)"
      using old by (simp add: le_SucI)
    have next_time: "of_nat (Suc (length (sk_rows k))) * i \<le> x + i" "x + i \<le> now + i"
      using x(2) True by (simp_all add: algebra_simps)
    show ?thesis
    proof (cases "x + i \<le> now")
      case True
      with next_time assms(2) have "now < now + i" "of_nat (Suc (length (sk_rows k))) * i \<le> now + i" by simp_all
      with True \<open>x \<le> now\<close> rows err before [of "now + i"] old_calls show ?thesis
        by (simp add: rss_sample_def resident_def wp_simps soak_ok_def x(1) Let_def) (simp add: count_call_def x(1))
    next
      case False
      then have "now < x + i" by simp
      with False \<open>x \<le> now\<close> rows err before [of "x + i"] old_calls next_time(1) show ?thesis
        by (simp add: rss_sample_def resident_def wp_simps soak_ok_def x(1) Let_def) (simp add: count_call_def x(1))
    qed
  qed
qed

text \<open>A pass lasts at least one period.\<close>

lemma wp_pass:
  assumes "bench_documented K E clk" and "reads_documented K" and "soak_ok i k" and "0 < i"
  shows "wp {} (rss_pass K E reads (Num i) (Num p) start k) (\<lambda>k' t. soak_ok i k' \<and>
    sk_calls k' = Suc (sk_calls k) \<and> clk (c_world s) + \<lfloor>p * 1000000\<rfloor> \<le> clk (c_world t)) s"
proof -
  have nap: "wp {} (if Num busy < Num p then sleepE E (Num p - Num busy) else ret ())
      (\<lambda>_ t. clk (c_world s) + \<lfloor>p * 1000000\<rfloor> \<le> clk (c_world t)) u"
    if "clk (c_world s) \<le> loop0" "busy \<le> of_int (clk (c_world u) - loop0) / 1000000" for loop0 busy u
  proof (cases "busy < p")
    case True
    have "p * 1000000 \<le> (p - busy) * 1000000 + of_int (clk (c_world u) - loop0)"
      using that(2) by simp
    then have "\<lfloor>p * 1000000\<rfloor> \<le> \<lfloor>(p - busy) * 1000000 + of_int (clk (c_world u) - loop0)\<rfloor>"
      by (rule floor_mono)
    then have "\<lfloor>p * 1000000\<rfloor> \<le> \<lfloor>(p - busy) * 1000000\<rfloor> + (clk (c_world u) - loop0)"
      by (simp only: floor_add_int)
    with True that(1) wp_sleepE [OF assms(1), of "p - busy" u] show ?thesis
      by (auto simp: minus_double_def elim!: wp_weaken)
  next
    case False
    with that(2) have "p * 1000000 \<le> of_int (clk (c_world u) - loop0)" by simp
    then have "\<lfloor>p * 1000000\<rfloor> \<le> clk (c_world u) - loop0" by linarith
    with False that(1) show ?thesis by (simp add: wp_simps)
  qed
  have rest: "wp {} (bindE (msSince K loop0) (\<lambda>busy.
        thenE (if Num busy < Num p then sleepE E (Num p - Num busy) else ret ()) (ret k')))
      (\<lambda>k'' t. k'' = k' \<and> clk (c_world s) + \<lfloor>p * 1000000\<rfloor> \<le> clk (c_world t)) u"
    if "clk (c_world s) \<le> loop0" for loop0 k' u
    unfolding wp_bind wp_then wp_ret
  proof (rule wp_weaken [OF wp_msSince [OF assms(1)]])
    fix busy :: rat and t :: "'a client"
    assume "of_int (clk (c_world u) - loop0) / 1000000 \<le> busy \<and> busy \<le> of_int (clk (c_world t) - loop0) / 1000000"
    with nap [OF that, of busy t] show "wp {} (if Num busy < Num p then sleepE E (Num p - Num busy) else ret ())
        (\<lambda>_ t. k' = k' \<and> clk (c_world s) + \<lfloor>p * 1000000\<rfloor> \<le> clk (c_world t)) t"
      by simp
  qed
  have sample: "wp {} (bindE (rss_sample E (Num i) now (count_call k bad)) f) Q u"
    if "\<And>k'. soak_ok i k' \<Longrightarrow> sk_calls k' = Suc (sk_calls k) \<Longrightarrow> wp {} (f k') Q u"
    for now bad Q u and f :: "soak \<Rightarrow> ('a client, soak) cpp"
    unfolding wp_bind by (rule wp_weaken [OF wp_sample [OF assms(3,4)]]) (auto intro: that)
  show ?thesis
    unfolding rss_pass_def
    by (rule wp_bindI [OF wp_clock_now [OF assms(1)]], rule wp_bindI [OF wp_batchRead_later [OF assms(1,2)]],
        rule wp_bindI [OF wp_msSince [OF assms(1)]], rule sample, rule wp_weaken [OF rest]; simp)
qed

lemma wp_rss_loop:
  fixes K :: "'w sdk"
  assumes "bench_documented K E clk" and "reads_documented K" and "0 < i"
    and "sec * 1000000000 \<le> of_nat N * of_int \<lfloor>p * 1000000\<rfloor>"
    and "soak_ok i k" and "sk_calls k \<le> N" and "N < n + sk_calls k"
    and "start + int (sk_calls k) * \<lfloor>p * 1000000\<rfloor> \<le> clk (c_world s)"
  shows "wp {} (rss_loop K E reads (Num sec) (Num i) (Num p) start n k)
    (\<lambda>k' t. soak_ok i k' \<and> sk_calls k' \<le> N \<and> of_int (clk (c_world t) - start) / 1000000000 \<ge> sec) s"
  using assms(5-)
proof (induction n arbitrary: k s)
  case (Suc n)
  have stop: "sec \<le> ms / 1000" if "of_int (clk (c_world s) - start) / 1000000 \<le> ms" "sk_calls k = N" for ms
  proof -
    have "(of_nat N * of_int \<lfloor>p * 1000000\<rfloor> :: rat) \<le> of_int (clk (c_world s) - start)"
      using Suc.prems(4) that(2) by (metis add_diff_cancel_left' diff_right_mono of_int_le_iff of_int_mult of_int_of_nat_eq)
    with assms(4) that(1) show ?thesis by simp
  qed
  have go: "wp {} (bindE (rss_pass K E reads (Num i) (Num p) start k)
        (rss_loop K E reads (Num sec) (Num i) (Num p) start n))
      (\<lambda>k' t. soak_ok i k' \<and> sk_calls k' \<le> N \<and> of_int (clk (c_world t) - start) / 1000000000 \<ge> sec) u"
    if "sk_calls k < N" "clk (c_world s) \<le> clk (c_world u)" for u
    unfolding wp_bind
  proof (rule wp_weaken [OF wp_pass [OF assms(1,2) Suc.prems(1) assms(3)]])
    fix k' and t :: "'w client"
    assume "soak_ok i k' \<and> sk_calls k' = Suc (sk_calls k) \<and> clk (c_world u) + \<lfloor>p * 1000000\<rfloor> \<le> clk (c_world t)"
    with that Suc.prems(3,4) show "wp {} (rss_loop K E reads (Num sec) (Num i) (Num p) start n k')
        (\<lambda>k' t. soak_ok i k' \<and> sk_calls k' \<le> N \<and> of_int (clk (c_world t) - start) / 1000000000 \<ge> sec) t"
      by (intro Suc.IH) (simp_all add: algebra_simps)
  qed
  show ?case
    unfolding rss_loop.simps wp_bind [of _ "msSince K start"]
  proof (rule wp_weaken [OF wp_msSince_later [OF assms(1)]])
    fix ms :: rat and t :: "'w client"
    assume ms: "of_int (clk (c_world s) - start) / 1000000 \<le> ms \<and>
      ms \<le> of_int (clk (c_world t) - start) / 1000000 \<and> clk (c_world s) \<le> clk (c_world t)"
    show "wp {} (if Num sec \<le> Num (ms / 1000) then ret k
        else bindE (rss_pass K E reads (Num i) (Num p) start k)
          (rss_loop K E reads (Num sec) (Num i) (Num p) start n))
      (\<lambda>k' t. soak_ok i k' \<and> sk_calls k' \<le> N \<and> of_int (clk (c_world t) - start) / 1000000000 \<ge> sec) t"
    proof (cases "sec \<le> ms / 1000")
      case True
      with ms have "sec \<le> of_int (clk (c_world t) - start) / 1000000 / 1000" by linarith
      with True Suc.prems(1,2) show ?thesis by (simp add: wp_simps)
    next
      case False
      with stop ms Suc.prems(2) have "sk_calls k < N" by (metis le_neq_implies_less)
      from go [OF this] ms False show ?thesis by simp
    qed
  qed
qed simp

section \<open>The soak\<close>


text \<open>
  The argument \<open>nan\<close> passes the checks of \<open>parse\<close>, and a soak of that many hours never ends.
\<close>

lemma nan_accepted: "parse_rss [''--hours'', ''nan''] = Args (rss_default\<lparr>sa_hours := NaN\<rparr>)"
  by (simp add: parse_rss_def rss_opts_def rss_limits_def rss_default_def strtod_def read_sign_def
      is_space_def code_def starts_with_def lower_def at_least_one_def)

lemma pass_exits:
  assumes "bench_documented K E clk" and "reads_documented K"
  shows "exits {} (rss_pass K E reads interval periodMs start k)"
  unfolding rss_pass_def rss_sample_def resident_def Let_def
  by (intro exits_intros exits_clock [OF assms(1)] batch_returns(1) [OF assms(2)])

lemma nan_never_ends:
  assumes "bench_documented K E clk" and "reads_documented K" and "sa_hours a = NaN"
  shows "fst (rss_soak K E n reads a s) = Diverge"
proof -
  have loop: "wp {Diverged} (rss_loop K E reads NaN interval periodMs start n k) (\<lambda>_ _. False) s"
    for interval periodMs start k s
  proof (induction n arbitrary: k s)
    case (Suc n)
    have "\<not> NaN \<le> Num x" for x by simp
    then show ?case
      using Suc
      by (auto intro!: wp_bindI [OF exitsD [OF exits_mono [OF exits_clock(2) [OF assms(1)]]]]
          wp_bindI [OF exitsD [OF exits_mono [OF pass_exits [OF assms(1,2)]]]])
  qed (simp add: wp_diverge)
  have "NaN * Num 3600 = NaN" by simp
  then have "wp {Diverged} (rss_soak K E n reads a) (\<lambda>_ _. False) s"
    unfolding rss_soak_def Let_def assms(3)
    by (auto intro!: wp_bindI [OF exitsD [OF exits_mono [OF exits_clock(1) [OF assms(1)]]]] wp_bindI [OF loop])
  then show ?thesis by (auto simp: wp_def split: prod.splits outcome.splits)
qed

end
