(* ===== verification/Bench_Stats.thy ===== *)
theory Bench_Stats
  imports Prelude Complex_Main "HOL-Library.Multiset"
begin

text \<open>
  The statistics of the benchmark programs: \<open>percentile\<close>, \<open>sorted\<close> and \<open>mean\<close> of
  \<open>bench/bench_common.h\<close> and \<open>printDistribution\<close> of \<open>bench/bench_recovery.cpp\<close>.  A \<open>double\<close>
  is an exact rational here: rounding to 53 bits is not modelled.
\<close>

section \<open>Functions\<close>

text \<open>
  \<open>None\<close>: a conversion or an index that is out of range.  A cast to \<open>size_t\<close> drops the
  fraction, so that it is defined above \<open>- 1\<close>.
\<close>

definition percentile :: "rat list \<Rightarrow> rat \<Rightarrow> rat option" where
  "percentile xs p =
     (if xs = [] then Some 0
      else if length xs = 1 then Some (hd xs)
      else let idx = (p / 100) * of_nat (length xs - 1);
               lo = nat \<lfloor>idx\<rfloor>;
               hi = min (lo + 1) (length xs - 1);
               frac = idx - of_nat lo
           in if idx \<le> -1 \<or> length xs \<le> lo then None
              else Some (xs ! lo * (1 - frac) + xs ! hi * frac))"

definition bench_sorted :: "rat list \<Rightarrow> rat list" where
  "bench_sorted v = sort v"

definition mean :: "rat list \<Rightarrow> rat" where
  "mean v = (if v = [] then 0 else foldl (\<lambda>s x. s + x) 0 v / of_nat (length v))"

text \<open>The line that \<open>printDistribution\<close> prints, as the arguments of its \<open>printf\<close>.\<close>

record distribution =
  dist_name :: string
  dist_n :: nat
  dist_p50 :: rat
  dist_p90 :: rat
  dist_p99 :: rat
  dist_max :: rat
  dist_mean :: rat

datatype dist_line = No_Samples string | Samples distribution

definition printDistribution :: "string \<Rightarrow> rat list \<Rightarrow> dist_line option" where
  "printDistribution name samples =
     (if samples = [] then Some (No_Samples name)
      else let samples = bench_sorted samples
           in case (percentile samples 50, percentile samples 90, percentile samples 99) of
                (Some a, Some b, Some c) \<Rightarrow> Some (Samples \<lparr>dist_name = name, dist_n = length samples,
                   dist_p50 = a, dist_p90 = b, dist_p99 = c, dist_max = last samples,
                   dist_mean = mean samples\<rparr>)
              | _ \<Rightarrow> None)"

section \<open>Interpolation\<close>

text \<open>The value at a fractional index of a vector with at least two elements.\<close>

definition interpolate :: "rat list \<Rightarrow> rat \<Rightarrow> rat" where
  "interpolate xs x = (let lo = nat \<lfloor>x\<rfloor>; frac = x - of_nat lo
     in xs ! lo * (1 - frac) + xs ! min (lo + 1) (length xs - 1) * frac)"

lemma between:
  fixes a b f :: rat
  assumes "a \<le> b" and "0 \<le> f" and "f \<le> 1"
  shows "a \<le> a * (1 - f) + b * f" and "a * (1 - f) + b * f \<le> b"
proof -
  have "0 \<le> (b - a) * f" and "0 \<le> (b - a) * (1 - f)" using assms by simp_all
  then show "a \<le> a * (1 - f) + b * f" and "a * (1 - f) + b * f \<le> b"
    by (simp_all add: algebra_simps)
qed

lemma steeper:
  fixes a b f g :: rat
  assumes "a \<le> b" and "f \<le> g"
  shows "a * (1 - f) + b * f \<le> a * (1 - g) + b * g"
proof -
  have "0 \<le> (b - a) * (g - f)" using assms by simp
  then show ?thesis by (simp add: algebra_simps)
qed

text \<open>The index and the fraction of a position inside the vector.\<close>

lemma position:
  fixes x :: rat
  assumes "0 \<le> x" and "x \<le> of_nat (n - 1)" and "1 < n"
  shows "of_nat (nat \<lfloor>x\<rfloor>) \<le> x" and "x < of_nat (nat \<lfloor>x\<rfloor> + 1)" and "nat \<lfloor>x\<rfloor> < n"
proof -
  have fl: "of_nat (nat \<lfloor>x\<rfloor>) = (of_int \<lfloor>x\<rfloor> :: rat)" using assms(1) by simp
  show le: "of_nat (nat \<lfloor>x\<rfloor>) \<le> x" unfolding fl by (rule of_int_floor_le)
  show "x < of_nat (nat \<lfloor>x\<rfloor> + 1)" using fl floor_correct [of x] by simp
  have "(of_nat (nat \<lfloor>x\<rfloor>) :: rat) \<le> of_nat (n - 1)" using le assms(2) by linarith
  then have "nat \<lfloor>x\<rfloor> \<le> n - 1" by (simp only: of_nat_le_iff)
  then show "nat \<lfloor>x\<rfloor> < n" using assms(3) by linarith
qed

lemma interpolate_between:
  assumes "sorted xs" and "1 < length xs" and "0 \<le> x" and "x \<le> of_nat (length xs - 1)"
  shows "xs ! nat \<lfloor>x\<rfloor> \<le> interpolate xs x"
    and "interpolate xs x \<le> xs ! min (nat \<lfloor>x\<rfloor> + 1) (length xs - 1)"
proof -
  note p = position [OF assms(3,4,2)]
  have "xs ! nat \<lfloor>x\<rfloor> \<le> xs ! min (nat \<lfloor>x\<rfloor> + 1) (length xs - 1)"
    using assms(1,2) p(3) by (intro sorted_nth_mono) auto
  from between [OF this, of "x - of_nat (nat \<lfloor>x\<rfloor>)"] p(1,2)
  show "xs ! nat \<lfloor>x\<rfloor> \<le> interpolate xs x"
    and "interpolate xs x \<le> xs ! min (nat \<lfloor>x\<rfloor> + 1) (length xs - 1)"
    by (simp_all add: interpolate_def Let_def)
qed

lemma interpolate_mono:
  assumes "sorted xs" and "1 < length xs" and "0 \<le> x" and "x \<le> y" and "y \<le> of_nat (length xs - 1)"
  shows "interpolate xs x \<le> interpolate xs y"
proof (cases "nat \<lfloor>x\<rfloor> = nat \<lfloor>y\<rfloor>")
  case True
  have x: "x \<le> of_nat (length xs - 1)" using assms(4,5) by linarith
  have "xs ! nat \<lfloor>y\<rfloor> \<le> xs ! min (nat \<lfloor>y\<rfloor> + 1) (length xs - 1)"
    using assms(1,2) position(3) [OF assms(3) x assms(2)] True by (intro sorted_nth_mono) auto
  from steeper [OF this] show ?thesis using True assms(4) by (simp add: interpolate_def Let_def)
next
  case False
  have x: "x \<le> of_nat (length xs - 1)" and y: "0 \<le> y" using assms(3-5) by linarith+
  have "nat \<lfloor>x\<rfloor> \<le> nat \<lfloor>y\<rfloor>" using assms(4) by (intro nat_mono floor_mono)
  with False have lt: "nat \<lfloor>x\<rfloor> + 1 \<le> nat \<lfloor>y\<rfloor>" by simp
  have "interpolate xs x \<le> xs ! min (nat \<lfloor>x\<rfloor> + 1) (length xs - 1)"
    by (rule interpolate_between(2) [OF assms(1-3) x])
  also have "\<dots> \<le> xs ! nat \<lfloor>y\<rfloor>"
    using lt assms(1) position(3) [OF y assms(5,2)] by (intro sorted_nth_mono) auto
  also have "\<dots> \<le> interpolate xs y"
    by (rule interpolate_between(1) [OF assms(1,2) y assms(5)])
  finally show ?thesis .
qed

lemma percentile_interpolates:
  assumes "1 < length xs" and "0 \<le> p" and "p \<le> 100"
  shows "percentile xs p = Some (interpolate xs ((p / 100) * of_nat (length xs - 1)))"
proof -
  let ?x = "(p / 100) * of_nat (length xs - 1)"
  have x: "0 \<le> ?x" "?x \<le> of_nat (length xs - 1)"
    using assms(2,3) mult_right_mono [of "p / 100" 1 "of_nat (length xs - 1)"] by simp_all
  from position(3) [OF this assms(1)] x(1) assms(1) show ?thesis
    by (auto simp: percentile_def interpolate_def Let_def)
qed

text \<open>Two percentiles of a sorted vector that is not empty.\<close>

lemma percentile_mono:
  assumes "sorted xs" and "xs \<noteq> []" and "0 \<le> p" and "p \<le> q" and "q \<le> 100"
  shows "\<exists>v w. percentile xs p = Some v \<and> percentile xs q = Some w \<and> hd xs \<le> v \<and> v \<le> w \<and> w \<le> last xs"
proof (cases "length xs = 1")
  case True
  then obtain a where "xs = [a]" by (auto simp: length_Suc_conv)
  then show ?thesis by (simp add: percentile_def)
next
  case False
  with assms(2) have len: "1 < length xs" by (cases xs) auto
  let ?x = "(p / 100) * of_nat (length xs - 1)" and ?y = "(q / 100) * of_nat (length xs - 1)"
  have x: "0 \<le> ?x" and xy: "?x \<le> ?y" and y: "?y \<le> of_nat (length xs - 1)"
    using assms(3-5) mult_right_mono [of "p / 100" "q / 100" "of_nat (length xs - 1)"]
      mult_right_mono [of "q / 100" 1 "of_nat (length xs - 1)"] by simp_all
  have "nat \<lfloor>?x\<rfloor> < length xs" using xy y by (intro position(3) x len) linarith
  moreover have "hd xs = xs ! 0" using assms(2) by (simp add: hd_conv_nth)
  ultimately have "hd xs \<le> xs ! nat \<lfloor>?x\<rfloor>" using sorted_nth_mono [OF assms(1) le0] by metis
  also have "\<dots> \<le> interpolate xs ?x"
    using xy y by (intro interpolate_between(1) assms(1) len x) linarith
  finally have lo: "hd xs \<le> interpolate xs ?x" .
  have "interpolate xs ?y \<le> xs ! min (nat \<lfloor>?y\<rfloor> + 1) (length xs - 1)"
    using x xy y by (intro interpolate_between(2) assms(1) len) linarith+
  also have "\<dots> \<le> xs ! (length xs - 1)"
    using assms(1) len by (intro sorted_nth_mono) auto
  also have "\<dots> = last xs" using assms(2) by (simp add: last_conv_nth)
  finally have hi: "interpolate xs ?y \<le> last xs" .
  from lo hi interpolate_mono [OF assms(1) len x xy y] show ?thesis
    using percentile_interpolates [OF len] assms(3-5) by simp
qed

text \<open>At the position of an element the percentile is that element.\<close>

lemma percentile_at:
  assumes "1 < length xs" and "k < length xs"
  shows "percentile xs (100 * of_nat k / of_nat (length xs - 1)) = Some (xs ! k)"
proof -
  have pos: "(0 :: rat) < of_nat (length xs - 1)" using assms(1) by simp
  have "(of_nat k :: rat) \<le> of_nat (length xs - 1)" using assms by simp
  then have p: "(100 * of_nat k / of_nat (length xs - 1) :: rat) \<le> 100"
    using pos by (simp add: pos_divide_le_eq)
  have "a / N / 100 * N = a / 100" if "0 < N" for a N :: rat
    using that by simp
  from this [OF pos, of "100 * of_nat k"]
  have idx: "(100 * of_nat k / of_nat (length xs - 1)) / 100 * of_nat (length xs - 1) = (of_nat k :: rat)"
    by (simp del: of_nat_diff)
  have "(0 :: rat) \<le> 100 * of_nat k / of_nat (length xs - 1)" using pos by (intro divide_nonneg_pos) simp_all
  from percentile_interpolates [OF assms(1) this p] show ?thesis
    unfolding idx by (simp add: interpolate_def)
qed

section \<open>Mean\<close>

lemma foldl_sum: "foldl (\<lambda>s x. s + x) a v = a + sum_list (v :: rat list)"
  by (induction v arbitrary: a) simp_all

lemma sum_list_between:
  fixes v :: "rat list"
  assumes "\<And>x. x \<in> set v \<Longrightarrow> a \<le> x" and "\<And>x. x \<in> set v \<Longrightarrow> x \<le> b"
  shows "of_nat (length v) * a \<le> sum_list v" and "sum_list v \<le> of_nat (length v) * b"
  using assms by (induction v) (fastforce simp: algebra_simps)+

lemma mean_between:
  assumes "v \<noteq> []" and "\<And>x. x \<in> set v \<Longrightarrow> a \<le> x" and "\<And>x. x \<in> set v \<Longrightarrow> x \<le> b"
  shows "a \<le> mean v" and "mean v \<le> b"
  using sum_list_between [OF assms(2,3)] assms(1)
  by (simp_all add: mean_def foldl_sum pos_le_divide_eq pos_divide_le_eq mult.commute)

section \<open>The printed line\<close>

text \<open>Sorting depends on the samples alone, not on their order.\<close>

lemma bench_sorted_perm: "mset v = mset w \<Longrightarrow> bench_sorted v = bench_sorted w"
  unfolding bench_sorted_def by (rule properties_for_sort) simp_all

lemma bench_sorted_props [simp]:
  "sorted (bench_sorted v)" "set (bench_sorted v) = set v" "length (bench_sorted v) = length v"
  "mset (bench_sorted v) = mset v" "bench_sorted v = [] \<longleftrightarrow> v = []"
  by (simp_all add: bench_sorted_def) (metis length_0_conv length_sort)

lemma sorted_ends:
  assumes "sorted xs" and "xs \<noteq> []"
  shows "hd xs = Min (set xs)" and "last xs = Max (set xs)"
proof -
  have "hd xs \<le> x \<and> x \<le> last xs" if "x \<in> set xs" for x
  proof -
    from that obtain i where "x = xs ! i" "i < length xs" by (auto simp: in_set_conv_nth)
    with assms show ?thesis
      by (auto simp: hd_conv_nth last_conv_nth intro!: sorted_nth_mono)
  qed
  then show "hd xs = Min (set xs)" and "last xs = Max (set xs)"
    using assms(2) by (auto intro!: Min_eqI [symmetric] Max_eqI [symmetric])
qed

lemma percentile_median:
  assumes "odd (length xs)"
  shows "percentile xs 50 = Some (xs ! (length xs div 2))"
proof (cases "length xs = 1")
  case True
  then obtain a where "xs = [a]" by (auto simp: length_Suc_conv)
  then show ?thesis by (simp add: percentile_def)
next
  case False
  from assms obtain k where k: "length xs = 2 * k + 1" by (rule oddE)
  with False have "0 < k" by simp
  then have "(100 * of_nat k / of_nat (2 * k) :: rat) = 50" by simp
  with percentile_at [of xs k] k \<open>0 < k\<close> show ?thesis by simp
qed

text \<open>
  For any samples \<open>printDistribution\<close> prints one line, without an index outside the
  vector, that depends on the samples and not on their order: their number, percentiles that
  lie in order between the smallest and the largest sample, the largest one as the maximum, a
  mean between the two, and for an odd number the middle sample as the median.
\<close>

theorem distribution_ordered:
  assumes "samples \<noteq> []" and "mset others = mset samples"
  shows "\<exists>d. printDistribution name samples = Some (Samples d) \<and>
    printDistribution name others = Some (Samples d) \<and>
    dist_name d = name \<and> dist_n d = length samples \<and>
    Min (set samples) \<le> dist_p50 d \<and> dist_p50 d \<le> dist_p90 d \<and> dist_p90 d \<le> dist_p99 d \<and>
    dist_p99 d \<le> dist_max d \<and> dist_max d = Max (set samples) \<and>
    Min (set samples) \<le> dist_mean d \<and> dist_mean d \<le> Max (set samples) \<and>
    (odd (length samples) \<longrightarrow> dist_p50 d = sort samples ! (length samples div 2))"
proof -
  let ?xs = "bench_sorted samples"
  have ne: "?xs \<noteq> []" using assms(1) by simp
  have ends: "hd ?xs = Min (set samples)" "last ?xs = Max (set samples)"
    using sorted_ends [OF _ ne] by simp_all
  obtain a b where ab: "percentile ?xs 50 = Some a" "percentile ?xs 90 = Some b"
      "hd ?xs \<le> a" "a \<le> b"
    using percentile_mono [OF _ ne, of 50 90] by auto
  obtain c where c: "percentile ?xs 99 = Some c" "b \<le> c" "c \<le> last ?xs"
    using percentile_mono [OF _ ne, of 90 99] ab(2) by auto
  have mean: "Min (set samples) \<le> mean ?xs \<and> mean ?xs \<le> Max (set samples)"
    using mean_between [OF ne, of "Min (set samples)" "Max (set samples)"] by simp
  have median: "odd (length samples) \<longrightarrow> a = sort samples ! (length samples div 2)"
    using percentile_median [of ?xs] ab(1) by (simp add: bench_sorted_def)
  have same: "bench_sorted others = ?xs" and "others \<noteq> []"
    using assms bench_sorted_perm [of others samples] by auto
  then show ?thesis
    using assms(1) ab c mean median ends by (simp add: printDistribution_def)
qed

text \<open>Three samples, evaluated.\<close>

lemma distribution_of_three:
  "printDistribution ''api_reconnect_ms'' [3, 1, 2] = Some (Samples \<lparr>dist_name = ''api_reconnect_ms'',
     dist_n = 3, dist_p50 = 2, dist_p90 = 14 / 5, dist_p99 = 149 / 50, dist_max = 3, dist_mean = 2\<rparr>)"
proof -
  have "\<lfloor>9 / 5 :: rat\<rfloor> = 1" and "\<lfloor>99 / 50 :: rat\<rfloor> = 1" by (simp_all add: floor_eq_iff)
  then show ?thesis
    by (simp add: printDistribution_def bench_sorted_def percentile_def mean_def)
qed

lemma distribution_any_order:
  "\<exists>d. printDistribution ''api_reconnect_ms'' [2, 3, 1] = Some (Samples d) \<and>
     dist_p50 d = 2 \<and> dist_p90 d = 14 / 5 \<and> dist_p99 d = 149 / 50 \<and> dist_max d = 3 \<and> dist_n d = 3"
  using distribution_ordered [of "[3, 1, 2]" "[2, 3, 1]" "''api_reconnect_ms''"]
  by (auto simp: distribution_of_three)

end
