(* ===== verification/Bench_Recovery.thy ===== *)
theory Bench_Recovery
  imports Bench_Rss Bench_Stats
begin

text \<open>
  The two measurements of \<open>bench/bench_recovery.cpp\<close>: the round trip of \<open>disconnect()\<close> and
  \<open>connect()\<close>, and the recovery of the client after an outage of the server.
\<close>

section \<open>The program\<close>

text \<open>\<open>waitHealthy\<close>; one unit of fuel for each pass.\<close>

primrec healthy_loop :: "'w sdk \<Rightarrow> 'w bench_env \<Rightarrow> int \<Rightarrow> rat \<Rightarrow> nat \<Rightarrow> ('w client, bool) cpp" where
  "healthy_loop K E t0 limit 0 = divergeE"
| "healthy_loop K E t0 limit (Suc n) = bindE (msSince K t0) (\<lambda>ms.
     if ms < limit then bindE (isHealthy K) (\<lambda>r.
       if is_success r then ret True
       else thenE (sleepE E (Num 10)) (healthy_loop K E t0 limit n))
     else bindE (isHealthy K) (\<lambda>r. ret (is_success r)))"

definition waitHealthy :: "'w sdk \<Rightarrow> 'w bench_env \<Rightarrow> nat \<Rightarrow> rat \<Rightarrow> ('w client, bool) cpp" where
  "waitHealthy K E n limit = bindE (clock_now K) (\<lambda>t0. healthy_loop K E t0 limit n)"

text \<open>The wait until the client has seen the outage.\<close>

primrec down_loop :: "'w sdk \<Rightarrow> 'w bench_env \<Rightarrow> int \<Rightarrow> nat \<Rightarrow> ('w client, unit) cpp" where
  "down_loop K E down0 0 = divergeE"
| "down_loop K E down0 (Suc n) = bindE (msSince K down0) (\<lambda>ms.
     if ms < 30000 then bindE (isHealthy K) (\<lambda>r.
       if is_success r then thenE (sleepE E (Num 10)) (down_loop K E down0 n) else ret ())
     else ret ())"

text \<open>One round trip; \<open>None\<close> when a call has failed, and then there is no sample.\<close>

definition api_cycle :: "'w sdk \<Rightarrow> nat \<Rightarrow> ('w client, rat option) cpp" where
  "api_cycle K fuel = bindE (clock_now K) (\<lambda>t0.
     bindE (client_disconnect K fuel) (\<lambda>d.
     bindE (client_connect K fuel) (\<lambda>c.
     bindE (msSince K t0) (\<lambda>ms.
     ret (if is_fail d \<or> is_fail c then None else Some ms)))))"

primrec cycles :: "('s, rat option) cpp \<Rightarrow> nat \<Rightarrow> rat list \<Rightarrow> ('s, rat list) cpp" where
  "cycles m 0 samples = ret samples"
| "cycles m (Suc n) samples = bindE m (\<lambda>r. cycles m n (case r of None \<Rightarrow> samples | Some ms \<Rightarrow> samples @ [ms]))"

text \<open>
  One outage.  The server is part of the state here; \<open>Inl c\<close>: the process has ended with status \<open>c\<close>
  because the server did not start again.
\<close>

definition onServer :: "'w server_op \<Rightarrow> server \<Rightarrow> ('w client, nat + server) cpp" where
  "onServer m srv = (\<lambda>s. case m srv (c_world s) of (r, w) \<Rightarrow> (Ret r, s\<lparr>c_world := w\<rparr>))"

definition restart_cycle ::
  "'w sdk \<Rightarrow> 'w bench_env \<Rightarrow> nat \<Rightarrow> server \<Rightarrow> ('w client, nat + server \<times> rat option) cpp" where
  "restart_cycle K E n srv = bindE (onServer (stopServing (server_lib E)) srv) (\<lambda>a. case a of
       Inl c \<Rightarrow> ret (Inl c)
     | Inr srv \<Rightarrow>
         bindE (clock_now K) (\<lambda>down0.
         thenE (down_loop K E down0 n)
         (bindE (onServer (startServing (server_lib E)) srv) (\<lambda>b. case b of
            Inl c \<Rightarrow> ret (Inl c)
          | Inr srv \<Rightarrow>
              bindE (clock_now K) (\<lambda>up0.
              bindE (waitHealthy K E n 60000) (\<lambda>recovered.
              bindE (msSince K up0) (\<lambda>ms.
              ret (Inr (srv, if recovered then Some ms else None)))))))))"

primrec restart_cycles ::
  "'w sdk \<Rightarrow> 'w bench_env \<Rightarrow> nat \<Rightarrow> nat \<Rightarrow> server \<Rightarrow> rat list \<Rightarrow> ('w client, nat + server \<times> rat list) cpp" where
  "restart_cycles K E n 0 srv samples = ret (Inr (srv, samples))"
| "restart_cycles K E n (Suc m) srv samples = bindE (restart_cycle K E n srv) (\<lambda>a. case a of
       Inl c \<Rightarrow> ret (Inl c)
     | Inr (srv, r) \<Rightarrow> restart_cycles K E n m srv (case r of None \<Rightarrow> samples | Some ms \<Rightarrow> samples @ [ms]))"

text \<open>
  The two measurements of \<open>main\<close>, with the lines they print; \<open>Inl c\<close>: the process has ended.
  Without a server of its own there is no second measurement.
\<close>

definition recovery_body ::
  "'w sdk \<Rightarrow> 'w bench_env \<Rightarrow> nat \<Rightarrow> nat \<Rightarrow> recovery_args \<Rightarrow> server option
    \<Rightarrow> ('w client, nat + server option \<times> dist_line option list) cpp" where
  "recovery_body K E fuel n args own = bindE (cycles (api_cycle K fuel) (unat (ra_apiCycles args)) []) (\<lambda>api.
     let line = printDistribution ''api_reconnect_ms'' api in
     case own of
       None \<Rightarrow> thenE (client_shutdown K) (ret (Inr (None, [line])))
     | Some srv \<Rightarrow> bindE (restart_cycles K E n (unat (ra_restartCycles args)) srv []) (\<lambda>a. case a of
           Inl c \<Rightarrow> ret (Inl c)
         | Inr (srv, rec) \<Rightarrow> thenE (client_shutdown K)
             (ret (Inr (Some srv, [line, printDistribution ''restart_recovery_ms'' rec])))))"

definition main_recovery ::
  "'w sdk \<Rightarrow> 'w bench_env \<Rightarrow> nat \<Rightarrow> nat \<Rightarrow> string list \<Rightarrow> ('w, nat \<times> dist_line option list) cpp" where
  "main_recovery K E fuel n argv w = (case parse_recovery argv of
       Exit c \<Rightarrow> (Ret (c, []), w)
     | Args args \<Rightarrow> (case own_server E (ra_endpoint args) (ra_port args) w of
         (Inl c, w1) \<Rightarrow> (Ret (c, []), w1)
       | (Inr srv, w1) \<Rightarrow>
           (case create K fuel (bench_url (ra_endpoint args) (ra_port args)) (bench_config LOG_ERROR) False w1 of
             (Ret (Error e), w2) \<Rightarrow> (Ret (2, []), stop_own E srv w2)
           | (Ret (Success cl), w2) \<Rightarrow> (case recovery_body K E fuel n args srv cl of
               (Ret (Inl c), cl') \<Rightarrow> (Ret (c, []), c_world cl')
             | (Ret (Inr (srv', out)), cl') \<Rightarrow> (Ret (0, out), stop_own E srv' (discard K cl'))
             | (Throw e, cl') \<Rightarrow> (Throw e, c_world cl')
             | (Diverge, cl') \<Rightarrow> (Diverge, c_world cl')
             | (Fault, cl') \<Rightarrow> (Fault, c_world cl'))
           | (Throw e, w2) \<Rightarrow> (Throw e, w2)
           | (Diverge, w2) \<Rightarrow> (Diverge, w2)
           | (Fault, w2) \<Rightarrow> (Fault, w2))))"

section \<open>Waiting\<close>

text \<open>
  The two loops poll every ten milliseconds, so that \<open>N\<close> passes are enough for a timeout of
  \<open>10 * N\<close> milliseconds.
\<close>

lemma wp_pause:
  assumes "bench_documented K E clk"
  shows "wp {} (sleepE E (Num 10)) (\<lambda>_ t. clk (c_world s) + 10000000 \<le> clk (c_world t)) s"
  by (rule wp_weaken [OF wp_sleepE [OF assms]]) simp

text \<open>What \<open>isHealthy()\<close> says at the moment it is called.\<close>

definition says_healthy :: "'w sdk \<Rightarrow> 'w client \<Rightarrow> bool" where
  "says_healthy K u \<longleftrightarrow> (\<exists>r. fst (isHealthy K u) = Ret r \<and> is_success r)"

lemma wp_poll:
  assumes "bench_documented K E clk"
  shows "wp {} (isHealthy K) (\<lambda>r t. clk (c_world s) \<le> clk (c_world t) \<and>
    is_success r = says_healthy K s \<and> t = snd (isHealthy K s)) s"
  using wp_isHealthy_later [OF assms, of s] by (auto simp: wp_def says_healthy_def split: prod.splits outcome.splits)

lemma wp_healthy_loop:
  fixes K :: "'w sdk"
  assumes "bench_documented K E clk" and "limit \<le> of_nat (10 * N)"
    and "m \<le> N" and "N < n + m" and "t0 + int m * 10000000 \<le> clk (c_world s)"
  shows "wp {} (healthy_loop K E t0 limit n) (\<lambda>b t. \<exists>u. t = snd (isHealthy K u) \<and> b = says_healthy K u \<and>
    (b \<or> limit \<le> of_int (clk (c_world t) - t0) / 1000000)) s"
  using assms(3-)
proof (induction n arbitrary: m s)
  case (Suc n)
  have late: "limit \<le> ms" if "m = N" "of_int (clk (c_world s) - t0) / 1000000 \<le> ms" for ms
  proof -
    have "int (10 * N) * 1000000 \<le> clk (c_world s) - t0" using Suc.prems(3) that(1) by simp
    then have "of_nat (10 * N) * 1000000 \<le> (of_int (clk (c_world s) - t0) :: rat)"
      by (metis of_int_le_iff of_int_mult of_int_numeral of_int_of_nat_eq)
    with assms(2) that(2) show ?thesis by simp
  qed
  show ?case
    unfolding healthy_loop.simps
  proof (rule wp_bindI [OF wp_msSince_later [OF assms(1)]])
    fix ms :: rat and t :: "'w client"
    assume ms: "of_int (clk (c_world s) - t0) / 1000000 \<le> ms \<and>
      ms \<le> of_int (clk (c_world t) - t0) / 1000000 \<and> clk (c_world s) \<le> clk (c_world t)"
    let ?post = "(\<lambda>b t. \<exists>u. t = snd (isHealthy K u) \<and> b = says_healthy K u \<and>
        (b \<or> limit \<le> of_int (clk (c_world t) - t0) / 1000000))"
    show "wp {} (if ms < limit then bindE (isHealthy K) (\<lambda>r. if is_success r then ret True
          else thenE (sleepE E (Num 10)) (healthy_loop K E t0 limit n))
        else bindE (isHealthy K) (\<lambda>r. ret (is_success r))) ?post t"
    proof (cases "ms < limit")
      case True
      with late ms Suc.prems(1) have "m < N" by (metis le_neq_implies_less not_le)
      have "wp {} (if is_success r then ret True
            else thenE (sleepE E (Num 10)) (healthy_loop K E t0 limit n)) ?post u"
        if r: "clk (c_world t) \<le> clk (c_world u) \<and> is_success r = says_healthy K t \<and> u = snd (isHealthy K t)" for r u
      proof (cases "is_success r")
        case False
        from r ms have "clk (c_world s) \<le> clk (c_world u)" by (blast intro: order_trans)
        then have "wp {} (healthy_loop K E t0 limit n) ?post v" if "clk (c_world u) + 10000000 \<le> clk (c_world v)" for v
          using that \<open>m < N\<close> Suc.prems(2,3) by (intro Suc.IH [of "Suc m"]) simp_all
        then have "wp {} (sleepE E (Num 10)) (\<lambda>_ v. wp {} (healthy_loop K E t0 limit n) ?post v) u"
          by (intro wp_weaken [OF wp_pause [OF assms(1)]])
        with False show ?thesis by (simp add: wp_then)
      qed (use r in \<open>auto simp: wp_ret\<close>)
      with True show ?thesis by (auto intro: wp_bindI [OF wp_poll [OF assms(1)]])
    next
      case False
      with ms have late: "limit \<le> of_int (clk (c_world t) - t0) / 1000000" by simp
      have "wp {} (ret (is_success r)) ?post u"
        if r: "clk (c_world t) \<le> clk (c_world u) \<and> is_success r = says_healthy K t \<and> u = snd (isHealthy K t)" for r u
      proof -
        from r have "clk (c_world t) - t0 \<le> clk (c_world u) - t0" by linarith
        then have "(of_int (clk (c_world t) - t0) :: rat) \<le> of_int (clk (c_world u) - t0)"
          by (simp only: of_int_le_iff)
        with late have "limit \<le> of_int (clk (c_world u) - t0) / 1000000" by simp
        with r show ?thesis by (auto simp: wp_ret)
      qed
      with False show ?thesis by (auto intro: wp_bindI [OF wp_poll [OF assms(1)]])
    qed
  qed
qed simp

text \<open>
  \<open>waitHealthy\<close> always comes back, after at most one pass for every ten milliseconds of its
  limit, and it tells the truth: its answer is what \<open>isHealthy()\<close> says in its last call, and a
  negative answer is only given once the limit has passed.
\<close>

theorem waitHealthy_decides:
  assumes "bench_documented K E clk" and "limit \<le> of_nat (10 * N)" and "N < n"
  shows "wp {} (waitHealthy K E n limit) (\<lambda>b t. \<exists>u. t = snd (isHealthy K u) \<and> b = says_healthy K u \<and>
    (\<not> b \<longrightarrow> limit \<le> of_int (clk (c_world t) - clk (c_world s)) / 1000000)) s"
  unfolding waitHealthy_def
proof (rule wp_bindI [OF wp_clock_now [OF assms(1)]])
  fix t0 and t :: "'a client"
  assume t0: "clk (c_world s) \<le> t0 \<and> t0 \<le> clk (c_world t)"
  have "wp {} (healthy_loop K E t0 limit n) (\<lambda>b t. \<exists>u. t = snd (isHealthy K u) \<and> b = says_healthy K u \<and>
      (b \<or> limit \<le> of_int (clk (c_world t) - t0) / 1000000)) t"
    using assms t0 by (intro wp_healthy_loop [of K E clk limit N 0]) simp_all
  then show "wp {} (healthy_loop K E t0 limit n) (\<lambda>b t. \<exists>u. t = snd (isHealthy K u) \<and> b = says_healthy K u \<and>
      (\<not> b \<longrightarrow> limit \<le> of_int (clk (c_world t) - clk (c_world s)) / 1000000)) t"
  proof (rule wp_weaken)
    fix b and v :: "'a client"
    have "(of_int (clk (c_world v) - t0) :: rat) \<le> of_int (clk (c_world v) - clk (c_world s))"
      using t0 by (simp only: of_int_le_iff) simp
    moreover assume "\<exists>u. v = snd (isHealthy K u) \<and> b = says_healthy K u \<and>
      (b \<or> limit \<le> of_int (clk (c_world v) - t0) / 1000000)"
    ultimately show "\<exists>u. v = snd (isHealthy K u) \<and> b = says_healthy K u \<and>
      (\<not> b \<longrightarrow> limit \<le> of_int (clk (c_world v) - clk (c_world s)) / 1000000)"
      by fastforce
  qed
qed

section \<open>Round trips\<close>

lemma wp_api_cycle:
  assumes "bench_documented K E clk" and "max_polls \<le> fuel"
  shows "wp {} (api_cycle K fuel) (\<lambda>r t. clk (c_world s) \<le> clk (c_world t) \<and>
    (case r of None \<Rightarrow> True | Some ms \<Rightarrow> 0 \<le> ms \<and> ms \<le> of_int (clk (c_world t) - clk (c_world s)) / 1000000)) s"
proof -
  have wall: "wall_documented K clk" using assms(1) by (simp add: bench_documented_def)
  note disc = wp_later [OF assms(1) disconnect_returns [OF wall assms(2)] clock.l_disconnect]
    and conn = wp_later [OF assms(1) connect_returns [OF wall assms(2)] clock.l_connect]
  show ?thesis
    unfolding api_cycle_def
  proof (rule wp_bindI [OF wp_clock_now [OF assms(1)]], rule wp_bindI [OF disc], rule wp_bindI [OF conn],
      rule wp_bindI [OF wp_msSince_later [OF assms(1)]])
    fix t0 d c and ms :: rat and t u v w :: "'a client"
    assume le: "clk (c_world s) \<le> t0 \<and> t0 \<le> clk (c_world t)" "clk (c_world t) \<le> clk (c_world u)"
      "clk (c_world u) \<le> clk (c_world v)"
      and ms: "of_int (clk (c_world v) - t0) / 1000000 \<le> ms \<and> ms \<le> of_int (clk (c_world w) - t0) / 1000000 \<and>
        clk (c_world v) \<le> clk (c_world w)"
    have "(0 :: rat) \<le> of_int (clk (c_world v) - t0)" using le by simp
    with ms have "0 \<le> ms" by simp
    moreover have "(of_int (clk (c_world w) - t0) :: rat) \<le> of_int (clk (c_world w) - clk (c_world s))"
      using le by (simp only: of_int_le_iff) simp
    ultimately show "wp {} (ret (if is_fail d \<or> is_fail c then None else Some ms))
      (\<lambda>r t. clk (c_world s) \<le> clk (c_world t) \<and> (case r of None \<Rightarrow> True
        | Some ms \<Rightarrow> 0 \<le> ms \<and> ms \<le> of_int (clk (c_world t) - clk (c_world s)) / 1000000)) w"
      using le ms by (auto simp: wp_ret)
  qed
qed

text \<open>
  The first measurement of \<open>bench_recovery\<close> comes to its end, with one sample at most for
  each cycle; a sample is never negative, and together the samples are not longer than the time
  the measurement took.
\<close>

theorem api_samples_bounded:
  assumes "bench_documented K E clk" and "max_polls \<le> fuel"
  shows "wp {} (cycles (api_cycle K fuel) m samples) (\<lambda>out t. \<exists>new. out = samples @ new \<and> length new \<le> m \<and>
    (\<forall>x \<in> set new. 0 \<le> x) \<and> sum_list new \<le> of_int (clk (c_world t) - clk (c_world s)) / 1000000) s"
proof (induction m arbitrary: samples s)
  case (Suc m)
  show ?case
    unfolding cycles.simps
  proof (rule wp_bindI [OF wp_api_cycle [OF assms]])
    fix r and t :: "'a client"
    let ?next = "case r of None \<Rightarrow> samples | Some ms \<Rightarrow> samples @ [ms]"
    assume r: "clk (c_world s) \<le> clk (c_world t) \<and> (case r of None \<Rightarrow> True
      | Some ms \<Rightarrow> 0 \<le> ms \<and> ms \<le> of_int (clk (c_world t) - clk (c_world s)) / 1000000)"
    show "wp {} (cycles (api_cycle K fuel) m ?next) (\<lambda>out t. \<exists>new. out = samples @ new \<and> length new \<le> Suc m \<and>
      (\<forall>x \<in> set new. 0 \<le> x) \<and> sum_list new \<le> of_int (clk (c_world t) - clk (c_world s)) / 1000000) t"
    proof (rule wp_weaken [OF Suc.IH])
      fix out and u :: "'a client"
      assume "\<exists>new. out = ?next @ new \<and> length new \<le> m \<and> (\<forall>x \<in> set new. 0 \<le> x) \<and>
        sum_list new \<le> of_int (clk (c_world u) - clk (c_world t)) / 1000000"
      then obtain new where new: "out = ?next @ new" "length new \<le> m" "\<forall>x \<in> set new. 0 \<le> x"
        "sum_list new \<le> of_int (clk (c_world u) - clk (c_world t)) / 1000000" by blast
      show "\<exists>new. out = samples @ new \<and> length new \<le> Suc m \<and> (\<forall>x \<in> set new. 0 \<le> x) \<and>
        sum_list new \<le> of_int (clk (c_world u) - clk (c_world s)) / 1000000"
      proof (cases r)
        case None
        have "(of_int (clk (c_world u) - clk (c_world t)) :: rat) \<le> of_int (clk (c_world u) - clk (c_world s))"
          using r by (simp only: of_int_le_iff) simp
        with new None show ?thesis by (intro exI [of _ new]) fastforce
      next
        case (Some ms)
        with new r show ?thesis by (intro exI [of _ "ms # new"]) simp
      qed
    qed
  qed
qed (simp add: wp_ret)

end
