(* ===== verification/Bench_Latency.thy ===== *)
theory Bench_Latency
  imports Bench_Recovery
begin

text \<open>
  \<open>bench/bench_latency.cpp\<close>: the calls of one worker thread, closed loop or at a planned rate,
  the summary of a run and the exit status.  The workers of a run are joined before their
  samples are read, so a run is the list of what its workers have left behind.
\<close>

section \<open>The calls of a worker\<close>

definition latency_reads :: "latency_args \<Rightarrow> node_id list" where
  "latency_reads args = bench_nodes (la_batch args)"

definition latency_writes :: "latency_args \<Rightarrow> write_item list" where
  "latency_writes args = map (\<lambda>i. \<lparr>wi_node = \<lparr>nd_ns = 1, nd_id = K_string ''BenchInt'', nd_dataType = S7_INT\<rparr>,
     wi_value = V_int16 (of_nat i)\<rparr>) [0..<unat (la_batch args)]"

text \<open>One call, and whether it succeeded.\<close>

definition latency_call :: "'w sdk \<Rightarrow> latency_args \<Rightarrow> ('w client, bool) cpp" where
  "latency_call K args = (if la_write args
     then bindE (batchWrite K (latency_writes args)) (\<lambda>r. ret (is_success r))
     else bindE (batchRead K (latency_reads args)) (\<lambda>r. ret (is_success r)))"

definition warm_up :: "'w sdk \<Rightarrow> latency_args \<Rightarrow> ('w client, unit) cpp" where
  "warm_up K args = thenE (latency_call K args) (thenE (latency_call K args) (thenE (latency_call K args) (ret ())))"

text \<open>A cast to \<open>int64_t\<close>; \<open>None\<close> when the value does not fit.\<close>

definition in_int64 :: "int \<Rightarrow> bool" where
  "in_int64 x \<longleftrightarrow> - (2 ^ 63) \<le> x \<and> x < 2 ^ 63"

fun to_int64 :: "double \<Rightarrow> int option" where
  "to_int64 (Num x) = (let y = (if 0 \<le> x then \<lfloor>x\<rfloor> else \<lceil>x\<rceil>) in if in_int64 y then Some y else None)"
| "to_int64 _ = None"

definition perThread :: "latency_args \<Rightarrow> nat" where
  "perThread args = unat (la_ops args div la_threads args)"

definition perThreadRate :: "latency_args \<Rightarrow> double" where
  "perThreadRate args = (if Num 0 < la_rate args \<and> 0 < la_threads args
     then la_rate args / Num (of_nat (unat (la_threads args))) else Num 0)"

definition intervalNs :: "latency_args \<Rightarrow> int option" where
  "intervalNs args = (if Num 0 < perThreadRate args then to_int64 (Num 1000000000 / perThreadRate args) else Some 0)"

text \<open>
  The planned instant of call \<open>i\<close>; a product or a sum beyond \<open>int64_t\<close> is undefined.
\<close>

definition planned :: "int \<Rightarrow> int \<Rightarrow> nat \<Rightarrow> int option" where
  "planned rateStart interval i = (let d = interval * int (i + 1) in
     if in_int64 d \<and> in_int64 (rateStart + d) then Some (rateStart + d) else None)"

definition worker_start ::
  "'w sdk \<Rightarrow> 'w bench_env \<Rightarrow> latency_args \<Rightarrow> int \<Rightarrow> int \<Rightarrow> nat \<Rightarrow> ('w client, int) cpp" where
  "worker_start K E args interval rateStart i = bindE (clock_now K) (\<lambda>t0.
     if Num 0 < perThreadRate args then (case planned rateStart interval i of
         None \<Rightarrow> faultE
       | Some target \<Rightarrow> bindE (clock_now K) (\<lambda>now.
           thenE (if now < target then sleepE E (Num (of_int (target - now) / 1000000)) else ret ())
             (ret target)))
     else ret t0)"

definition worker_call ::
  "'w sdk \<Rightarrow> 'w bench_env \<Rightarrow> latency_args \<Rightarrow> int \<Rightarrow> int \<Rightarrow> nat \<Rightarrow> ('w client, rat \<times> bool) cpp" where
  "worker_call K E args interval rateStart i =
     bindE (worker_start K E args interval rateStart i) (\<lambda>t0.
     bindE (latency_call K args) (\<lambda>ok.
     bindE (msSince K t0) (\<lambda>ms. ret (ms, ok))))"

primrec worker_calls ::
  "'w sdk \<Rightarrow> 'w bench_env \<Rightarrow> latency_args \<Rightarrow> int \<Rightarrow> int \<Rightarrow> nat \<Rightarrow> nat \<Rightarrow> rat list \<times> nat
    \<Rightarrow> ('w client, rat list \<times> nat) cpp" where
  "worker_calls K E args interval rateStart 0 i acc = ret acc"
| "worker_calls K E args interval rateStart (Suc n) i acc =
     bindE (worker_call K E args interval rateStart i) (\<lambda>(ms, ok).
       worker_calls K E args interval rateStart n (Suc i)
         (fst acc @ [ms], snd acc + (if ok then 0 else 1)))"

definition worker :: "'w sdk \<Rightarrow> 'w bench_env \<Rightarrow> latency_args \<Rightarrow> ('w client, rat list \<times> nat) cpp" where
  "worker K E args = (case intervalNs args of
       None \<Rightarrow> faultE
     | Some interval \<Rightarrow> bindE (clock_now K) (\<lambda>rateStart.
         worker_calls K E args interval rateStart (perThread args) 0 ([], 0)))"

text \<open>A worker with a client of its own; \<open>None\<close>: it could not be created.\<close>

definition own_worker ::
  "'w sdk \<Rightarrow> 'w bench_env \<Rightarrow> nat \<Rightarrow> latency_args \<Rightarrow> ('w, (rat list \<times> nat) option) cpp" where
  "own_worker K E fuel args w = (case create K fuel (bench_url (la_endpoint args) (la_port args))
         (bench_config (la_logLevel args)) False w of
       (Ret (Error e), w1) \<Rightarrow> (Ret None, w1)
     | (Ret (Success c), w1) \<Rightarrow> (case thenE (warm_up K args)
             (bindE (worker K E args) (\<lambda>r. thenE (client_shutdown K) (ret r))) c of
         (Ret r, c') \<Rightarrow> (Ret (Some r), discard K c')
       | (Throw e, c') \<Rightarrow> (Throw e, c_world c')
       | (Diverge, c') \<Rightarrow> (Diverge, c_world c')
       | (Fault, c') \<Rightarrow> (Fault, c_world c'))
     | (Throw e, w1) \<Rightarrow> (Throw e, w1)
     | (Diverge, w1) \<Rightarrow> (Diverge, w1)
     | (Fault, w1) \<Rightarrow> (Fault, w1))"

section \<open>The summary of a run\<close>

record run =
  run_calls :: nat
  run_wallMs :: rat
  run_callsPerSec :: rat
  run_p50 :: rat
  run_p90 :: rat
  run_p99 :: rat
  run_p999 :: rat
  run_max :: rat
  run_mean :: rat
  run_errors :: nat

definition summarise :: "rat \<Rightarrow> (rat list \<times> nat) list \<Rightarrow> run option" where
  "summarise wallMs workers =
     (let samples = bench_sorted (concat (map fst workers)) in
      case (percentile samples 50, percentile samples 90, percentile samples 99, percentile samples (999 / 10)) of
        (Some a, Some b, Some c, Some d) \<Rightarrow> Some \<lparr>run_calls = length samples, run_wallMs = wallMs,
          run_callsPerSec = (if 0 < wallMs then of_nat (length samples) * 1000 / wallMs else 0),
          run_p50 = a, run_p90 = b, run_p99 = c, run_p999 = d,
          run_max = (if samples = [] then 0 else last samples), run_mean = mean samples,
          run_errors = sum_list (map snd workers)\<rparr>
      | _ \<Rightarrow> None)"

text \<open>The median of one figure over several runs.\<close>

definition medianOf :: "(run \<Rightarrow> rat) \<Rightarrow> run list \<Rightarrow> rat option" where
  "medianOf pick runs = percentile (bench_sorted (map pick runs)) 50"

text \<open>
  The status of \<open>main\<close>: 2 as soon as a worker of a repeat has no client, otherwise whether any
  measured call of any repeat has failed.
\<close>

fun latency_status :: "(rat list \<times> nat) option list list \<Rightarrow> nat \<Rightarrow> nat" where
  "latency_status [] totalErrors = (if totalErrors = 0 then 0 else 1)"
| "latency_status (pool # pools) totalErrors =
     (if None \<in> set pool then 2
      else latency_status pools (totalErrors + sum_list (map (\<lambda>w. case w of None \<Rightarrow> 0 | Some (_, e) \<Rightarrow> e) pool)))"

section \<open>The samples of a worker\<close>

lemma wp_latency_call:
  assumes "bench_documented K E clk" and "reads_documented K" and "writes_documented K"
  shows "wp {} (latency_call K args) (\<lambda>_ t. clk (c_world s) \<le> clk (c_world t)) s"
  unfolding latency_call_def
  by (auto intro!: wp_bindI [OF wp_batchWrite_later [OF assms(1,3)]] wp_bindI [OF wp_batchRead_later [OF assms(1,2)]]
      simp: wp_ret)

text \<open>
  The instant from which a call is measured: with a rate the planned one, and the call is not
  issued before it; otherwise the time right before the call.
\<close>

lemma wp_worker_start:
  assumes "bench_documented K E clk" and "Num 0 < perThreadRate args \<Longrightarrow> planned rateStart interval i \<noteq> None"
  shows "wp {} (worker_start K E args interval rateStart i) (\<lambda>t0 t. clk (c_world s) \<le> clk (c_world t) \<and>
    t0 \<le> clk (c_world t) \<and> (if Num 0 < perThreadRate args then planned rateStart interval i = Some t0
      else clk (c_world s) \<le> t0)) s"
  unfolding worker_start_def
proof (rule wp_bindI [OF wp_clock_now [OF assms(1)]])
  fix t0 and t :: "'a client"
  assume t0: "clk (c_world s) \<le> t0 \<and> t0 \<le> clk (c_world t)"
  let ?post = "\<lambda>t0 t. clk (c_world s) \<le> clk (c_world t) \<and>
    t0 \<le> clk (c_world t) \<and> (if Num 0 < perThreadRate args then planned rateStart interval i = Some t0
      else clk (c_world s) \<le> t0)"
  show "wp {} (if Num 0 < perThreadRate args then (case planned rateStart interval i of
         None \<Rightarrow> faultE
       | Some target \<Rightarrow> bindE (clock_now K) (\<lambda>now.
           thenE (if now < target then sleepE E (Num (of_int (target - now) / 1000000)) else ret ())
             (ret target)))
     else ret t0) ?post t"
  proof (cases "Num 0 < perThreadRate args")
    case True
    with assms(2) obtain target where target: "planned rateStart interval i = Some target" by blast
    have "wp {} (if now < target then sleepE E (Num (of_int (target - now) / 1000000)) else ret ())
        (\<lambda>_ v. ?post target v) u"
      if now: "clk (c_world t) \<le> now \<and> now \<le> clk (c_world u)" for now u
    proof (cases "now < target")
      case True
      have "\<lfloor>of_int (target - now) / 1000000 * 1000000 :: rat\<rfloor> = target - now"
        by (simp del: of_int_diff)
      from wp_sleepE [OF assms(1), of "of_int (target - now) / 1000000" u, unfolded this]
      have "wp {} (sleepE E (Num (of_int (target - now) / 1000000))) (\<lambda>_ v. ?post target v) u"
        by (rule wp_weaken) (use now t0 target \<open>Num 0 < perThreadRate args\<close> in simp)
      with True show ?thesis by simp
    qed (use now t0 target \<open>Num 0 < perThreadRate args\<close> in \<open>simp add: wp_ret\<close>)
    then have "wp {} (thenE (if now < target then sleepE E (Num (of_int (target - now) / 1000000)) else ret ())
        (ret target)) ?post u" if "clk (c_world t) \<le> now \<and> now \<le> clk (c_world u)" for now u
      using that unfolding wp_then wp_ret by blast
    then have "wp {} (bindE (clock_now K) (\<lambda>now.
           thenE (if now < target then sleepE E (Num (of_int (target - now) / 1000000)) else ret ())
             (ret target))) ?post t"
      by (rule wp_bindI [OF wp_clock_now [OF assms(1)]])
    with True target show ?thesis by simp
  qed (use t0 in \<open>simp add: wp_ret\<close>)
qed

lemma wp_worker_call:
  assumes "bench_documented K E clk" and "reads_documented K" and "writes_documented K"
    and "Num 0 < perThreadRate args \<Longrightarrow> planned rateStart interval i \<noteq> None"
  shows "wp {} (worker_call K E args interval rateStart i) (\<lambda>(ms, ok) t. clk (c_world s) \<le> clk (c_world t) \<and>
    0 \<le> ms \<and> (if Num 0 < perThreadRate args
      then \<exists>target. planned rateStart interval i = Some target \<and>
        of_int (clk (c_world s) - target) / 1000000 \<le> ms \<and> ms \<le> of_int (clk (c_world t) - target) / 1000000
      else ms \<le> of_int (clk (c_world t) - clk (c_world s)) / 1000000)) s"
  unfolding worker_call_def
proof (rule wp_bindI [OF wp_worker_start [OF assms(1,4)]], assumption,
    rule wp_bindI [OF wp_latency_call [OF assms(1-3)]], rule wp_bindI [OF wp_msSince_later [OF assms(1)]])
  fix t0 ok and ms :: rat and t u v :: "'a client"
  assume start: "clk (c_world s) \<le> clk (c_world t) \<and> t0 \<le> clk (c_world t) \<and>
      (if Num 0 < perThreadRate args then planned rateStart interval i = Some t0 else clk (c_world s) \<le> t0)"
    and le: "clk (c_world t) \<le> clk (c_world u)"
    and ms: "of_int (clk (c_world u) - t0) / 1000000 \<le> ms \<and> ms \<le> of_int (clk (c_world v) - t0) / 1000000 \<and>
      clk (c_world u) \<le> clk (c_world v)"
  have "0 \<le> clk (c_world u) - t0" using start le by linarith
  then have "(0 :: rat) \<le> of_int (clk (c_world u) - t0)" by (simp only: of_int_0_le_iff)
  with ms have pos: "0 \<le> ms" by simp
  have "clk (c_world s) - t0 \<le> clk (c_world u) - t0" using start le by linarith
  then have "(of_int (clk (c_world s) - t0) :: rat) \<le> of_int (clk (c_world u) - t0)" by (simp only: of_int_le_iff)
  with ms have late: "of_int (clk (c_world s) - t0) / 1000000 \<le> ms" by simp
  have short: "ms \<le> of_int (clk (c_world v) - clk (c_world s)) / 1000000" if "clk (c_world s) \<le> t0"
  proof -
    have "clk (c_world v) - t0 \<le> clk (c_world v) - clk (c_world s)" using that by simp
    then have "(of_int (clk (c_world v) - t0) :: rat) \<le> of_int (clk (c_world v) - clk (c_world s))"
      by (simp only: of_int_le_iff)
    with ms show ?thesis by simp
  qed
  show "wp {} (ret (ms, ok)) (\<lambda>(ms, ok) t. clk (c_world s) \<le> clk (c_world t) \<and> 0 \<le> ms \<and>
    (if Num 0 < perThreadRate args
      then \<exists>target. planned rateStart interval i = Some target \<and>
        of_int (clk (c_world s) - target) / 1000000 \<le> ms \<and> ms \<le> of_int (clk (c_world t) - target) / 1000000
      else ms \<le> of_int (clk (c_world t) - clk (c_world s)) / 1000000)) v"
    unfolding wp_ret using start le ms pos late short by (auto intro: order_trans)
qed

text \<open>
  What the samples of the first \<open>i\<close> calls are known to satisfy.  With a rate, a sample falls
  short of the one before by at most the interval: a backlog stays visible in the samples.
\<close>

definition samples_ok :: "bool \<Rightarrow> int \<Rightarrow> rat \<Rightarrow> rat list \<Rightarrow> nat \<Rightarrow> nat \<Rightarrow> bool" where
  "samples_ok rated interval elapsed lat errs i \<longleftrightarrow> length lat = i \<and> errs \<le> i \<and> (\<forall>x \<in> set lat. 0 \<le> x) \<and>
     (if rated then \<forall>j. Suc j < i \<longrightarrow> lat ! j - of_int interval / 1000000 \<le> lat ! Suc j
      else sum_list lat \<le> elapsed)"

lemma planned_eq: "planned rateStart interval i = Some t \<Longrightarrow> t = rateStart + interval * int (i + 1)"
  by (auto simp: planned_def Let_def split: if_splits)

lemma wp_worker_calls:
  fixes K :: "'w sdk"
  assumes "bench_documented K E clk" and "reads_documented K" and "writes_documented K"
    and "\<And>j. Num 0 < perThreadRate args \<Longrightarrow> j < i + n \<Longrightarrow> planned rateStart interval j \<noteq> None"
    and "samples_ok (Num 0 < perThreadRate args) interval (of_int (clk (c_world s) - begin) / 1000000) lat errs i"
    and "Num 0 < perThreadRate args \<Longrightarrow> lat \<noteq> [] \<Longrightarrow>
      last lat \<le> of_int (clk (c_world s) - (rateStart + interval * int i)) / 1000000"
  shows "wp {} (worker_calls K E args interval rateStart n i (lat, errs))
    (\<lambda>(lat, errs) t. samples_ok (Num 0 < perThreadRate args) interval
       (of_int (clk (c_world t) - begin) / 1000000) lat errs (i + n)) s"
  using assms(4-)
proof (induction n arbitrary: i lat errs s)
  case (Suc n)
  let ?rated = "Num 0 < perThreadRate args"
  have plan: "?rated \<Longrightarrow> planned rateStart interval i \<noteq> None" using Suc.prems(1) by simp
  show ?case
    unfolding worker_calls.simps
  proof (rule wp_bindI [OF wp_worker_call [OF assms(1-3) plan]], assumption, clarify)
    fix ms :: rat and ok and t :: "'w client"
    assume le: "clk (c_world s) \<le> clk (c_world t)" and pos: "0 \<le> ms"
      and ms: "if ?rated then \<exists>target. planned rateStart interval i = Some target \<and>
          of_int (clk (c_world s) - target) / 1000000 \<le> ms \<and> ms \<le> of_int (clk (c_world t) - target) / 1000000
        else ms \<le> of_int (clk (c_world t) - clk (c_world s)) / 1000000"
    have ok: "samples_ok ?rated interval (of_int (clk (c_world t) - begin) / 1000000) (lat @ [ms])
        (errs + (if ok then 0 else 1)) (Suc i)"
    proof (cases ?rated)
      case True
      with ms Suc.prems(3) have "ms \<ge> last lat - of_int interval / 1000000" if "lat \<noteq> []"
        using that by (auto simp: field_simps dest!: planned_eq)
      then have "lat ! j - of_int interval / 1000000 \<le> ms" if "Suc j = length lat" for j
        using that last_conv_nth [of lat] by (metis diff_Suc_1 length_0_conv nat.distinct(1))
      with True Suc.prems(2) pos show ?thesis
        by (auto simp: samples_ok_def nth_append less_Suc_eq le_SucI)
    next
      case False
      with ms Suc.prems(2) pos show ?thesis
        by (auto simp: samples_ok_def field_simps le_SucI)
    qed
    have "?rated \<Longrightarrow> ms \<le> of_int (clk (c_world t) - (rateStart + interval * int (Suc i))) / 1000000"
      using ms by (auto dest!: planned_eq)
    with ok Suc.prems(1) Suc.IH [of "Suc i" t "lat @ [ms]" "errs + (if ok then 0 else 1)"]
    show "wp {} (worker_calls K E args interval rateStart n (Suc i)
        (fst (lat, errs) @ [ms], snd (lat, errs) + (if ok then 0 else 1)))
      (\<lambda>(lat, errs) t. samples_ok ?rated interval
         (of_int (clk (c_world t) - begin) / 1000000) lat errs (i + Suc n)) t"
      by simp
  qed
qed (simp add: wp_ret)

text \<open>The interval of a rate is not negative.\<close>

lemma interval_nonneg:
  assumes "intervalNs args = Some interval"
  shows "0 \<le> interval"
proof (cases "perThreadRate args")
  case (Num x)
  show ?thesis
  proof (cases "0 < x")
    case True
    then have "0 \<le> \<lfloor>1000000000 / x\<rfloor>" by simp
    with assms Num True show ?thesis
      by (auto simp: intervalNs_def divide_double_def Let_def split: if_splits)
  qed (use assms Num in \<open>simp add: intervalNs_def\<close>)
next
  case PInf
  with assms show ?thesis by (auto simp: intervalNs_def divide_double_def Let_def split: if_splits)
qed (use assms in \<open>simp_all add: intervalNs_def less_double_def\<close>)

lemma planned_fits:
  assumes "0 \<le> interval" and "0 \<le> rateStart" and "rateStart + interval * int n < 2 ^ 63" and "j < n"
  shows "planned rateStart interval j \<noteq> None"
proof -
  have "interval * int (j + 1) \<le> interval * int n" "0 \<le> interval * int (j + 1)"
    using assms(1,4) by (simp_all add: mult_left_mono)
  with assms(2,3) show ?thesis by (simp add: planned_def in_int64_def Let_def)
qed

lemma wp_clock_read:
  assumes "bench_documented K E clk"
  shows "wp {} (clock_now K) (\<lambda>x t. fst (wall_now K (c_world s)) = Inr x \<and> clk (c_world s) \<le> clk (c_world t)) s"
  unfolding clock_now_def
  using assms by (intro wp_total_call) (auto simp: bench_documented_def wall_documented_def)


section \<open>Runs\<close>

text \<open>
  A run of complete workers makes \<open>ops\<close> calls rounded down to a multiple of the threads, with its
  percentiles in order.
\<close>

lemma sum_list_const: "(\<And>x. x \<in> set xs \<Longrightarrow> f x = c) \<Longrightarrow> sum_list (map f xs) = length xs * (c :: nat)"
  by (induction xs) simp_all

lemma run_summary:
  assumes "la_threads args \<noteq> 0" and "length ws = unat (la_threads args)"
    and "\<And>w. w \<in> set ws \<Longrightarrow> length (fst w) = perThread args"
  shows "\<exists>r. summarise wallMs ws = Some r \<and>
    run_calls r = unat (la_ops args) - unat (la_ops args) mod unat (la_threads args) \<and>
    run_p50 r \<le> run_p90 r \<and> run_p90 r \<le> run_p99 r \<and> run_p99 r \<le> run_p999 r \<and> run_p999 r \<le> run_max r"
proof -
  let ?xs = "bench_sorted (concat (map fst ws))"
  have calls: "length ?xs = unat (la_ops args) - unat (la_ops args) mod unat (la_threads args)"
    using sum_list_const [of ws "\<lambda>w. length (fst w)" "perThread args"] assms(2,3)
    by (simp add: length_concat comp_def perThread_def unat_div minus_mod_eq_mult_div)
  show ?thesis
  proof (cases "?xs = []")
    case True
    with calls show ?thesis by (simp add: summarise_def percentile_def Let_def)
  next
    case False
    obtain a b where ab: "percentile ?xs 50 = Some a" "percentile ?xs 90 = Some b" "a \<le> b"
      using percentile_mono [OF _ False, of 50 90] by auto
    obtain c where c: "percentile ?xs 99 = Some c" "b \<le> c"
      using percentile_mono [OF _ False, of 90 99] ab(2) by auto
    obtain d where d: "percentile ?xs (999 / 10) = Some d" "c \<le> d" "d \<le> last ?xs"
      using percentile_mono [OF _ False, of 99 "999 / 10"] c(1) by auto
    show ?thesis using False ab c d calls by (auto simp: summarise_def Let_def)
  qed
qed

text \<open>The exit status looks at the measured calls alone.\<close>

lemma pool_errors:
  "sum_list (map (\<lambda>w. case w of None \<Rightarrow> 0 | Some (_, e) \<Rightarrow> e) pool) = (0 :: nat) \<longleftrightarrow>
    (\<forall>lat e. Some (lat, e) \<in> set pool \<longrightarrow> e = 0)"
  by (induction pool) (auto split: option.split)

lemma latency_status_zero:
  "latency_status pools n = 0 \<longleftrightarrow> n = 0 \<and>
    (\<forall>pool \<in> set pools. None \<notin> set pool \<and> (\<forall>lat e. Some (lat, e) \<in> set pool \<longrightarrow> e = 0))"
proof (induction pools n rule: latency_status.induct)
  case (2 pool pools n)
  then show ?case
    using pool_errors [of pool] by (simp del: sum_list_eq_0_iff)
qed simp

end
