(* ===== verification/Bench_Run.thy ===== *)
theory Bench_Run
  imports Witnesses Bench_Latency
begin

text \<open>
  The benchmarks on the executable SDK of \<open>Sim_Sdk\<close>: an environment in which a sleep lasts as
  long as it is asked to, and the properties of the benchmark programs applied to it.
\<close>

definition sim_sleep :: "double \<Rightarrow> (sim, unit) sdk_call" where
  "sim_sleep d w = (Inr (), [], case d of Num ms \<Rightarrow> w\<lparr>sim_ns := sim_ns w + max 0 \<lfloor>ms * 1000000\<rfloor>\<rparr> | _ \<Rightarrow> w)"

definition sim_server_lib :: "sim server_lib" where
  "sim_server_lib = \<lparr>config_setDefault = (\<lambda>w. (True, w)), config_clean = (\<lambda>w. w),
     newWithConfig = (\<lambda>w. (Some 1, w)), getConfig = (\<lambda>h w. Some True), redirectLog = (\<lambda>h w. w),
     dropUrls = (\<lambda>h w. w), setUrl = (\<lambda>h url w. (True, w)), addNode = (\<lambda>h node w. w),
     run_startup = (\<lambda>h w. (True, w\<lparr>sim_up := True\<rparr>)), run_shutdown = (\<lambda>h w. w\<lparr>sim_up := False\<rparr>),
     server_delete = (\<lambda>h w. w)\<rparr>"

definition sim_env :: "sim bench_env" where
  "sim_env = \<lparr>sleep_for = sim_sleep, others = (\<lambda>s. s), statm = (\<lambda>w. Some [900, 300]), page_size = 4096,
     server_lib = sim_server_lib\<rparr>"

lemma sim_bench: "bench_documented sim_sdk sim_env sim_ns"
proof -
  have "sim_ns w \<le> sim_ns (snd (snd (sim_sleep d w)))" for d w
    by (cases d) (simp_all add: sim_sleep_def)
  then show ?thesis
    using sim_wall
    by (simp add: bench_documented_def sim_env_def) (simp add: sim_defs sim_sleep_def split: list.split)
qed

text \<open>A connected client.\<close>

definition sim_user :: "sim client" where
  "sim_user = \<lparr>pImpl = Some sim_online, m_recreating = False, m_terminated = False, m_inFlight = 0,
     m_shutdownInFlight = 0, m_endpointUrl = ''opc.tcp://plc:4840'', borrowed = False,
     c_world = world sim_online\<rparr>"


text \<open>Waiting half a second.\<close>

lemma waiting_half_a_second:
  "\<exists>b t. waitHealthy sim_sdk sim_env 51 500 sim_user = (Ret b, t) \<and>
    (b \<or> 500 \<le> rat_of_int (sim_ns (c_world t) - sim_ns (c_world sim_user)) / 1000000)"
  using waitHealthy_decides [OF sim_bench, of 500 50 51 sim_user]
  by (auto simp: wp_def split: prod.splits outcome.splits)

text \<open>A worker that makes five calls, forty a second.\<close>

definition sim_latency :: latency_args where
  "sim_latency = latency_default\<lparr>la_threads := 1, la_ops := 5, la_rate := Num 40\<rparr>"


end
