(* ===== verification/Spec2Isabelle.thy ===== *)
theory Spec2Isabelle
  imports Witnesses Impl_Run Pool_Headers Bench_Run
begin

text \<open>
  Verification of \<open>OPCUAPacking\<close>, a C++17 client for OPC UA servers on top of the
  open62541 stack: \<open>src/OPCUAPacking/ua.cpp\<close> with its headers in
  \<open>src/OPCUAPacking/detail\<close>, \<open>include/OPCUAPacking\<close> and \<open>include/Rust_error_deal\<close>.

  \<^bold>\<open>The program.\<close>  The class \<open>OPC_UA_Client\<close> holds a shared pointer to one \<open>Impl\<close>, which owns
  one SDK client.  A watchdog thread decides every \<open>watchdogIntervalMs\<close> whether the connection is
  healthy, tries to repair it and gives up after \<open>giveUpThresholdMs\<close>; callers read and write
  batches of nodes, and replace a given-up \<open>Impl\<close> by \<open>recreateGiveUpClient()\<close>.  The threads
  share atomics: the packed connection snapshot \<open>state_packed\<close>, the life state
  \<open>m_lifeState\<close>, the single-flight flag \<open>m_connState\<close>, and under \<open>m_recreateLock\<close> the marks and
  counters of \<open>RecreateSync\<close>.  Everything the program knows about the network comes through
  \<open>ISdk\<close>.

  \<^bold>\<open>How it is modelled.\<close>  A C++ operation is a function from a state to an outcome and a new
  state (theory \<open>Prelude\<close>): \<open>Ret\<close>, an exception \<open>Throw\<close>, \<open>Diverge\<close> for a loop that has used up
  its fuel, \<open>Fault\<close> for undefined behaviour (a null pointer, a read past an array).  Machine
  integers are words of their width; \<open>int64_t\<close> milliseconds are \<open>int\<close>.  The SDK, the clocks and
  the platform are one record \<open>'w sdk\<close> over an unknown world \<open>'w\<close>, an argument of the
  definitions; what a property needs of it are the \<open>_documented\<close> hypotheses of \<open>Ua_Sdk\<close>,
  \<open>Conversion\<close> and \<open>Watchdog_Facts\<close>.  A call into the SDK returns or throws whatever it likes and
  delivers events: the two callbacks, and what another thread completes meanwhile.
\<close>

text \<open>
  \<^bold>\<open>Theories and sources.\<close>

  \<^item> \<open>Prelude\<close>: outcomes, sequencing, exceptions and scope guards; the guarantee calculus
    (\<open>guar R m\<close>: every exit of \<open>m\<close> is related to its start by \<open>R\<close>), the locale \<open>guarantee\<close>, and
    the weakest precondition \<open>wp A m Q s\<close> (\<open>m\<close> leaves by a result satisfying \<open>Q\<close> or by an
    exit in \<open>A\<close>).
  \<^item> \<open>Error_Deal\<close>: \<open>RichError\<close> and \<open>Result\<close> of \<open>error_deal.h\<close>; its combinators form a
    lawful sequencing interface (locale \<open>fallible\<close>).
  \<^item> \<open>S7_Types\<close>: \<open>S7TypeStruct.h\<close>, \<open>ValueTypes.h\<close>.
  \<^item> \<open>Ua_Sdk\<close>: \<open>Isdk.h\<close> and the SDK types it names, as the parameter.
  \<^item> \<open>Conversion\<close>: \<open>TypeTraits.h\<close>, \<open>ConversionDispatcher.h\<close>, \<open>uaNodeIDAlloc\<close>: no null pointer is
    followed, accepted values survive a round trip, the rejections are exact; the locale
    \<open>heap_contract\<close> for what only allocates and copies.
  \<^item> \<open>Client_Config\<close>: \<open>Types.h\<close>: \<open>check()\<close> accepts exactly the documented constraints.
  \<^item> \<open>Packed_State\<close>: the 64-bit snapshot: packing is a bijection, and in every interleaving of
    callbacks and probes no update is lost.
  \<^item> \<open>Impl_State\<close>: the members of \<open>Impl\<close>, its predicates, life-state transitions, guards and
    the step from an SDK call to its events; the locales \<open>impl_contract\<close>, \<open>batch_contract\<close>
    and \<open>service_contract\<close>, a relation kept by every primitive, interpreted on four relations
    here and on more where they are needed.
  \<^item> \<open>Impl_Connect\<close>, \<open>Connect_Facts\<close>: \<open>isConnected\<close>, \<open>connect\<close>, \<open>disconnect\<close>: what each exit
    promises about the cached snapshot, the life state and the SDK.
  \<^item> \<open>Backoff\<close>: \<open>calculateBackoff\<close>, \<open>delayFunction\<close>.
  \<^item> \<open>Timing\<close>: with enough fuel for the wall budget \<open>connect()\<close> and \<open>disconnect()\<close> never end in
    \<open>Diverge\<close>, and the overflow of that budget.
  \<^item> \<open>Impl_Batch\<close>, \<open>Batch_Facts\<close>: \<open>batchRead\<close>, \<open>batchWrite\<close>: gates, number of service calls,
    results against their documented meaning, exhausted retries.
  \<^item> \<open>Watchdog\<close>, \<open>Watchdog_Facts\<close>: \<open>doWatchdogDecision\<close>, \<open>runWatchdog\<close>.
  \<^item> \<open>Impl_Lifecycle\<close>: configuration, start, shutdown and destruction of \<open>Impl\<close>.
  \<^item> \<open>Life_Protocol\<close>: the life state under every interleaving of its four transitions.
  \<^item> \<open>Recreate_Protocol\<close>: leases, recreate, shutdown and destructor under every interleaving of
    their critical sections.
  \<^item> \<open>Threads\<close>: counting threads by the place they have reached, for the protocols.
  \<^item> \<open>Impl_Protocol\<close>, \<open>Impl_Protocol_Facts\<close>, \<open>Impl_Run\<close>: one \<open>Impl\<close> under every interleaving of its
    operations, its watchdog, \<open>shutdown()\<close> and \<open>~Impl\<close>, with the locks, the task counter and the
    reference counts as the numbers of threads that hold them: one connection attempt and one SDK
    call at a time, nothing served after a completed drain, the SDK client deleted once and never
    used afterwards, no deadlock and nothing left behind.
  \<^item> \<open>Client_Api\<close>, \<open>Client_Facts\<close>: the public class, run by one thread while others act through
    events: leases, no exception, rejections, shutdown, recreate, factories (locale
    \<open>client_contract\<close>).
  \<^item> \<open>Returns\<close>: the same operations on every way out, with no partial-correctness clause left: under the clock and
    array hypotheses no public operation throws, faults or runs on for ever.
  \<^item> \<open>Session\<close>: the public class refines a two-state specification, and every call of a session
    returns.
  \<^item> \<open>Session_Protocol\<close>: a session of the sequential model is one execution of
    \<open>Recreate_Protocol\<close>.
  \<^item> \<open>Ownership\<close>: a session owns exactly one SDK client from its creation to its end: none is
    leaked and none deleted twice.
  \<^item> \<open>Real_Sdk\<close>: \<open>RealSdk.h\<close>: who owns the configuration while a client is made and deleted.
  \<^item> \<open>Pool_Headers\<close>: what \<open>include/Thread_pool\<close> holds of code: the schema transaction and the count
    of pending tasks.
  \<^item> \<open>Bench_Stats\<close>, \<open>Bench_Args\<close>, \<open>Bench_Server\<close>: \<open>bench/bench_common.h\<close> and the argument parsers of the
    benchmark programs: the percentiles they print, the settings they accept, and the in-process
    server with its serving thread under every interleaving.
  \<^item> \<open>Bench_Env\<close>, \<open>Bench_Rss\<close>, \<open>Bench_Recovery\<close>, \<open>Bench_Latency\<close>: the measuring loops of
    \<open>bench/bench_rss.cpp\<close>, \<open>bench_recovery.cpp\<close> and \<open>bench_latency.cpp\<close> as clients of \<open>Client_Api\<close>: they end,
    they make the calls they announce, and their samples and rows are true to the clock.
  \<^item> \<open>Sim_Sdk\<close>, \<open>Witnesses\<close>, \<open>Bench_Run\<close>: an executable SDK, and every property with a hypothesis applied to a
    concrete run on it.
\<close>

text \<open>
  \<^bold>\<open>Loops and bounds.\<close>  The loops of \<open>connect()\<close>, \<open>disconnect()\<close> and \<open>runWatchdog()\<close> are bounded by
  nothing but clocks, so they take fuel, one unit per pass, and end in \<open>Diverge\<close> without it.
  \<open>enough_polls\<close> in \<open>Timing\<close> is one pass per nanosecond of the wall budget, at most
  4294967295000000; with a clock that advances at every reading it is enough.
  The watchdog runs until it is stopped, so its theorems hold for every fuel.
  The loops of the benchmarks take one unit for each pass as well; enough is one for each period or
  poll of ten milliseconds in their time limit, plus one.
  The retry loop of \<open>batchRead\<close> and the delay loop end by their own counters.  The loops around
  a compare-and-swap are one step in the sequential model and are unrolled in \<open>Packed_State\<close> and
  \<open>Life_Protocol\<close>.

  \<^bold>\<open>Concurrency.\<close>  The sequential model runs one operation with every other thread reduced
  to the events of its blocking calls.  The protocol theories (\<open>Packed_State\<close>, \<open>Life_Protocol\<close>,
  \<open>Impl_Protocol\<close>, \<open>Recreate_Protocol\<close>) have no such reduction: any number of threads, one atomic
  access or critical section per step, sequentially consistent.  The refinements
  at the end of \<open>Life_Protocol\<close> and in \<open>Session_Protocol\<close> tie two of them to the sequential model.
  \<open>Impl_Protocol\<close> leaves the choice of
  each branch that does not depend on its state open, so it has every execution of the code; the
  stop signal, the locks, the counters and the null test of \<open>m_impl\<close> are its guards.
  Acquire and release orders, spurious failures of a weak compare-and-swap (they repeat a step) and
  the waiting queues of mutexes are not modelled.

  \<^bold>\<open>Not modelled.\<close>  open62541 and spdlog (not part of the repository); the members of \<open>RealSdk.h\<close> that only
  pass a call on to open62541; log lines; \<open>include/concurrentqueue.h\<close> and \<open>blockingconcurrentqueue.h\<close>
  (vendored and not used by the client); the members of \<open>include/Thread_pool\<close> that are only declared
  (their bodies are not in the repository); of the benchmarks the worker pool and the printing
  of \<open>bench_latency\<close>, the main function of \<open>bench_server\<close> and \<open>initLogging\<close>, as well as the rounding of
  \<open>double\<close>, which is an exact rational with infinities and NaN here; the tests and \<open>main_uaPacking.cpp\<close>.
\<close>

end
